(* ===== verification/IA2_Prelude.thy ===== *)
theory IA2_Prelude
  imports Main "HOL-Library.Word"
begin

text \<open>
  Shared vocabulary of the development: the names of the machine types the
  C, C++ and Rust sources use, 64-bit \<open>usize\<close>/\<open>size_t\<close> arithmetic on naturals
  with its wrap-around written out, page rounding, and the collections of
  rewrite rules the component theories add to.
\<close>

section \<open>Collections of rewrite rules\<close>

named_theorems usize_simps \<open>unsigned 64-bit arithmetic without overflow\<close>
named_theorems view_simps \<open>effect of an operation on the abstract view of a state\<close>
named_theorems asm_simps \<open>execution of emitted instruction sequences\<close>

section \<open>Machine types\<close>

type_synonym u8 = "8 word"
type_synonym u16 = "16 word"
type_synonym u32 = "32 word"
type_synonym u64 = "64 word"
type_synonym pid_t = int

section \<open>Unsigned 64-bit arithmetic on naturals\<close>

definition usize_bound :: nat where
  "usize_bound = 2 ^ 64"

definition usize_add :: "nat \<Rightarrow> nat \<Rightarrow> nat" where
  "usize_add a b = (a + b) mod usize_bound"

definition usize_sub :: "nat \<Rightarrow> nat \<Rightarrow> nat" where
  "usize_sub a b = (a + (usize_bound - b)) mod usize_bound"

lemma usize_bound_pos [simp]: "0 < usize_bound"
  by (simp add: usize_bound_def)

lemma usize_add_exact [usize_simps]: "a + b < usize_bound \<Longrightarrow> usize_add a b = a + b"
  by (simp add: usize_add_def)

lemma usize_sub_exact [usize_simps]:
  assumes "b \<le> a" "a < usize_bound"
  shows "usize_sub a b = a - b"
proof -
  have "a + (usize_bound - b) = (a - b) + usize_bound" using assms by simp
  then have "usize_sub a b = ((a - b) + usize_bound) mod usize_bound" by (simp only: usize_sub_def)
  also have "\<dots> = (a - b) mod usize_bound" by (rule mod_add_self2)
  also have "\<dots> = a - b" using assms by (intro mod_less) linarith
  finally show ?thesis .
qed

section \<open>Pages\<close>

definition PAGE_SIZE :: nat where
  "PAGE_SIZE = 4096"

lemma PAGE_SIZE_pos [simp]: "0 < PAGE_SIZE"
  by (simp add: PAGE_SIZE_def)

text \<open>Clearing the low twelve bits, \<open>x & !0xFFF\<close>.\<close>
definition page_down :: "nat \<Rightarrow> nat" where
  "page_down x = x - x mod PAGE_SIZE"

definition page_aligned :: "nat \<Rightarrow> bool" where
  "page_aligned x = (x mod PAGE_SIZE = 0)"

lemma page_down_le [simp]: "page_down x \<le> x"
  by (simp add: page_down_def)

lemma page_down_aligned [simp]: "page_aligned (page_down x)"
  by (simp add: page_down_def page_aligned_def minus_mod_eq_mult_div)

lemma page_down_alt: "page_down x = PAGE_SIZE * (x div PAGE_SIZE)"
  by (simp add: page_down_def minus_mod_eq_mult_div)

lemma page_down_gt: "x < page_down x + PAGE_SIZE"
proof -
  have "x mod PAGE_SIZE < PAGE_SIZE" by simp
  moreover have "page_down x + x mod PAGE_SIZE = x" by (simp add: page_down_def)
  ultimately show ?thesis by linarith
qed

lemma aligned_le_page_down:
  assumes "page_aligned p"
  shows "p \<le> page_down x \<longleftrightarrow> p \<le> x"
proof
  assume "p \<le> x"
  obtain k where p: "p = PAGE_SIZE * k" using assms by (auto simp: page_aligned_def)
  have "k \<le> x div PAGE_SIZE" using \<open>p \<le> x\<close> p by (simp add: less_eq_div_iff_mult_less_eq mult.commute)
  then show "p \<le> page_down x" by (simp add: p page_down_alt)
qed (use page_down_le le_trans in blast)

lemma page_down_idem [simp]: "page_aligned p \<Longrightarrow> page_down p = p"
  by (simp add: page_down_def page_aligned_def)

lemma page_aligned_iff: "page_aligned x \<longleftrightarrow> (\<exists>k. x = PAGE_SIZE * k)"
  by (auto simp: page_aligned_def)

lemma aligned_less_step:
  assumes "page_aligned x" "page_aligned y" "x < y"
  shows "x + PAGE_SIZE \<le> y"
proof -
  obtain j k where "x = PAGE_SIZE * j" "y = PAGE_SIZE * k"
    using assms(1,2) by (auto simp: page_aligned_iff)
  moreover from this assms(3) have "Suc j \<le> k" by simp
  ultimately show ?thesis by (metis mult_le_mono2 mult_Suc_right add.commute)
qed

section \<open>Results with two kinds of failure\<close>

text \<open>
  A Rust function that may \<open>panic!\<close> is modelled by an option; \<^term>\<open>None\<close> is the panic
  (the panic handler of the tracer's library never returns).
\<close>
type_synonym 'a panics = "'a option"

end
