(* ===== verification/Interval_Tree.thy ===== *)
theory Interval_Tree
  imports IA2_Prelude "HOL-Library.Monad_Syntax"
begin

text \<open>
  The map of disjoint address intervals under the tracer's memory map. The
  tree itself is the Rust crate \<open>nonoverlapping_interval_tree\<close>, whose code is not
  part of the repository: its four operations are a parameter (\<open>tree_ops\<close>), what
  the memory map relies on are the laws of the locale \<open>interval_tree\<close>, and the
  sorted list of intervals at the end of the theory shows that the laws can
  be met.
\<close>

section \<open>Intervals and their lists\<close>

text \<open>A half-open interval \<open>[lo, hi)\<close> with the value stored for it.\<close>
type_synonym 'v ivl = "nat \<times> nat \<times> 'v"

fun ivl_overlaps :: "nat \<Rightarrow> nat \<Rightarrow> 'v ivl \<Rightarrow> bool" where
  "ivl_overlaps lo hi (lo', hi', v) = (lo' < hi \<and> lo < hi')"

fun ivl_contains :: "nat \<Rightarrow> 'v ivl \<Rightarrow> bool" where
  "ivl_contains a (lo, hi, v) = (lo \<le> a \<and> a < hi)"

fun ivls_ok :: "'v ivl list \<Rightarrow> bool" where
  "ivls_ok [] = True"
| "ivls_ok ((lo, hi, v) # xs) = (lo < hi \<and> (\<forall>(lo', hi', v') \<in> set xs. hi \<le> lo') \<and> ivls_ok xs)"

fun ivl_insert :: "'v ivl \<Rightarrow> 'v ivl list \<Rightarrow> 'v ivl list" where
  "ivl_insert i [] = [i]"
| "ivl_insert i (j # xs) = (if fst i < fst j then i # j # xs else j # ivl_insert i xs)"

text \<open>The value stored at an address.\<close>
fun ivls_at :: "'v ivl list \<Rightarrow> nat \<Rightarrow> 'v option" where
  "ivls_at [] a = None"
| "ivls_at ((lo, hi, v) # xs) a = (if lo \<le> a \<and> a < hi then Some v else ivls_at xs a)"

lemma set_ivl_insert [simp]: "set (ivl_insert i xs) = insert i (set xs)"
  by (induction xs) auto

lemma ivls_ok_filter: "ivls_ok xs \<Longrightarrow> ivls_ok (filter P xs)"
  by (induction xs rule: ivls_ok.induct) auto

lemma ivls_ok_nonempty: "ivls_ok xs \<Longrightarrow> (lo, hi, v) \<in> set xs \<Longrightarrow> lo < hi"
  by (induction xs rule: ivls_ok.induct) auto

lemma ivls_ok_insert:
  assumes "ivls_ok xs" "lo < hi" "\<forall>i \<in> set xs. \<not> ivl_overlaps lo hi i"
  shows "ivls_ok (ivl_insert (lo, hi, v) xs)"
  using assms
proof (induction xs rule: ivls_ok.induct)
  case (2 lo' hi' v' xs)
  have *: "lo' < hi'" "hi \<le> lo' \<or> hi' \<le> lo" using 2 by auto
  show ?case
  proof (cases "lo < lo'")
    case True
    then have "hi \<le> lo'" using * 2(3) by auto
    then show ?thesis using True 2 * by fastforce
  next
    case False
    then have "hi' \<le> lo" using * 2(3) by auto
    then show ?thesis using False 2 by auto
  qed
qed simp

lemma ivls_ok_disjoint:
  assumes "ivls_ok xs" "i \<in> set xs" "j \<in> set xs" "i \<noteq> j"
  shows "fst (snd i) \<le> fst j \<or> fst (snd j) \<le> fst i"
  using assms by (induction xs rule: ivls_ok.induct) fastforce+

lemma ivls_ok_unique:
  assumes "ivls_ok xs" "(lo, hi, v) \<in> set xs" "(lo', hi', v') \<in> set xs"
    and "lo \<le> a" "a < hi" "lo' \<le> a" "a < hi'"
  shows "lo = lo' \<and> hi = hi' \<and> v = v'"
  using ivls_ok_disjoint [OF assms(1-3)] assms(4-) by (cases "(lo, hi, v) = (lo', hi', v')") auto

lemma ivls_ok_start_unique:
  assumes "ivls_ok xs" "(lo, hi, v) \<in> set xs" "i \<in> set xs" "fst i = lo"
  shows "i = (lo, hi, v)"
  using ivls_ok_disjoint [OF assms(1-3)] assms(4) ivls_ok_nonempty [OF assms(1,2)]
    ivls_ok_nonempty [of xs "fst i" "fst (snd i)" "snd (snd i)"] assms(1,3)
  by (cases i) force

lemma ivls_at_Some_iff:
  assumes "ivls_ok xs"
  shows "ivls_at xs a = Some v \<longleftrightarrow> (\<exists>lo hi. (lo, hi, v) \<in> set xs \<and> lo \<le> a \<and> a < hi)"
  using assms
proof (induction xs rule: ivls_ok.induct)
  case (2 lo hi w xs)
  have IH: "ivls_at xs a = Some v \<longleftrightarrow> (\<exists>l h. (l, h, v) \<in> set xs \<and> l \<le> a \<and> a < h)"
    using 2 by simp
  have above: "hi \<le> l" if "(l, h, v) \<in> set xs" for l h
    using 2(2) that by auto
  show ?case
  proof (cases "lo \<le> a \<and> a < hi")
    case True
    then have "\<not> (\<exists>l h. (l, h, v) \<in> set xs \<and> l \<le> a \<and> a < h)"
      using above by (meson leD le_trans)
    then show ?thesis using True by auto
  next
    case False
    then show ?thesis using IH by auto
  qed
qed simp

lemma ivls_at_None_iff:
  "ivls_at xs a = None \<longleftrightarrow> (\<forall>i \<in> set xs. \<not> ivl_contains a i)"
  by (induction xs a rule: ivls_at.induct) auto

text \<open>Two lists of disjoint intervals with the same elements have the same view.\<close>
lemma ivls_at_cong:
  assumes "ivls_ok xs" "ivls_ok ys"
    and "\<And>v. (\<exists>lo hi. (lo, hi, v) \<in> set xs \<and> lo \<le> a \<and> a < hi)
            \<longleftrightarrow> (\<exists>lo hi. (lo, hi, v) \<in> set ys \<and> lo \<le> a \<and> a < hi)"
  shows "ivls_at xs a = ivls_at ys a"
  using assms(3) ivls_at_Some_iff [OF assms(1)] ivls_at_Some_iff [OF assms(2)]
  by (metis option.exhaust)

lemma ivls_at_insert:
  assumes "\<forall>i \<in> set xs. \<not> ivl_overlaps lo hi i" "lo < hi" "ivls_ok xs"
  shows "ivls_at (ivl_insert (lo, hi, v) xs) a = (if lo \<le> a \<and> a < hi then Some v else ivls_at xs a)"
  using assms
proof (induction xs rule: ivls_ok.induct)
  case (2 lo' hi' v' xs)
  then show ?case by auto
qed simp

lemma ivls_at_remove:
  assumes "ivls_ok xs" "(lo, hi, v) \<in> set xs"
  shows "ivls_at (filter (\<lambda>i. fst i \<noteq> lo) xs) a = (if lo \<le> a \<and> a < hi then None else ivls_at xs a)"
proof (cases "lo \<le> a \<and> a < hi")
  case True
  have "\<not> ivl_contains a i" if "i \<in> set xs" "fst i \<noteq> lo" for i
    using ivls_ok_disjoint [OF assms that(1)] that True by (cases i) force
  then show ?thesis using True by (simp add: ivls_at_None_iff)
next
  case False
  have eq: "i = (lo, hi, v)" if "i \<in> set xs" "fst i = lo" for i
    using ivls_ok_start_unique [OF assms that] .
  have "(\<exists>l h. (l, h, w) \<in> set (filter (\<lambda>i. fst i \<noteq> lo) xs) \<and> l \<le> a \<and> a < h)
        \<longleftrightarrow> (\<exists>l h. (l, h, w) \<in> set xs \<and> l \<le> a \<and> a < h)" for w
    using eq False by force
  then show ?thesis
    using False ivls_at_cong [OF ivls_ok_filter [OF assms(1)] assms(1)] by metis
qed

section \<open>The interface of the tree\<close>

record ('t, 'v) tree_ops =
  tree_default :: 't
  tree_range :: "nat \<Rightarrow> nat \<Rightarrow> 't \<Rightarrow> 'v ivl list"
  tree_insert :: "nat \<Rightarrow> nat \<Rightarrow> 'v \<Rightarrow> 't \<Rightarrow> 't"
  tree_remove :: "nat \<Rightarrow> 't \<Rightarrow> ('v \<times> 't) option"

text \<open>
  \<open>ivls\<close> lists the stored intervals in ascending order: iterating over a
  nonempty range yields those that overlap it, in order; inserting an
  interval that overlaps none adds it; removing by start address returns
  \<open>None\<close> when no interval starts there and otherwise drops it.
\<close>
locale interval_tree =
  fixes T :: "('t, 'v) tree_ops"
    and tinv :: "'t \<Rightarrow> bool"
    and ivls :: "'t \<Rightarrow> 'v ivl list"
  assumes ok: "tinv t \<Longrightarrow> ivls_ok (ivls t)"
    and default: "tinv (tree_default T)" "ivls (tree_default T) = []"
    and range_law: "tinv t \<Longrightarrow> lo < hi \<Longrightarrow>
      tree_range T lo hi t = filter (ivl_overlaps lo hi) (ivls t)"
    and insert_law: "tinv t \<Longrightarrow> lo < hi \<Longrightarrow> \<forall>i \<in> set (ivls t). \<not> ivl_overlaps lo hi i \<Longrightarrow>
      tinv (tree_insert T lo hi v t) \<and>
      ivls (tree_insert T lo hi v t) = ivl_insert (lo, hi, v) (ivls t)"
    and remove_none: "tinv t \<Longrightarrow> lo \<notin> fst ` set (ivls t) \<Longrightarrow> tree_remove T lo t = None"
    and remove_some: "tinv t \<Longrightarrow> (lo, hi, v) \<in> set (ivls t) \<Longrightarrow>
      \<exists>t'. tree_remove T lo t = Some (v, t') \<and> tinv t' \<and>
           ivls t' = filter (\<lambda>i. fst i \<noteq> lo) (ivls t)"

section \<open>The laws can be met: sorted lists\<close>

definition list_tree_remove :: "nat \<Rightarrow> 'v ivl list \<Rightarrow> ('v \<times> 'v ivl list) option" where
  "list_tree_remove lo xs =
    (case filter (\<lambda>i. fst i = lo) xs of
       [] \<Rightarrow> None
     | i # _ \<Rightarrow> Some (snd (snd i), filter (\<lambda>i. fst i \<noteq> lo) xs))"

definition list_tree :: "('v ivl list, 'v) tree_ops" where
  "list_tree =
    \<lparr> tree_default = [],
      tree_range = (\<lambda>lo hi xs. filter (ivl_overlaps lo hi) xs),
      tree_insert = (\<lambda>lo hi v xs. ivl_insert (lo, hi, v) xs),
      tree_remove = list_tree_remove \<rparr>"

lemma list_tree_remove_some:
  assumes "ivls_ok xs" "(lo, hi, v) \<in> set xs"
  shows "list_tree_remove lo xs = Some (v, filter (\<lambda>i. fst i \<noteq> lo) xs)"
proof -
  obtain i ys where f: "filter (\<lambda>i. fst i = lo) xs = i # ys"
    using assms(2) by (cases "filter (\<lambda>i. fst i = lo) xs") (auto simp: filter_empty_conv)
  have "i \<in> set (filter (\<lambda>i. fst i = lo) xs)" by (simp add: f)
  then have "i = (lo, hi, v)" using ivls_ok_start_unique [OF assms] by simp
  with f have "filter (\<lambda>i. fst i = lo) xs = (lo, hi, v) # ys" by simp
  then show ?thesis by (simp add: list_tree_remove_def)
qed

interpretation list_tree: interval_tree list_tree ivls_ok "\<lambda>xs. xs"
proof unfold_locales
  fix t :: "'a ivl list" and lo hi :: nat and v :: 'a
  show "ivls_ok t \<Longrightarrow> lo \<notin> fst ` set t \<Longrightarrow> tree_remove list_tree lo t = None"
    by (auto simp: list_tree_def list_tree_remove_def split: list.splits)
      (metis (mono_tags, lifting) filter_eq_Cons_iff image_eqI in_set_conv_decomp fst_conv)
  show "ivls_ok t \<Longrightarrow> (lo, hi, v) \<in> set t \<Longrightarrow>
      \<exists>t'. tree_remove list_tree lo t = Some (v, t') \<and> ivls_ok t' \<and>
           t' = filter (\<lambda>i. fst i \<noteq> lo) t"
    by (simp add: list_tree_def list_tree_remove_some ivls_ok_filter)
qed (auto simp: list_tree_def ivls_ok_insert)

end
