(* ===== verification/Memory_Map.thy ===== *)
theory Memory_Map
  imports Interval_Tree
begin

text \<open>
  The tracer's map of the traced process (\<open>memory-map/src/lib.rs\<close>): for every
  mapped region the owning protection key, whether it was \<open>mprotect\<close>ed or
  \<open>pkey_mprotect\<close>ed, and its protection bits. Every operation is modelled with
  the panics of the Rust code (\<open>assert!\<close>, \<open>unwrap\<close>, \<open>panic!\<close>) as \<^term>\<open>None\<close>; the
  interval tree is the parameter \<open>T\<close>.
\<close>

section \<open>Ranges\<close>

record Range =
  start :: nat
  rlen :: nat

definition from_bounds :: "nat \<Rightarrow> nat \<Rightarrow> Range option" where
  "from_bounds s e = (if s < e then Some \<lparr> start = s, rlen = usize_sub e s \<rparr> else None)"

definition range_end :: "Range \<Rightarrow> nat" where
  "range_end r = usize_add (start r) (rlen r)"

definition subsumes :: "Range \<Rightarrow> Range \<Rightarrow> bool" where
  "subsumes r subrange = (start r \<le> start subrange \<and> range_end r \<ge> range_end subrange)"

definition round_to_4k :: "Range \<Rightarrow> Range" where
  "round_to_4k r =
    (let e = usize_add (start r) (rlen r);
         end_round_up = page_down (usize_add e 0xFFF);
         s = page_down (start r)
     in \<lparr> start = s, rlen = usize_sub end_round_up s \<rparr>)"

definition overlap :: "Range \<Rightarrow> Range \<Rightarrow> Range option" where
  "overlap r other = from_bounds (max (start r) (start other)) (min (range_end r) (range_end other))"

definition subtract :: "Range \<Rightarrow> Range \<Rightarrow> (Range option \<times> Range option) option" where
  "subtract r other =
    (case overlap r other of
       None \<Rightarrow> None
     | Some ov \<Rightarrow> Some (from_bounds (start r) (start ov), from_bounds (range_end ov) (range_end r)))"

section \<open>Regions and the map\<close>

record State =
  owner_pkey :: u8
  pkey_mprotected :: bool
  mprotected :: bool
  prot :: u32

record MemRegion =
  region_range :: Range
  region_state :: State

record 't memory_map =
  regions :: 't
  init_finished :: bool

type_synonym 't tree = "('t, State) tree_ops"

fun mem_region :: "State ivl \<Rightarrow> MemRegion" where
  "mem_region (lo, hi, s) =
    \<lparr> region_range = \<lparr> start = lo, rlen = usize_sub hi lo \<rparr>, region_state = s \<rparr>"

definition memory_map_new :: "'t tree \<Rightarrow> 't memory_map" where
  "memory_map_new T = \<lparr> regions = tree_default T, init_finished = False \<rparr>"

definition memory_map_mark_init_finished :: "'t memory_map \<Rightarrow> bool \<times> 't memory_map" where
  "memory_map_mark_init_finished M =
    (if init_finished M then (False, M) else (True, M\<lparr>init_finished := True\<rparr>))"

definition range_regions :: "'t tree \<Rightarrow> 't memory_map \<Rightarrow> Range \<Rightarrow> State ivl list" where
  "range_regions T M r = tree_range T (start r) (range_end r) (regions M)"

definition add_region :: "'t tree \<Rightarrow> Range \<Rightarrow> State \<Rightarrow> 't memory_map \<Rightarrow> (bool \<times> 't memory_map) panics" where
  "add_region T r s M =
    (if rlen r = 0 then Some (False, M)
     else
       let r' = round_to_4k r in
       case range_regions T M r' of
         _ # _ \<Rightarrow> Some (False, M)
       | [] \<Rightarrow> Some (True, M\<lparr>regions := tree_insert T (start r') (range_end r') s (regions M)\<rparr>))"

definition find_overlapping_region :: "'t tree \<Rightarrow> 't memory_map \<Rightarrow> Range \<Rightarrow> MemRegion option" where
  "find_overlapping_region T M needle =
    (case range_regions T M needle of
       [] \<Rightarrow> None
     | i # _ \<Rightarrow> Some (mem_region i))"

definition find_region_exact :: "'t tree \<Rightarrow> 't memory_map \<Rightarrow> Range \<Rightarrow> MemRegion option" where
  "find_region_exact T M needle =
    do { r \<leftarrow> find_overlapping_region T M needle;
         if region_range r = needle then Some r else None }"

definition find_region_containing_addr :: "'t tree \<Rightarrow> 't memory_map \<Rightarrow> nat \<Rightarrow> MemRegion option" where
  "find_region_containing_addr T M a = find_overlapping_region T M \<lparr> start = a, rlen = 1 \<rparr>"

definition remove_region ::
  "'t tree \<Rightarrow> Range \<Rightarrow> 't memory_map \<Rightarrow> (MemRegion option \<times> 't memory_map) panics" where
  "remove_region T needle M =
    (case find_region_exact T M needle of
       None \<Rightarrow> Some (None, M)
     | Some r \<Rightarrow>
         (case tree_remove T (start needle) (regions M) of
            None \<Rightarrow> None
          | Some (_, t) \<Rightarrow> Some (Some r, M\<lparr>regions := t\<rparr>)))"

text \<open>\<open>Iterator::all\<close> with a closure that carries state \<open>c\<close>: it stops at the first \<open>false\<close>.\<close>
fun iter_all :: "('c \<Rightarrow> 'a \<Rightarrow> bool \<times> 'c) \<Rightarrow> 'c \<Rightarrow> 'a list \<Rightarrow> bool \<times> 'c" where
  "iter_all f c [] = (True, c)"
| "iter_all f c (x # xs) = (case f c x of (True, c') \<Rightarrow> iter_all f c' xs | (False, c') \<Rightarrow> (False, c'))"

definition all_overlapping_regions ::
  "'t tree \<Rightarrow> 't memory_map \<Rightarrow> Range \<Rightarrow> ('c \<Rightarrow> MemRegion \<Rightarrow> bool \<times> 'c) \<Rightarrow> 'c \<Rightarrow> bool \<times> 'c" where
  "all_overlapping_regions T M needle f c = iter_all f c (map mem_region (range_regions T M needle))"

definition contiguous_step :: "nat option \<Rightarrow> MemRegion \<Rightarrow> bool \<times> nat option" where
  "contiguous_step last_end region =
    (case last_end of
       Some e \<Rightarrow>
         if start (region_range region) \<noteq> e then (False, last_end)
         else (True, Some (range_end (region_range region)))
     | None \<Rightarrow> (True, Some (range_end (region_range region))))"

definition contains_holes :: "'t tree \<Rightarrow> 't memory_map \<Rightarrow> Range \<Rightarrow> bool" where
  "contains_holes T M needle =
    (if find_region_containing_addr T M (start needle) = None then True
     else
       case all_overlapping_regions T M needle contiguous_step None of
         (False, _) \<Rightarrow> True
       | (True, Some last_end) \<Rightarrow> last_end < range_end needle
       | (True, None) \<Rightarrow> True)"

text \<open>The three loops of \<open>split_out_region\<close>: remove what overlaps, put the remainders back, collect the clipped parts.\<close>
fun remove_all :: "'t tree \<Rightarrow> State ivl list \<Rightarrow> 't \<Rightarrow> 't panics" where
  "remove_all T [] t = Some t"
| "remove_all T ((lo, hi, s) # xs) t =
    (case tree_remove T lo t of None \<Rightarrow> None | Some (_, t') \<Rightarrow> remove_all T xs t')"

fun insert_opt :: "'t tree \<Rightarrow> Range option \<Rightarrow> State \<Rightarrow> 't \<Rightarrow> 't" where
  "insert_opt T None s t = t"
| "insert_opt T (Some r) s t = tree_insert T (start r) (range_end r) s t"

fun insert_remainders :: "'t tree \<Rightarrow> Range \<Rightarrow> State ivl list \<Rightarrow> 't \<Rightarrow> 't panics" where
  "insert_remainders T sub [] t = Some t"
| "insert_remainders T sub ((lo, hi, s) # xs) t =
    do { r \<leftarrow> from_bounds lo hi;
         (before, after) \<leftarrow> subtract r sub;
         insert_remainders T sub xs (insert_opt T after s (insert_opt T before s t)) }"

fun clip_regions :: "Range \<Rightarrow> State ivl list \<Rightarrow> MemRegion list panics" where
  "clip_regions sub [] = Some []"
| "clip_regions sub ((lo, hi, s) # xs) =
    (let st = max lo (start sub); e = min hi (range_end sub) in
     if st \<noteq> e then
       do { r \<leftarrow> from_bounds st e;
            rs \<leftarrow> clip_regions sub xs;
            Some (\<lparr> region_range = r, region_state = s \<rparr> # rs) }
     else clip_regions sub xs)"

definition split_out_region ::
  "'t tree \<Rightarrow> Range \<Rightarrow> 't memory_map \<Rightarrow> (MemRegion list \<times> 't memory_map) panics" where
  "split_out_region T subrange M =
    (let sub = round_to_4k subrange;
         overlapped = range_regions T M sub
     in do { t1 \<leftarrow> remove_all T overlapped (regions M);
             t2 \<leftarrow> insert_remainders T sub overlapped t1;
             rs \<leftarrow> clip_regions sub overlapped;
             Some (rs, M\<lparr>regions := t2\<rparr>) })"

section \<open>The C interface of the map\<close>

definition memory_map_all_overlapping_regions_have_pkey ::
  "'t tree \<Rightarrow> 't memory_map \<Rightarrow> Range \<Rightarrow> u8 \<Rightarrow> bool" where
  "memory_map_all_overlapping_regions_have_pkey T M needle pkey =
    fst (all_overlapping_regions T M needle
      (\<lambda>u region. (pkey = owner_pkey (region_state region), u)) ())"

definition memory_map_all_overlapping_regions_pkey_mprotected ::
  "'t tree \<Rightarrow> 't memory_map \<Rightarrow> Range \<Rightarrow> bool \<Rightarrow> bool" where
  "memory_map_all_overlapping_regions_pkey_mprotected T M needle b =
    fst (all_overlapping_regions T M needle
      (\<lambda>u region. (b = pkey_mprotected (region_state region), u)) ())"

definition memory_map_all_overlapping_regions_mprotected ::
  "'t tree \<Rightarrow> 't memory_map \<Rightarrow> Range \<Rightarrow> bool \<Rightarrow> bool" where
  "memory_map_all_overlapping_regions_mprotected T M needle b =
    fst (all_overlapping_regions T M needle
      (\<lambda>u region. (b = mprotected (region_state region), u)) ())"

text \<open>The closure of the two getters: remember the first value seen, then compare.\<close>
definition same_step :: "(State \<Rightarrow> 'x) \<Rightarrow> 'x option \<Rightarrow> MemRegion \<Rightarrow> bool \<times> 'x option" where
  "same_step f seen region =
    (case seen of
       None \<Rightarrow> (True, Some (f (region_state region)))
     | Some x \<Rightarrow> (x = f (region_state region), seen))"

definition PROT_INDETERMINATE :: u32 where
  "PROT_INDETERMINATE = 0xFFFFFFFF"

definition memory_map_region_get_prot :: "'t tree \<Rightarrow> 't memory_map \<Rightarrow> Range \<Rightarrow> u32 panics" where
  "memory_map_region_get_prot T M needle =
    (case all_overlapping_regions T M needle (same_step prot) None of
       (True, p) \<Rightarrow> p
     | (False, _) \<Rightarrow> Some PROT_INDETERMINATE)"

definition PKEY_MULTIPLE :: u8 where
  "PKEY_MULTIPLE = 255"

definition PKEY_NONE :: u8 where
  "PKEY_NONE = 254"

definition memory_map_region_get_owner_pkey :: "'t tree \<Rightarrow> 't memory_map \<Rightarrow> Range \<Rightarrow> u8" where
  "memory_map_region_get_owner_pkey T M needle =
    (case all_overlapping_regions T M needle (same_step owner_pkey) None of
       (True, Some p) \<Rightarrow> p
     | (True, None) \<Rightarrow> PKEY_NONE
     | (False, _) \<Rightarrow> PKEY_MULTIPLE)"

definition memory_map_unmap_region :: "'t tree \<Rightarrow> Range \<Rightarrow> 't memory_map \<Rightarrow> 't memory_map panics" where
  "memory_map_unmap_region T needle M = map_option snd (split_out_region T needle M)"

definition memory_map_add_region ::
  "'t tree \<Rightarrow> Range \<Rightarrow> u8 \<Rightarrow> u32 \<Rightarrow> 't memory_map \<Rightarrow> (bool \<times> 't memory_map) panics" where
  "memory_map_add_region T r pkey p M =
    add_region T r \<lparr> owner_pkey = pkey, pkey_mprotected = False, mprotected = False, prot = p \<rparr> M"

text \<open>\<open>for mut region in split { ...; assert!(map.add_region(..)) }\<close>\<close>
fun add_back :: "'t tree \<Rightarrow> (State \<Rightarrow> State) \<Rightarrow> MemRegion list \<Rightarrow> 't memory_map \<Rightarrow> 't memory_map panics" where
  "add_back T f [] M = Some M"
| "add_back T f (r # rs) M =
    do { (ok, M') \<leftarrow> add_region T (region_range r) (f (region_state r)) M;
         if ok then add_back T f rs M' else None }"

definition pkey_mprotect_allowed :: "bool \<Rightarrow> u8 \<Rightarrow> MemRegion \<Rightarrow> bool" where
  "pkey_mprotect_allowed init pkey region =
    (if owner_pkey (region_state region) \<noteq> pkey \<and> owner_pkey (region_state region) \<noteq> 0 then \<not> init
     else if pkey_mprotected (region_state region) then \<not> init
     else True)"

definition pkey_mprotect_state :: "bool \<Rightarrow> u8 \<Rightarrow> State \<Rightarrow> State" where
  "pkey_mprotect_state init pkey s =
    (let s' = s\<lparr>pkey_mprotected := True\<rparr> in
     if owner_pkey s' = 0 \<or> \<not> init then s'\<lparr>owner_pkey := pkey\<rparr> else s')"

definition memory_map_pkey_mprotect_region ::
  "'t tree \<Rightarrow> Range \<Rightarrow> u8 \<Rightarrow> 't memory_map \<Rightarrow> (bool \<times> 't memory_map) panics" where
  "memory_map_pkey_mprotect_region T r pkey M =
    (if contains_holes T M r then Some (False, M)
     else if \<not> fst (all_overlapping_regions T M r
                      (\<lambda>u region. (pkey_mprotect_allowed (init_finished M) pkey region, u)) ())
     then Some (False, M)
     else do { (rs, M1) \<leftarrow> split_out_region T r M;
               M2 \<leftarrow> add_back T (pkey_mprotect_state (init_finished M) pkey) rs M1;
               Some (True, M2) })"

definition mprotect_state :: "u32 \<Rightarrow> State \<Rightarrow> State" where
  "mprotect_state p s =
    (if \<not> mprotected s then s\<lparr>mprotected := True, prot := p\<rparr>
     else s\<lparr>mprotected := True, prot := p\<rparr>)"

definition memory_map_mprotect_region ::
  "'t tree \<Rightarrow> Range \<Rightarrow> u32 \<Rightarrow> 't memory_map \<Rightarrow> (bool \<times> 't memory_map) panics" where
  "memory_map_mprotect_region T r p M =
    (if contains_holes T M r then Some (False, M)
     else do { (rs, M1) \<leftarrow> split_out_region T r M;
               M2 \<leftarrow> add_back T (mprotect_state p) rs M1;
               Some (True, M2) })"

definition memory_map_clear :: "'t tree \<Rightarrow> 't memory_map \<Rightarrow> 't memory_map" where
  "memory_map_clear T M = M\<lparr>regions := tree_default T, init_finished := False\<rparr>"

definition memory_map_clone :: "'t memory_map \<Rightarrow> 't memory_map" where
  "memory_map_clone M = M"

end
