(* ===== verification/Memory_Map_Laws.thy ===== *)
theory Memory_Map_Laws
  imports Memory_Map
begin

text \<open>
  The effect of every operation of the memory map on its pointwise view,
  address to region state, derived from the laws of the interval tree: the
  operations never panic on a well-formed map and a range that fits the
  address space, they keep the map well formed, and they change the view of
  exactly the pages of the range.
\<close>

section \<open>Range arithmetic\<close>

text \<open>The range is nonempty and rounding it up to a page does not wrap around.\<close>
definition range_fits :: "Range \<Rightarrow> bool" where
  "range_fits r = (0 < rlen r \<and> start r + rlen r + 0xFFF < usize_bound)"

definition rounded_lo :: "Range \<Rightarrow> nat" where
  "rounded_lo r = page_down (start r)"

definition rounded_hi :: "Range \<Rightarrow> nat" where
  "rounded_hi r = page_down (start r + rlen r + 0xFFF)"

lemma range_end_fits [simp]: "range_fits r \<Longrightarrow> range_end r = start r + rlen r"
  by (simp add: range_fits_def range_end_def usize_simps)

lemma rounded_hi_ge: "start r + rlen r \<le> rounded_hi r"
  using page_down_gt [of "start r + rlen r + 0xFFF"] by (simp add: rounded_hi_def PAGE_SIZE_def)

lemma rounded_lo_le: "rounded_lo r \<le> start r"
  by (simp add: rounded_lo_def)

lemma rounded_lo_less_hi: "range_fits r \<Longrightarrow> rounded_lo r < rounded_hi r"
  using rounded_hi_ge [of r] rounded_lo_le [of r] by (simp add: range_fits_def)

lemma rounded_hi_le: "rounded_hi r \<le> start r + rlen r + 0xFFF"
  by (simp add: rounded_hi_def)

lemma rounded_aligned [simp]: "page_aligned (rounded_lo r)" "page_aligned (rounded_hi r)"
  by (simp_all add: rounded_lo_def rounded_hi_def)

lemma aligned_top:
  assumes "page_aligned x" "x < usize_bound"
  shows "x + 0xFFF < usize_bound"
proof -
  obtain k where x: "x = 4096 * k" using assms(1) by (auto simp: page_aligned_def PAGE_SIZE_def)
  obtain N where N: "usize_bound = 4096 * N"
    by (rule that [of "2 ^ 52"]) (simp add: usize_bound_def)
  then have "k < N" using assms(2) x by simp
  then have "k + 1 \<le> N" by simp
  then show ?thesis using x N by linarith
qed

lemma rounded_hi_fits: "range_fits r \<Longrightarrow> rounded_hi r + 0xFFF < usize_bound"
  using rounded_hi_le [of r] by (intro aligned_top) (auto simp: range_fits_def)

lemma round_to_4k_fits:
  assumes "range_fits r"
  shows "start (round_to_4k r) = rounded_lo r" "range_end (round_to_4k r) = rounded_hi r"
proof -
  have e: "usize_add (start r) (rlen r) = start r + rlen r"
    "usize_add (start r + rlen r) 0xFFF = start r + rlen r + 0xFFF"
    using assms by (simp_all add: range_fits_def usize_simps)
  show "start (round_to_4k r) = rounded_lo r"
    by (simp add: round_to_4k_def Let_def rounded_lo_def)
  have "rlen (round_to_4k r) = rounded_hi r - rounded_lo r"
    using rounded_lo_less_hi [OF assms] rounded_hi_fits [OF assms] e
    by (simp add: round_to_4k_def Let_def rounded_lo_def rounded_hi_def usize_simps)
  then show "range_end (round_to_4k r) = rounded_hi r"
    using rounded_lo_less_hi [OF assms] rounded_hi_fits [OF assms]
    by (simp add: range_end_def round_to_4k_def Let_def rounded_lo_def usize_simps)
qed

text \<open>Page-aligned intervals overlap a range exactly when they overlap the rounded range.\<close>
lemma overlaps_rounded_iff:
  assumes "range_fits r" "page_aligned lo" "page_aligned hi" "lo < hi"
  shows "ivl_overlaps (rounded_lo r) (rounded_hi r) (lo, hi, v) \<longleftrightarrow>
         ivl_overlaps (start r) (start r + rlen r) (lo, hi, v)"
proof -
  have "hi \<le> rounded_lo r \<longleftrightarrow> hi \<le> start r"
    by (simp add: rounded_lo_def aligned_le_page_down assms)
  moreover have "lo < rounded_hi r \<longleftrightarrow> lo < start r + rlen r"
  proof
    assume l: "lo < rounded_hi r"
    have "lo + 4096 \<le> rounded_hi r"
      using aligned_less_step [OF assms(2) rounded_aligned(2) l] by (simp add: PAGE_SIZE_def)
    then show "lo < start r + rlen r" using rounded_hi_le [of r] by simp
  qed (use rounded_hi_ge [of r] in linarith)
  ultimately show ?thesis by auto
qed

lemma from_bounds_end:
  assumes "s < e" "e < usize_bound"
  shows "\<exists>r. from_bounds s e = Some r \<and> start r = s \<and> rlen r = e - s \<and> range_end r = e"
  using assms by (simp add: from_bounds_def range_end_def usize_simps)

section \<open>The view of a map\<close>

text \<open>Regions are page aligned and leave room for rounding up at the top of the address space.\<close>
fun ivl_aligned :: "'v ivl \<Rightarrow> bool" where
  "ivl_aligned (lo, hi, v) = (page_aligned lo \<and> page_aligned hi \<and> hi + 0xFFF < usize_bound)"

definition mm_inv :: "('t \<Rightarrow> bool) \<Rightarrow> ('t \<Rightarrow> State ivl list) \<Rightarrow> 't memory_map \<Rightarrow> bool" where
  "mm_inv tinv ivls M = (tinv (regions M) \<and> (\<forall>i \<in> set (ivls (regions M)). ivl_aligned i))"

definition mm_at :: "('t \<Rightarrow> State ivl list) \<Rightarrow> 't memory_map \<Rightarrow> nat \<Rightarrow> State option" where
  "mm_at ivls M a = ivls_at (ivls (regions M)) a"

text \<open>The regions that overlap the rounded range.\<close>
definition overlapped :: "('t \<Rightarrow> State ivl list) \<Rightarrow> 't memory_map \<Rightarrow> Range \<Rightarrow> State ivl list" where
  "overlapped ivls M r = filter (ivl_overlaps (rounded_lo r) (rounded_hi r)) (ivls (regions M))"

text \<open>The parts of an interval outside and inside \<open>[lo, hi)\<close>.\<close>
fun remainders :: "nat \<Rightarrow> nat \<Rightarrow> 'v ivl \<Rightarrow> 'v ivl set" where
  "remainders lo hi (l, h, v) =
    (if l < lo then {(l, lo, v)} else {}) \<union> (if hi < h then {(hi, h, v)} else {})"

fun clip_ivl :: "nat \<Rightarrow> nat \<Rightarrow> 'v ivl \<Rightarrow> 'v ivl" where
  "clip_ivl lo hi (l, h, v) = (max l lo, min h hi, v)"

fun ivl_upd :: "('v \<Rightarrow> 'v) \<Rightarrow> 'v ivl \<Rightarrow> 'v ivl" where
  "ivl_upd f (l, h, v) = (l, h, f v)"

lemma ivls_at_filter:
  assumes "\<And>i. ivl_contains a i \<Longrightarrow> P i"
  shows "ivls_at (filter P xs) a = ivls_at xs a"
  using assms by (induction xs a rule: ivls_at.induct) auto

lemma option_ext: "(\<And>v. x = Some v \<longleftrightarrow> y = Some v) \<Longrightarrow> x = y"
  by (cases x; cases y) auto

lemma all_some_iff:
  "(\<forall>a. l \<le> a \<and> a < h \<longrightarrow> (\<exists>s. m a = Some s \<and> P s)) \<longleftrightarrow>
    \<not> (\<exists>a. l \<le> a \<and> a < h \<and> m a = None) \<and> (\<forall>a s. l \<le> a \<and> a < h \<and> m a = Some s \<longrightarrow> P s)"
  for m :: "nat \<Rightarrow> 'v option"
proof -
  have "(\<exists>s. m a = Some s \<and> P s) \<longleftrightarrow> m a \<noteq> None \<and> (\<forall>s. m a = Some s \<longrightarrow> P s)" for a
    by (cases "m a") auto
  then show ?thesis by blast
qed

lemma ivl_overlaps_mono: "l \<le> l' \<Longrightarrow> h' \<le> h \<Longrightarrow> ivl_overlaps l' h' i \<Longrightarrow> ivl_overlaps l h i"
  by (cases i) auto

lemma iter_all_stateless:
  "fst (iter_all (\<lambda>u x. (P x, u)) () xs) \<longleftrightarrow> (\<forall>x \<in> set xs. P x)"
  by (induction xs) (auto split: bool.splits)

section \<open>The effect of the operations, from the laws of the tree\<close>

lemma ivls_ok_distinct: "ivls_ok xs \<Longrightarrow> distinct xs"
  by (induction xs rule: ivls_ok.induct) fastforce+

text \<open>Membership after cutting \<open>[lo, hi)\<close> out of a set of intervals.\<close>
lemma split_out_member:
  assumes "lo < hi" "set ys = {i \<in> S. ivl_overlaps lo hi i}"
  shows "(\<exists>l h. (l, h, v) \<in> (S - set ys) \<union> (\<Union>i \<in> set ys. remainders lo hi i) \<and> l \<le> a \<and> a < h)
    \<longleftrightarrow> \<not> (lo \<le> a \<and> a < hi) \<and> (\<exists>l h. (l, h, v) \<in> S \<and> l \<le> a \<and> a < h)" (is "?L \<longleftrightarrow> ?R")
proof
  assume ?L
  then obtain l h where lh: "l \<le> a" "a < h"
    and "(l, h, v) \<in> S - set ys \<or> (\<exists>i \<in> set ys. (l, h, v) \<in> remainders lo hi i)" by blast
  then show ?R
  proof (elim disjE bexE)
    assume "(l, h, v) \<in> S - set ys"
    then show ?R using assms(2) lh by auto
  next
    fix i assume i: "i \<in> set ys" "(l, h, v) \<in> remainders lo hi i"
    obtain l' h' v' where i': "i = (l', h', v')" by (cases i)
    have "(l', h', v') \<in> S" "l' < hi" "lo < h'" using i(1) i' assms(2) by auto
    then show ?R using i(2) i' lh assms(1) by (fastforce split: if_splits)
  qed
next
  assume R: ?R
  then obtain l h where lh: "(l, h, v) \<in> S" "l \<le> a" "a < h" by blast
  show ?L
  proof (cases "(l, h, v) \<in> set ys")
    case False
    then show ?thesis using lh by blast
  next
    case True
    have "a < lo \<or> hi \<le> a" using R by auto
    then have "(l, lo, v) \<in> remainders lo hi (l, h, v) \<and> a < lo \<or>
        (hi, h, v) \<in> remainders lo hi (l, h, v) \<and> hi \<le> a"
      using lh by auto
    then show ?thesis using True lh by blast
  qed
qed

lemma clip_upd_member:
  assumes at: "\<And>w. m = Some w \<longleftrightarrow> (\<exists>l h. (l, h, w) \<in> S \<and> l \<le> a \<and> a < h)"
    and ys: "set ys = {i \<in> S. ivl_overlaps lo hi i}"
  shows "(\<exists>l h. (l, h, v) \<in> ivl_upd f ` set (map (clip_ivl lo hi) ys) \<and> l \<le> a \<and> a < h)
    \<longleftrightarrow> lo \<le> a \<and> a < hi \<and> map_option f m = Some v" (is "?L \<longleftrightarrow> ?R")
proof
  assume ?L
  then obtain l h w where "(l, h, w) \<in> S" "v = f w" "max l lo \<le> a" "a < min h hi"
    using ys by (auto simp: image_iff)
  then show ?R using at by auto
next
  assume R: ?R
  then obtain w l h where lh: "(l, h, w) \<in> S" "l \<le> a" "a < h" "v = f w" using at by auto
  then have "(l, h, w) \<in> set ys" using R ys by simp
  then have "ivl_upd f (clip_ivl lo hi (l, h, w)) \<in> ivl_upd f ` set (map (clip_ivl lo hi) ys)"
    unfolding set_map by (intro imageI)
  then have "(max l lo, min h hi, v) \<in> ivl_upd f ` set (map (clip_ivl lo hi) ys)" using lh by simp
  then show ?L using R lh by (metis max.bounded_iff min_less_iff_conj)
qed

locale region_tree = interval_tree T tinv ivls
  for T :: "'t tree" and tinv :: "'t \<Rightarrow> bool" and ivls :: "'t \<Rightarrow> State ivl list"
begin

lemma remove_all_spec:
  assumes "tinv t" "set ys \<subseteq> set (ivls t)" "distinct ys"
  shows "\<exists>t'. remove_all T ys t = Some t' \<and> tinv t' \<and> ivls t' = filter (\<lambda>i. i \<notin> set ys) (ivls t)"
  using assms
proof (induction ys arbitrary: t)
  case (Cons y ys)
  obtain lo hi s where y: "y = (lo, hi, s)" by (cases y)
  have mem: "(lo, hi, s) \<in> set (ivls t)" using Cons.prems y by simp
  obtain t1 where t1: "tree_remove T lo t = Some (s, t1)" "tinv t1"
    "ivls t1 = filter (\<lambda>i. fst i \<noteq> lo) (ivls t)"
    using remove_some [OF Cons.prems(1) mem] by blast
  have eq: "ivls t1 = filter (\<lambda>i. i \<noteq> y) (ivls t)"
    unfolding t1(3)
  proof (rule filter_cong [OF refl])
    fix i assume "i \<in> set (ivls t)"
    then show "(fst i \<noteq> lo) = (i \<noteq> y)"
      using ivls_ok_start_unique [OF ok [OF Cons.prems(1)] mem, of i] y by auto
  qed
  have "set ys \<subseteq> set (ivls t1)" "distinct ys" using Cons.prems eq by auto
  from Cons.IH [OF t1(2) this] obtain t2 where t2: "remove_all T ys t1 = Some t2" "tinv t2"
    "ivls t2 = filter (\<lambda>i. i \<notin> set ys) (ivls t1)" by blast
  have "ivls t2 = filter (\<lambda>i. i \<notin> set (y # ys)) (ivls t)"
    unfolding t2(3) eq by (auto intro: filter_cong)
  then show ?case using t1 t2 y by simp
qed simp

lemma tree_insert_spec:
  assumes "tinv t" "lo < hi" "\<forall>i \<in> set (ivls t). \<not> ivl_overlaps lo hi i"
  shows "tinv (tree_insert T lo hi v t)"
    "set (ivls (tree_insert T lo hi v t)) = insert (lo, hi, v) (set (ivls t))"
  using insert_law [OF assms] by simp_all

lemma subtract_spec:
  assumes "lo < hi" "hi < usize_bound" "l < h" "h < usize_bound" "ivl_overlaps lo hi (l, h, v)"
    and "start sub = lo" "range_end sub = hi" "start r = l" "range_end r = h"
  shows "subtract r sub = Some (from_bounds l (max l lo), from_bounds (min h hi) h)"
proof -
  have "max l lo < min h hi" "min h hi < usize_bound" using assms(1-5) by auto
  then obtain ov where "from_bounds (max l lo) (min h hi) = Some ov" "start ov = max l lo"
    "range_end ov = min h hi"
    using from_bounds_end by blast
  then show ?thesis using assms(6-) by (simp add: subtract_def overlap_def)
qed

lemma insert_opt_spec:
  assumes "tinv t" "h < usize_bound" "l < h \<longrightarrow> (\<forall>i \<in> set (ivls t). \<not> ivl_overlaps l h i)"
  shows "tinv (insert_opt T (from_bounds l h) v t) \<and>
    set (ivls (insert_opt T (from_bounds l h) v t)) =
      (if l < h then insert (l, h, v) (set (ivls t)) else set (ivls t))"
proof (cases "l < h")
  case True
  then obtain r where "from_bounds l h = Some r" "start r = l" "range_end r = h"
    using from_bounds_end assms(2) by blast
  then show ?thesis using True assms tree_insert_spec [OF assms(1) True] by simp
next
  case False
  then show ?thesis using assms by (simp add: from_bounds_def)
qed

lemma insert_remainders_spec:
  assumes "tinv t" "ivls_ok ys" "lo < hi" "hi < usize_bound" "start sub = lo" "range_end sub = hi"
    and "\<forall>i \<in> set ys. ivl_overlaps lo hi i \<and> fst (snd i) < usize_bound"
    and "\<forall>i \<in> set ys. \<forall>j \<in> set (ivls t). \<not> ivl_overlaps (fst i) (fst (snd i)) j"
  shows "\<exists>t'. insert_remainders T sub ys t = Some t' \<and> tinv t' \<and>
    set (ivls t') = set (ivls t) \<union> (\<Union>i \<in> set ys. remainders lo hi i)"
  using assms
proof (induction ys arbitrary: t rule: ivls_ok.induct)
  case (2 l h v ys)
  have lh: "l < h" "h < usize_bound" "l < hi" "lo < h" using "2.prems" by auto
  obtain r where r: "from_bounds l h = Some r" "start r = l" "range_end r = h"
    using from_bounds_end lh by blast
  have sub: "subtract r sub = Some (from_bounds l (max l lo), from_bounds (min h hi) h)"
    using subtract_spec [of lo hi l h v sub r] lh r "2.prems" by auto
  let ?t1 = "insert_opt T (from_bounds l (max l lo)) v t"
  let ?t2 = "insert_opt T (from_bounds (min h hi) h) v ?t1"
  have free: "\<forall>j \<in> set (ivls t). \<not> ivl_overlaps l h j" using "2.prems"(8) by auto
  have t1: "tinv ?t1" "set (ivls ?t1) = (if l < lo then insert (l, lo, v) (set (ivls t)) else set (ivls t))"
    using insert_opt_spec [of t "max l lo" l v] "2.prems"(1,4) lh free
    by (force simp: max_def)+
  have "\<not> ivl_overlaps (min h hi) h j" if "j \<in> set (ivls t)" for j
    using free that ivl_overlaps_mono [of l "min h hi" h h j] lh by auto
  moreover have "\<not> ivl_overlaps (min h hi) h (l, lo, v)" using lh "2.prems"(3) by simp
  ultimately have "\<forall>j \<in> set (ivls ?t1). \<not> ivl_overlaps (min h hi) h j"
    using t1(2) by (simp split: if_splits)
  then have t2: "tinv ?t2" "set (ivls ?t2) = (if hi < h then insert (hi, h, v) (set (ivls ?t1)) else set (ivls ?t1))"
    using insert_opt_spec [of ?t1 h "min h hi" v] t1(1) lh by (force simp: min_def)+
  have all2: "set (ivls ?t2) = set (ivls t) \<union> remainders lo hi (l, h, v)"
    unfolding t2(2) t1(2) by auto
  have "\<forall>i \<in> set ys. \<forall>j \<in> set (ivls ?t2). \<not> ivl_overlaps (fst i) (fst (snd i)) j"
    unfolding all2 using "2.prems"(2,8) "2.prems"(3) lh by (fastforce split: if_splits)
  with "2.IH" [OF t2(1)] "2.prems" obtain t' where "insert_remainders T sub ys ?t2 = Some t'" "tinv t'"
    "set (ivls t') = set (ivls ?t2) \<union> (\<Union>i \<in> set ys. remainders lo hi i)" by auto
  then show ?case using all2 r(1) sub by auto
qed simp

lemma clip_regions_spec:
  assumes "start sub = lo" "range_end sub = hi" "lo < hi" "hi < usize_bound"
    and "\<forall>i \<in> set ys. ivl_overlaps lo hi i \<and> fst i < fst (snd i) \<and> fst (snd i) < usize_bound"
  shows "clip_regions sub ys = Some (map (\<lambda>i. mem_region (clip_ivl lo hi i)) ys)"
  using assms(5)
proof (induction ys)
  case (Cons y ys)
  obtain l h v where y: "y = (l, h, v)" by (cases y)
  have "max l lo < min h hi" using Cons.prems assms(3) y by auto
  then have "from_bounds (max l lo) (min h hi) =
      Some \<lparr> start = max l lo, rlen = usize_sub (min h hi) (max l lo) \<rparr>"
    by (simp add: from_bounds_def)
  moreover have "max l lo \<noteq> min h hi" using \<open>max l lo < min h hi\<close> by linarith
  ultimately show ?case
    using Cons assms(1,2) y by (simp add: Let_def)
qed simp

lemma overlapped_facts:
  assumes "mm_inv tinv ivls M"
  shows "ivls_ok (overlapped ivls M r)"
    and "\<forall>i \<in> set (overlapped ivls M r). ivl_overlaps (rounded_lo r) (rounded_hi r) i \<and>
           fst i < fst (snd i) \<and> fst (snd i) < usize_bound \<and> ivl_aligned i"
proof -
  have o: "ivls_ok (ivls (regions M))" using assms ok by (simp add: mm_inv_def)
  then show "ivls_ok (overlapped ivls M r)" by (simp add: overlapped_def ivls_ok_filter)
  show "\<forall>i \<in> set (overlapped ivls M r). ivl_overlaps (rounded_lo r) (rounded_hi r) i \<and>
           fst i < fst (snd i) \<and> fst (snd i) < usize_bound \<and> ivl_aligned i"
    using assms ivls_ok_nonempty [OF o] by (fastforce simp: overlapped_def mm_inv_def)
qed

lemma range_regions_rounded:
  assumes "mm_inv tinv ivls M" "range_fits r"
  shows "range_regions T M (round_to_4k r) = overlapped ivls M r"
  using assms rounded_lo_less_hi [OF assms(2)]
  by (simp add: range_regions_def round_to_4k_fits overlapped_def mm_inv_def range_law)

lemma overlapped_unrounded:
  assumes "mm_inv tinv ivls M" "range_fits r"
  shows "overlapped ivls M r = filter (ivl_overlaps (start r) (start r + rlen r)) (ivls (regions M))"
  unfolding overlapped_def
proof (rule filter_cong [OF refl])
  fix i assume i: "i \<in> set (ivls (regions M))"
  obtain l h v where "i = (l, h, v)" by (cases i)
  moreover have "ivls_ok (ivls (regions M))" using assms ok by (simp add: mm_inv_def)
  ultimately show "ivl_overlaps (rounded_lo r) (rounded_hi r) i =
      ivl_overlaps (start r) (start r + rlen r) i"
    using i assms ivls_ok_nonempty overlaps_rounded_iff [OF assms(2), of l h v]
    by (fastforce simp: mm_inv_def)
qed

lemma range_regions_unrounded:
  assumes "mm_inv tinv ivls M" "range_fits r"
  shows "range_regions T M r = overlapped ivls M r"
  unfolding overlapped_unrounded [OF assms]
  using assms by (simp add: range_regions_def range_law mm_inv_def range_fits_def del: ivl_overlaps.simps)

lemma split_out_region_spec:
  assumes "mm_inv tinv ivls M" "range_fits r"
  shows "\<exists>M'. split_out_region T r M =
      Some (map (\<lambda>i. mem_region (clip_ivl (rounded_lo r) (rounded_hi r) i)) (overlapped ivls M r), M') \<and>
    mm_inv tinv ivls M' \<and> init_finished M' = init_finished M \<and>
    set (ivls (regions M')) = (set (ivls (regions M)) - set (overlapped ivls M r)) \<union>
      (\<Union>i \<in> set (overlapped ivls M r). remainders (rounded_lo r) (rounded_hi r) i)"
proof -
  let ?lo = "rounded_lo r" and ?hi = "rounded_hi r" and ?ys = "overlapped ivls M r"
  have inv: "tinv (regions M)" and al: "\<forall>i \<in> set (ivls (regions M)). ivl_aligned i"
    using assms(1) by (auto simp: mm_inv_def)
  note facts = overlapped_facts [OF assms(1), of r]
  have hi: "?lo < ?hi" "?hi < usize_bound"
    using rounded_lo_less_hi [OF assms(2)] rounded_hi_fits [OF assms(2)] by auto
  obtain t1 where t1: "remove_all T ?ys (regions M) = Some t1" "tinv t1"
    "ivls t1 = filter (\<lambda>i. i \<notin> set ?ys) (ivls (regions M))"
    using remove_all_spec [OF inv, of ?ys] ivls_ok_distinct [OF facts(1)]
    by (auto simp: overlapped_def)
  have "\<not> ivl_overlaps (fst i) (fst (snd i)) j" if "i \<in> set ?ys" "j \<in> set (ivls t1)" for i j
    using ivls_ok_disjoint [OF ok [OF inv], of i j] that t1(3)
    by (cases i; cases j) (auto simp: overlapped_def)
  then obtain t2 where t2: "insert_remainders T (round_to_4k r) ?ys t1 = Some t2" "tinv t2"
    "set (ivls t2) = set (ivls t1) \<union> (\<Union>i \<in> set ?ys. remainders ?lo ?hi i)"
    using insert_remainders_spec [OF t1(2) facts(1) hi round_to_4k_fits [OF assms(2)]] facts(2) by blast
  have clip: "clip_regions (round_to_4k r) ?ys = Some (map (\<lambda>i. mem_region (clip_ivl ?lo ?hi i)) ?ys)"
    using clip_regions_spec [OF round_to_4k_fits [OF assms(2)] hi] facts(2) by blast
  have al2: "ivl_aligned j" if "i \<in> set ?ys" "j \<in> remainders ?lo ?hi i" for i j
  proof -
    obtain l h v where i: "i = (l, h, v)" by (cases i)
    have "ivl_aligned (l, h, v)" using facts(2) that(1) i by auto
    then show ?thesis using that(2) i rounded_hi_fits [OF assms(2)] hi by (auto split: if_splits)
  qed
  have "\<forall>i \<in> set (ivls t2). ivl_aligned i"
    unfolding t2(3) t1(3) using al al2 by auto
  then have "mm_inv tinv ivls (M\<lparr>regions := t2\<rparr>)" using t2(2) by (simp add: mm_inv_def)
  moreover have "set (ivls t2) = (set (ivls (regions M)) - set ?ys) \<union> (\<Union>i \<in> set ?ys. remainders ?lo ?hi i)"
    unfolding t2(3) t1(3) by auto
  ultimately show ?thesis
    by (simp add: split_out_region_def range_regions_rounded [OF assms] t1(1) t2(1) clip Let_def)
qed

lemma mm_at_Some_iff:
  assumes "mm_inv tinv ivls M"
  shows "mm_at ivls M a = Some v \<longleftrightarrow> (\<exists>l h. (l, h, v) \<in> set (ivls (regions M)) \<and> l \<le> a \<and> a < h)"
  using assms ok [of "regions M"] ivls_at_Some_iff [of "ivls (regions M)" a v]
  by (simp add: mm_inv_def mm_at_def)

text \<open>The values of the overlapping regions are those the view has on the pages of the range.\<close>
lemma overlapped_values:
  assumes "mm_inv tinv ivls M" "range_fits r"
  shows "(\<exists>i \<in> set (overlapped ivls M r). v = snd (snd i)) \<longleftrightarrow>
    (\<exists>a. rounded_lo r \<le> a \<and> a < rounded_hi r \<and> mm_at ivls M a = Some v)" (is "?L \<longleftrightarrow> ?R")
proof
  assume ?L
  then obtain l h where i: "(l, h, v) \<in> set (overlapped ivls M r)" by auto
  have "(l, h, v) \<in> set (ivls (regions M))" "l < rounded_hi r" "rounded_lo r < h" "l < h"
    using i bspec [OF overlapped_facts(2) [OF assms(1)] i] by (simp_all add: overlapped_def)
  then show ?R
    using mm_at_Some_iff [OF assms(1), of "max l (rounded_lo r)" v] rounded_lo_less_hi [OF assms(2)]
    by (metis max.cobounded1 max.cobounded2 max_less_iff_conj)
next
  assume ?R
  then obtain a l h where "rounded_lo r \<le> a" "a < rounded_hi r"
    "(l, h, v) \<in> set (ivls (regions M))" "l \<le> a" "a < h"
    using mm_at_Some_iff [OF assms(1)] by blast
  then have "(l, h, v) \<in> set (overlapped ivls M r)" by (simp add: overlapped_def)
  then show ?L by force
qed

text \<open>No region overlaps the rounded range exactly when no address of it is mapped.\<close>
lemma overlapped_empty_iff:
  assumes "mm_inv tinv ivls M" "range_fits r"
  shows "overlapped ivls M r = [] \<longleftrightarrow> (\<forall>a. rounded_lo r \<le> a \<and> a < rounded_hi r \<longrightarrow> mm_at ivls M a = None)"
proof -
  have "overlapped ivls M r = [] \<longleftrightarrow> \<not> (\<exists>v. \<exists>i \<in> set (overlapped ivls M r). v = snd (snd i))"
    by (cases "overlapped ivls M r") auto
  then show ?thesis using overlapped_values [OF assms] by (metis not_Some_eq)
qed

lemma add_region_spec:
  assumes "mm_inv tinv ivls M" "range_fits r"
  shows "\<exists>M'. add_region T r s M = Some (overlapped ivls M r = [], M') \<and> mm_inv tinv ivls M' \<and>
    init_finished M' = init_finished M \<and>
    (if overlapped ivls M r = []
     then set (ivls (regions M')) = insert (rounded_lo r, rounded_hi r, s) (set (ivls (regions M)))
     else M' = M)"
proof (cases "overlapped ivls M r")
  case Nil
  let ?t = "tree_insert T (rounded_lo r) (rounded_hi r) s (regions M)"
  have "\<forall>i \<in> set (ivls (regions M)). \<not> ivl_overlaps (rounded_lo r) (rounded_hi r) i"
    using Nil by (simp add: overlapped_def filter_empty_conv)
  then have t: "tinv ?t" "set (ivls ?t) = insert (rounded_lo r, rounded_hi r, s) (set (ivls (regions M)))"
    using tree_insert_spec rounded_lo_less_hi [OF assms(2)] assms(1) by (simp_all add: mm_inv_def)
  have "mm_inv tinv ivls (M\<lparr>regions := ?t\<rparr>)"
    using assms(1) t rounded_hi_fits [OF assms(2)] by (simp add: mm_inv_def)
  moreover have "add_region T r s M = Some (True, M\<lparr>regions := ?t\<rparr>)"
    using assms(2) Nil
    by (simp add: add_region_def Let_def range_regions_rounded [OF assms] round_to_4k_fits range_fits_def)
  ultimately show ?thesis using t Nil by simp
next
  case (Cons i rest)
  then have "add_region T r s M = Some (False, M)"
    using assms(2) by (simp add: add_region_def Let_def range_regions_rounded [OF assms] range_fits_def)
  then show ?thesis using Cons assms(1) by simp
qed

text \<open>The pointwise effect of adding a region, for both outcomes.\<close>
lemma add_region_view:
  assumes "mm_inv tinv ivls M" "range_fits r"
  shows "\<exists>ok M'. add_region T r s M = Some (ok, M') \<and> mm_inv tinv ivls M' \<and>
    init_finished M' = init_finished M \<and>
    (ok \<longleftrightarrow> (\<forall>a. rounded_lo r \<le> a \<and> a < rounded_hi r \<longrightarrow> mm_at ivls M a = None)) \<and>
    (\<not> ok \<longrightarrow> M' = M) \<and>
    (ok \<longrightarrow> (\<forall>a. mm_at ivls M' a = (if rounded_lo r \<le> a \<and> a < rounded_hi r then Some s else mm_at ivls M a)))"
proof -
  obtain M' where M': "add_region T r s M = Some (overlapped ivls M r = [], M')" "mm_inv tinv ivls M'"
    "init_finished M' = init_finished M"
    "if overlapped ivls M r = []
     then set (ivls (regions M')) = insert (rounded_lo r, rounded_hi r, s) (set (ivls (regions M)))
     else M' = M"
    using add_region_spec [OF assms] by blast
  have "mm_at ivls M' a = (if rounded_lo r \<le> a \<and> a < rounded_hi r then Some s else mm_at ivls M a)"
    if e: "overlapped ivls M r = []" for a
  proof (rule option_ext)
    fix v
    have none: "mm_at ivls M a = None" if "rounded_lo r \<le> a \<and> a < rounded_hi r"
      using e that overlapped_empty_iff [OF assms] by blast
    have set': "set (ivls (regions M')) = insert (rounded_lo r, rounded_hi r, s) (set (ivls (regions M)))"
      using M'(4) e by simp
    have "mm_at ivls M' a = Some v \<longleftrightarrow>
        (rounded_lo r \<le> a \<and> a < rounded_hi r \<and> v = s) \<or> mm_at ivls M a = Some v"
      unfolding mm_at_Some_iff [OF M'(2)] mm_at_Some_iff [OF assms(1)] set' by auto
    then show "mm_at ivls M' a = Some v \<longleftrightarrow>
        (if rounded_lo r \<le> a \<and> a < rounded_hi r then Some s else mm_at ivls M a) = Some v"
      using none by auto
  qed
  then show ?thesis using M' overlapped_empty_iff [OF assms] by auto
qed

text \<open>Unmapping clears the view of the pages of the range and nothing else.\<close>
lemma unmap_region_view:
  assumes "mm_inv tinv ivls M" "range_fits r"
  shows "\<exists>M'. memory_map_unmap_region T r M = Some M' \<and> mm_inv tinv ivls M' \<and>
    init_finished M' = init_finished M \<and>
    (\<forall>a. mm_at ivls M' a = (if rounded_lo r \<le> a \<and> a < rounded_hi r then None else mm_at ivls M a))"
proof -
  let ?lo = "rounded_lo r" and ?hi = "rounded_hi r"
  obtain M' rs where M': "split_out_region T r M = Some (rs, M')" "mm_inv tinv ivls M'"
    "init_finished M' = init_finished M"
    "set (ivls (regions M')) = (set (ivls (regions M)) - set (overlapped ivls M r)) \<union>
      (\<Union>i \<in> set (overlapped ivls M r). remainders ?lo ?hi i)"
    using split_out_region_spec [OF assms] by blast
  have "mm_at ivls M' a = (if ?lo \<le> a \<and> a < ?hi then None else mm_at ivls M a)" for a
  proof (rule option_ext)
    fix v
    have "mm_at ivls M' a = Some v \<longleftrightarrow> \<not> (?lo \<le> a \<and> a < ?hi) \<and> mm_at ivls M a = Some v"
      unfolding mm_at_Some_iff [OF M'(2)] mm_at_Some_iff [OF assms(1)] M'(4)
      by (rule split_out_member) (use rounded_lo_less_hi [OF assms(2)] in \<open>simp_all add: overlapped_def\<close>)
    then show "mm_at ivls M' a = Some v \<longleftrightarrow>
        (if ?lo \<le> a \<and> a < ?hi then None else mm_at ivls M a) = Some v" by auto
  qed
  then show ?thesis using M' by (auto simp: memory_map_unmap_region_def)
qed

lemma aligned_region_round:
  assumes "ivl_aligned (l, h, v)" "l < h"
  defines "r \<equiv> region_range (mem_region (l, h, v))"
  shows "range_fits r" "rounded_lo r = l" "rounded_hi r = h"
proof -
  have h: "h + 0xFFF < usize_bound" "page_aligned l" "page_aligned h" using assms(1) by auto
  have r: "start r = l" "rlen r = h - l"
    using assms(2) h by (simp_all add: r_def usize_simps)
  show "range_fits r" using r h assms(2) by (simp add: range_fits_def)
  show "rounded_lo r = l" using r h by (simp add: rounded_lo_def)
  have "page_down (h + 0xFFF) = h"
  proof (rule antisym)
    show "h \<le> page_down (h + 0xFFF)" using aligned_le_page_down [OF h(3)] by simp
    show "page_down (h + 0xFFF) \<le> h"
    proof (rule ccontr)
      assume "\<not> page_down (h + 0xFFF) \<le> h"
      then have "h + PAGE_SIZE \<le> page_down (h + 0xFFF)"
        using aligned_less_step [OF h(3) page_down_aligned] by simp
      then show False using page_down_le [of "h + 0xFFF"] by (simp add: PAGE_SIZE_def)
    qed
  qed
  then show "rounded_hi r = h" using r assms(2) by (simp add: rounded_hi_def)
qed

lemma add_back_spec:
  assumes "mm_inv tinv ivls M" "ivls_ok ks" "\<forall>k \<in> set ks. ivl_aligned k"
    and "\<forall>k \<in> set ks. \<forall>i \<in> set (ivls (regions M)). \<not> ivl_overlaps (fst k) (fst (snd k)) i"
  shows "\<exists>M'. add_back T f (map mem_region ks) M = Some M' \<and> mm_inv tinv ivls M' \<and>
    init_finished M' = init_finished M \<and>
    set (ivls (regions M')) = set (ivls (regions M)) \<union> ivl_upd f ` set ks"
  using assms
proof (induction ks arbitrary: M rule: ivls_ok.induct)
  case (2 l h v ks)
  let ?r = "region_range (mem_region (l, h, v))"
  have "ivl_aligned (l, h, v)" "l < h" using "2.prems" by auto
  note r = aligned_region_round [OF this]
  have "overlapped ivls M ?r = []"
    using "2.prems"(4) r by (simp add: overlapped_def filter_empty_conv)
  then obtain M1 where M1: "add_region T ?r (f v) M = Some (True, M1)" "mm_inv tinv ivls M1"
    "init_finished M1 = init_finished M"
    "set (ivls (regions M1)) = insert (l, h, f v) (set (ivls (regions M)))"
    using add_region_spec [OF "2.prems"(1) r(1), of "f v"] r by auto
  have above: "\<forall>k \<in> set ks. h \<le> fst k" using "2.prems"(2) by auto
  have "\<forall>k \<in> set ks. \<forall>i \<in> set (ivls (regions M1)). \<not> ivl_overlaps (fst k) (fst (snd k)) i"
    unfolding M1(4) using "2.prems"(4) above by auto
  with "2.IH" [OF M1(2)] "2.prems"(2,3) obtain M2 where
    "add_back T f (map mem_region ks) M1 = Some M2" "mm_inv tinv ivls M2"
    "init_finished M2 = init_finished M1"
    "set (ivls (regions M2)) = set (ivls (regions M1)) \<union> ivl_upd f ` set ks" by auto
  then show ?case using M1 by auto
qed simp

lemma clip_ok:
  assumes "ivls_ok ys" "\<forall>i \<in> set ys. ivl_overlaps lo hi i" "lo < hi"
  shows "ivls_ok (map (clip_ivl lo hi) ys)"
  using assms(1,2)
proof (induction ys rule: ivls_ok.induct)
  case (2 l h v ys)
  have "min h hi \<le> fst j" if j: "j \<in> set (map (clip_ivl lo hi) ys)" for j
  proof -
    obtain l' h' v' where "(l', h', v') \<in> set ys" "j = (max l' lo, min h' hi, v')"
      using j by (auto simp: image_iff)
    then show ?thesis using "2.prems"(1) by auto
  qed
  moreover have "max l lo < min h hi" using "2.prems" assms(3) by auto
  ultimately show ?case using 2 by fastforce
qed simp

text \<open>Splitting a range out and adding its parts back with \<open>f\<close> applied updates the view of its pages by \<open>f\<close>.\<close>
lemma rewrite_region_view:
  assumes "mm_inv tinv ivls M" "range_fits r"
  shows "\<exists>rs M1 M'. split_out_region T r M = Some (rs, M1) \<and> add_back T f rs M1 = Some M' \<and>
    mm_inv tinv ivls M' \<and> init_finished M' = init_finished M \<and>
    (\<forall>a. mm_at ivls M' a =
      (if rounded_lo r \<le> a \<and> a < rounded_hi r then map_option f (mm_at ivls M a) else mm_at ivls M a))"
proof -
  let ?lo = "rounded_lo r" and ?hi = "rounded_hi r" and ?ys = "overlapped ivls M r"
  let ?ks = "map (clip_ivl ?lo ?hi) ?ys"
  note facts = overlapped_facts [OF assms(1), of r]
  have lohi: "?lo < ?hi" by (rule rounded_lo_less_hi [OF assms(2)])
  obtain M1 where M1: "split_out_region T r M = Some (map mem_region ?ks, M1)" "mm_inv tinv ivls M1"
    "init_finished M1 = init_finished M"
    "set (ivls (regions M1)) = (set (ivls (regions M)) - set ?ys) \<union> (\<Union>i \<in> set ?ys. remainders ?lo ?hi i)"
    using split_out_region_spec [OF assms] by (auto simp: comp_def)
  have ok_ks: "ivls_ok ?ks" using clip_ok [OF facts(1) _ lohi] facts(2) by blast
  have al: "\<forall>k \<in> set ?ks. ivl_aligned k"
    using facts(2) rounded_hi_fits [OF assms(2)] by (auto simp: max_def min_def)
  have v1: "mm_at ivls M1 a = (if ?lo \<le> a \<and> a < ?hi then None else mm_at ivls M a)" for a
    using unmap_region_view [OF assms] M1(1) by (auto simp: memory_map_unmap_region_def)
  have dis: "\<not> ivl_overlaps (fst k) (fst (snd k)) i"
    if k: "k \<in> set ?ks" and i: "i \<in> set (ivls (regions M1))" for k i
  proof
    obtain l h v where iv: "i = (l, h, v)" by (cases i)
    assume o: "ivl_overlaps (fst k) (fst (snd k)) i"
    let ?a = "max (fst k) l"
    have "l < h" using ivls_ok_nonempty [OF ok, of "regions M1" l h v] i iv M1(2) by (auto simp: mm_inv_def)
    then have a: "l \<le> ?a" "?a < h" using o iv by auto
    have "fst k < fst (snd k)" "?lo \<le> fst k" "fst (snd k) \<le> ?hi"
      using k ok_ks ivls_ok_nonempty [of ?ks "fst k" "fst (snd k)" "snd (snd k)"] by auto
    then have "mm_at ivls M1 ?a = None" using v1 [of ?a] o iv by auto
    moreover have "mm_at ivls M1 ?a = Some v" using mm_at_Some_iff [OF M1(2)] i iv a by blast
    ultimately show False by simp
  qed
  obtain M' where M': "add_back T f (map mem_region ?ks) M1 = Some M'" "mm_inv tinv ivls M'"
    "init_finished M' = init_finished M1"
    "set (ivls (regions M')) = set (ivls (regions M1)) \<union> ivl_upd f ` set ?ks"
    using add_back_spec [OF M1(2) ok_ks al] dis by blast
  have upd: "(\<exists>l h. (l, h, v) \<in> ivl_upd f ` set ?ks \<and> l \<le> a \<and> a < h) \<longleftrightarrow>
      ?lo \<le> a \<and> a < ?hi \<and> map_option f (mm_at ivls M a) = Some v" for a v
    by (rule clip_upd_member) (auto simp: mm_at_Some_iff [OF assms(1)] overlapped_def)
  have "mm_at ivls M' a =
      (if ?lo \<le> a \<and> a < ?hi then map_option f (mm_at ivls M a) else mm_at ivls M a)" for a
  proof (rule option_ext)
    fix v
    have "mm_at ivls M' a = Some v \<longleftrightarrow> mm_at ivls M1 a = Some v \<or>
        (\<exists>l h. (l, h, v) \<in> ivl_upd f ` set ?ks \<and> l \<le> a \<and> a < h)"
      unfolding mm_at_Some_iff [OF M'(2)] mm_at_Some_iff [OF M1(2)] M'(4) by blast
    then show "mm_at ivls M' a = Some v \<longleftrightarrow>
        (if ?lo \<le> a \<and> a < ?hi then map_option f (mm_at ivls M a) else mm_at ivls M a) = Some v"
      using upd [of v a] v1 [of a] by (auto split: if_splits)
  qed
  then show ?thesis using M1 M' by auto
qed

text \<open>A stateless query over the overlapping regions, on the view.\<close>
lemma all_overlapping_view:
  assumes "mm_inv tinv ivls M" "range_fits r"
  shows "fst (all_overlapping_regions T M r (\<lambda>u x. (P (region_state x), u)) ()) \<longleftrightarrow>
    (\<forall>a v. rounded_lo r \<le> a \<and> a < rounded_hi r \<and> mm_at ivls M a = Some v \<longrightarrow> P v)"
proof -
  have st: "region_state (mem_region i) = snd (snd i)" for i by (cases i) simp
  have "fst (all_overlapping_regions T M r (\<lambda>u x. (P (region_state x), u)) ()) \<longleftrightarrow>
      (\<forall>i \<in> set (overlapped ivls M r). P (snd (snd i)))"
    unfolding all_overlapping_regions_def range_regions_unrounded [OF assms]
    by (subst iter_all_stateless) (simp add: st)
  also have "\<dots> \<longleftrightarrow> (\<forall>v. (\<exists>i \<in> set (overlapped ivls M r). v = snd (snd i)) \<longrightarrow> P v)" by auto
  also have "\<dots> \<longleftrightarrow> (\<forall>a v. rounded_lo r \<le> a \<and> a < rounded_hi r \<and> mm_at ivls M a = Some v \<longrightarrow> P v)"
    unfolding overlapped_values [OF assms] by blast
  finally show ?thesis .
qed

lemma find_region_containing_addr_view:
  assumes "mm_inv tinv ivls M" "a + 1 < usize_bound"
  shows "find_region_containing_addr T M a = None \<longleftrightarrow> mm_at ivls M a = None"
proof -
  have "range_regions T M \<lparr>start = a, rlen = 1\<rparr> = filter (ivl_overlaps a (a + 1)) (ivls (regions M))"
    using assms by (simp add: range_regions_def range_end_def usize_simps range_law mm_inv_def)
  moreover have "filter (ivl_overlaps a (a + 1)) (ivls (regions M)) = [] \<longleftrightarrow> mm_at ivls M a = None"
    by (auto simp: filter_empty_conv mm_at_def ivls_at_None_iff less_Suc_eq_le)
  ultimately show ?thesis
    by (auto simp: find_region_containing_addr_def find_overlapping_region_def split: list.splits)
qed

lemma contiguous_step_region:
  assumes "l < h" "h < usize_bound"
  shows "contiguous_step (Some e) (mem_region (l, h, v)) = (if l = e then (True, Some h) else (False, Some e))"
    "contiguous_step None (mem_region (l, h, v)) = (True, Some h)"
  using assms by (simp_all add: contiguous_step_def range_end_def usize_simps)

lemma iter_contiguous:
  assumes "ivls_ok ys" "\<forall>i \<in> set ys. e \<le> fst i \<and> fst i < u \<and> fst (snd i) < usize_bound"
  shows "(case iter_all contiguous_step (Some e) (map mem_region ys) of
            (True, Some e') \<Rightarrow> u \<le> e' | _ \<Rightarrow> False) \<longleftrightarrow>
    (\<forall>a. e \<le> a \<and> a < u \<longrightarrow> ivls_at ys a \<noteq> None)"
  using assms
proof (induction ys arbitrary: e rule: ivls_ok.induct)
  case 1
  then show ?case by (auto simp: not_le)
next
  case (2 l h v ys)
  have lh: "l < h" "h < usize_bound" "e \<le> l" "l < u" using "2.prems" by auto
  have st: "contiguous_step (Some e) (mem_region (l, h, v)) = (if l = e then (True, Some h) else (False, Some e))"
    using lh contiguous_step_region(1) by blast
  show ?case
  proof (cases "l = e")
    case True
    have "\<forall>i \<in> set ys. h \<le> fst i \<and> fst i < u \<and> fst (snd i) < usize_bound"
      using "2.prems" by auto
    with "2.IH" [of h] "2.prems"(1)
    have IH: "(case iter_all contiguous_step (Some h) (map mem_region ys) of
            (True, Some e') \<Rightarrow> u \<le> e' | _ \<Rightarrow> False) \<longleftrightarrow>
      (\<forall>a. h \<le> a \<and> a < u \<longrightarrow> ivls_at ys a \<noteq> None)" by simp
    have "(\<forall>a. h \<le> a \<and> a < u \<longrightarrow> ivls_at ys a \<noteq> None) \<longleftrightarrow>
        (\<forall>a. e \<le> a \<and> a < u \<longrightarrow> ivls_at ((l, h, v) # ys) a \<noteq> None)"
      using True lh(1) by (auto simp: not_less)
    then show ?thesis using IH True st by (simp del: mem_region.simps ivls_at.simps)
  next
    case False
    have "ivls_at ((l, h, v) # ys) e = None"
      using False lh "2.prems" by (fastforce simp: ivls_at_None_iff)
    then show ?thesis using False lh st by (auto simp del: mem_region.simps ivls_at.simps)
  qed
qed

lemma mm_at_same_page:
  assumes "mm_inv tinv ivls M" "page_down a = page_down b"
  shows "mm_at ivls M a = mm_at ivls M b"
proof (rule option_ext)
  fix v
  have "(l \<le> a \<and> a < h) = (l \<le> b \<and> b < h)" if "(l, h, v) \<in> set (ivls (regions M))" for l h
  proof -
    have "page_aligned l" "page_aligned h" using that assms(1) by (auto simp: mm_inv_def)
    then show ?thesis using assms(2) aligned_le_page_down by (metis not_le)
  qed
  then show "mm_at ivls M a = Some v \<longleftrightarrow> mm_at ivls M b = Some v"
    unfolding mm_at_Some_iff [OF assms(1)] by blast
qed

text \<open>Every page of the rounded range has an address of the range itself.\<close>
lemma rounded_same_page:
  assumes "range_fits r" "rounded_lo r \<le> a" "a < rounded_hi r"
  shows "\<exists>b. start r \<le> b \<and> b < start r + rlen r \<and> page_down b = page_down a"
proof (cases "start r \<le> page_down a")
  case True
  have "page_down a < rounded_hi r" using assms(3) page_down_le le_less_trans by blast
  then have "page_down a < start r + rlen r"
    using aligned_less_step [OF page_down_aligned rounded_aligned(2)] rounded_hi_le [of r]
    by (fastforce simp: PAGE_SIZE_def)
  then show ?thesis using True by (intro exI [of _ "page_down a"]) simp
next
  case False
  have "page_down (start r) \<le> page_down a"
    using assms(2) by (simp add: aligned_le_page_down rounded_lo_def)
  moreover have "page_down a \<le> page_down (start r)"
    using False by (simp add: aligned_le_page_down)
  ultimately show ?thesis using assms(1) by (intro exI [of _ "start r"]) (simp add: range_fits_def)
qed

lemma holes_rounded_iff:
  assumes "mm_inv tinv ivls M" "range_fits r"
  shows "(\<exists>a. rounded_lo r \<le> a \<and> a < rounded_hi r \<and> mm_at ivls M a = None) \<longleftrightarrow>
    (\<exists>a. start r \<le> a \<and> a < start r + rlen r \<and> mm_at ivls M a = None)" (is "?L \<longleftrightarrow> ?R")
proof
  assume ?L
  then obtain a where a: "rounded_lo r \<le> a" "a < rounded_hi r" "mm_at ivls M a = None" by blast
  obtain b where "start r \<le> b" "b < start r + rlen r" "page_down b = page_down a"
    using rounded_same_page [OF assms(2) a(1,2)] by blast
  then show ?R using mm_at_same_page [OF assms(1), of b a] a(3) by auto
next
  assume ?R
  then obtain a where "start r \<le> a" "a < start r + rlen r" "mm_at ivls M a = None" by blast
  then show ?L using rounded_lo_le [of r] rounded_hi_ge [of r] by (intro exI [of _ a]) simp
qed

lemma overlapped_at:
  assumes "start r \<le> a" "a < start r + rlen r"
  shows "ivls_at (overlapped ivls M r) a = mm_at ivls M a"
proof -
  have "ivl_contains a i \<Longrightarrow> ivl_overlaps (rounded_lo r) (rounded_hi r) i" for i :: "State ivl"
    using assms rounded_lo_le [of r] rounded_hi_ge [of r] by (cases i) auto
  then show ?thesis unfolding overlapped_def mm_at_def by (rule ivls_at_filter)
qed

text \<open>\<open>contains_holes\<close> decides whether some page of the range is unmapped.\<close>
lemma contains_holes_view:
  assumes "mm_inv tinv ivls M" "range_fits r"
  shows "contains_holes T M r \<longleftrightarrow> (\<exists>a. rounded_lo r \<le> a \<and> a < rounded_hi r \<and> mm_at ivls M a = None)"
proof -
  let ?s = "start r" and ?e = "start r + rlen r" and ?ys = "overlapped ivls M r"
  have fits: "?s < ?e" "?s + 1 < usize_bound" using assms(2) by (auto simp: range_fits_def)
  show ?thesis
  proof (cases "mm_at ivls M ?s = None")
    case True
    then show ?thesis
      using find_region_containing_addr_view [OF assms(1) fits(2)] holes_rounded_iff [OF assms] fits(1)
      by (auto simp: contains_holes_def)
  next
    case False
    then obtain v where v: "ivls_at ?ys ?s = Some v" using overlapped_at [of r ?s] fits by auto
    then obtain l h w ys where ys: "?ys = (l, h, w) # ys" by (cases ?ys) auto
    note facts = overlapped_facts [OF assms(1), of r, unfolded ys]
    have lh: "l < h" "h < usize_bound" using facts(2) by auto
    have ov: "?s < fst (snd i) \<and> fst i < ?e" if "i \<in> set ((l, h, w) # ys)" for i
    proof -
      obtain l' h' w' where i: "i = (l', h', w')" by (rule prod_cases3)
      show ?thesis using that unfolding ys [symmetric] overlapped_unrounded [OF assms] i by simp
    qed
    have sh: "?s < h" using ov [of "(l, h, w)"] by simp
    have at: "ivls_at ys a \<noteq> None \<longleftrightarrow> mm_at ivls M a \<noteq> None" if "h \<le> a" "a < ?e" for a
      using overlapped_at [of r a M] that sh ys by simp
    have low: "mm_at ivls M a \<noteq> None" if "?s \<le> a" "a < h" "a < ?e" for a
    proof -
      obtain l' h' where "(l', h', v) \<in> set ((l, h, w) # ys)" "l' \<le> ?s"
        using v ivls_at_Some_iff [OF facts(1), of ?s v] ys by auto
      then have "l \<le> ?s" using facts(1) sh by auto
      then have "Some w = mm_at ivls M a" using overlapped_at [of r a M] that ys by simp
      then show ?thesis by (metis option.distinct(1))
    qed
    have ys_ok: "ivls_ok ys" using facts(1) by simp
    have ys_bounds: "\<forall>i \<in> set ys. h \<le> fst i \<and> fst i < ?e \<and> fst (snd i) < usize_bound"
    proof
      fix i assume i: "i \<in> set ys"
      then show "h \<le> fst i \<and> fst i < ?e \<and> fst (snd i) < usize_bound"
        using facts ov [of i] by auto
    qed
    have iter: "all_overlapping_regions T M r contiguous_step None =
        iter_all contiguous_step (Some h) (map mem_region ys)"
      by (simp add: all_overlapping_regions_def range_regions_unrounded [OF assms] ys
          contiguous_step_region(2) [OF lh] del: mem_region.simps)
    have "contains_holes T M r \<longleftrightarrow>
        \<not> (case iter_all contiguous_step (Some h) (map mem_region ys) of
            (True, Some e') \<Rightarrow> ?e \<le> e' | _ \<Rightarrow> False)"
      using False find_region_containing_addr_view [OF assms(1) fits(2)] assms(2)
      by (auto simp: contains_holes_def iter split: prod.splits bool.splits option.splits)
    also have "\<dots> \<longleftrightarrow> \<not> (\<forall>a. h \<le> a \<and> a < ?e \<longrightarrow> ivls_at ys a \<noteq> None)"
      unfolding iter_contiguous [OF ys_ok ys_bounds] ..
    also have "\<dots> \<longleftrightarrow> (\<exists>a. ?s \<le> a \<and> a < ?e \<and> mm_at ivls M a = None)"
      using at low sh by (metis le_less_trans less_imp_le not_le)
    finally show ?thesis using holes_rounded_iff [OF assms] by simp
  qed
qed

text \<open>\<open>mprotect\<close> fails exactly when some page is unmapped; otherwise it sets the protection of the pages.\<close>
lemma mprotect_region_view:
  assumes "mm_inv tinv ivls M" "range_fits r"
  shows "\<exists>ok M'. memory_map_mprotect_region T r p M = Some (ok, M') \<and> mm_inv tinv ivls M' \<and>
    init_finished M' = init_finished M \<and>
    (ok \<longleftrightarrow> (\<forall>a. rounded_lo r \<le> a \<and> a < rounded_hi r \<longrightarrow> mm_at ivls M a \<noteq> None)) \<and>
    (\<not> ok \<longrightarrow> M' = M) \<and>
    (ok \<longrightarrow> (\<forall>a. mm_at ivls M' a =
      (if rounded_lo r \<le> a \<and> a < rounded_hi r
       then map_option (mprotect_state p) (mm_at ivls M a) else mm_at ivls M a)))"
proof (cases "contains_holes T M r")
  case True
  then show ?thesis
    using contains_holes_view [OF assms] assms(1) by (auto simp: memory_map_mprotect_region_def)
next
  case False
  obtain rs M1 M' where M': "split_out_region T r M = Some (rs, M1)"
    "add_back T (mprotect_state p) rs M1 = Some M'" "mm_inv tinv ivls M'"
    "init_finished M' = init_finished M"
    "\<forall>a. mm_at ivls M' a =
      (if rounded_lo r \<le> a \<and> a < rounded_hi r
       then map_option (mprotect_state p) (mm_at ivls M a) else mm_at ivls M a)"
    using rewrite_region_view [OF assms] by blast
  have "memory_map_mprotect_region T r p M = Some (True, M')"
    using False M' by (simp add: memory_map_mprotect_region_def)
  then show ?thesis using M' False contains_holes_view [OF assms] by auto
qed

text \<open>
  \<open>pkey_mprotect\<close> fails exactly when a page is unmapped or, after
  initialisation, belongs to another compartment or was already
  \<open>pkey_mprotect\<close>ed; otherwise it updates the pages.
\<close>
lemma pkey_mprotect_region_view:
  assumes "mm_inv tinv ivls M" "range_fits r"
  shows "\<exists>ok M'. memory_map_pkey_mprotect_region T r k M = Some (ok, M') \<and> mm_inv tinv ivls M' \<and>
    init_finished M' = init_finished M \<and>
    (ok \<longleftrightarrow> (\<forall>a. rounded_lo r \<le> a \<and> a < rounded_hi r \<longrightarrow>
      (\<exists>s. mm_at ivls M a = Some s \<and>
        (init_finished M \<longrightarrow> (owner_pkey s = k \<or> owner_pkey s = 0) \<and> \<not> pkey_mprotected s)))) \<and>
    (\<not> ok \<longrightarrow> M' = M) \<and>
    (ok \<longrightarrow> (\<forall>a. mm_at ivls M' a =
      (if rounded_lo r \<le> a \<and> a < rounded_hi r
       then map_option (pkey_mprotect_state (init_finished M) k) (mm_at ivls M a) else mm_at ivls M a)))"
proof -
  let ?P = "\<lambda>s. init_finished M \<longrightarrow> (owner_pkey s = k \<or> owner_pkey s = 0) \<and> \<not> pkey_mprotected s"
  have "pkey_mprotect_allowed (init_finished M) k region \<longleftrightarrow> ?P (region_state region)" for region
    by (auto simp: pkey_mprotect_allowed_def)
  then have allowed: "fst (all_overlapping_regions T M r
        (\<lambda>u region. (pkey_mprotect_allowed (init_finished M) k region, u)) ()) \<longleftrightarrow>
      (\<forall>a s. rounded_lo r \<le> a \<and> a < rounded_hi r \<and> mm_at ivls M a = Some s \<longrightarrow> ?P s)"
    using all_overlapping_view [OF assms, of ?P] by presburger
  let ?ok = "\<forall>a. rounded_lo r \<le> a \<and> a < rounded_hi r \<longrightarrow> (\<exists>s. mm_at ivls M a = Some s \<and> ?P s)"
  have cond: "?ok \<longleftrightarrow> \<not> contains_holes T M r \<and> fst (all_overlapping_regions T M r
        (\<lambda>u region. (pkey_mprotect_allowed (init_finished M) k region, u)) ())"
    unfolding allowed contains_holes_view [OF assms] by (rule all_some_iff)
  obtain rs M1 M' where M': "split_out_region T r M = Some (rs, M1)"
    "add_back T (pkey_mprotect_state (init_finished M) k) rs M1 = Some M'" "mm_inv tinv ivls M'"
    "init_finished M' = init_finished M"
    "\<forall>a. mm_at ivls M' a =
      (if rounded_lo r \<le> a \<and> a < rounded_hi r
       then map_option (pkey_mprotect_state (init_finished M) k) (mm_at ivls M a) else mm_at ivls M a)"
    using rewrite_region_view [OF assms] by blast
  have "memory_map_pkey_mprotect_region T r k M = (if ?ok then Some (True, M') else Some (False, M))"
    unfolding cond memory_map_pkey_mprotect_region_def using M'(1,2) by simp
  then show ?thesis using M' assms(1) by (cases ?ok) auto
qed

end

text \<open>The laws hold of the sorted lists, so all of the above applies to them.\<close>
interpretation region_list: region_tree list_tree ivls_ok "\<lambda>xs. xs"
  by unfold_locales

end
