(* ===== verification/Pkru.thy ===== *)
theory Pkru
  imports IA2_Prelude
begin

text \<open>
  The PKRU encodings of a compartment. The same 16-entry table exists four
  times in the sources: as the macro \<open>PKRU\<close> (\<open>ia2.h\<close>, \<open>track_memory_map.c\<close>), as the
  rewriter's computation in \<open>emit_wrpkru\<close>, and inverted as the switch statements
  of \<open>ia2_get_compartment\<close>, \<open>ia2_get_pkey\<close> and the tracer's \<open>pkey_for_pkru\<close>.
\<close>

unbundle bit_operations_syntax

definition PKRU :: "nat \<Rightarrow> u32" where
  "PKRU pkey = NOT (push_bit (2 * pkey) 3 OR 3)"

text \<open>\<open>emit_mixed_wrpkru\<close> computes the value that opens two compartments.\<close>
definition mixed_PKRU :: "nat \<Rightarrow> nat \<Rightarrow> u32" where
  "mixed_PKRU pkey0 pkey1 = NOT (push_bit (2 * pkey0) 3 OR push_bit (2 * pkey1) 3 OR 3)"

definition ia2_get_compartment :: "u32 \<Rightarrow> nat" where
  "ia2_get_compartment pkru =
    (if pkru = 0xFFFFFFFC then 0
     else if pkru = 0xFFFFFFF0 then 1
     else if pkru = 0xFFFFFFCC then 2
     else if pkru = 0xFFFFFF3C then 3
     else if pkru = 0xFFFFFCFC then 4
     else if pkru = 0xFFFFF3FC then 5
     else if pkru = 0xFFFFCFFC then 6
     else if pkru = 0xFFFF3FFC then 7
     else if pkru = 0xFFFCFFFC then 8
     else if pkru = 0xFFF3FFFC then 9
     else if pkru = 0xFFCFFFFC then 10
     else if pkru = 0xFF3FFFFC then 11
     else if pkru = 0xFCFFFFFC then 12
     else if pkru = 0xF3FFFFFC then 13
     else if pkru = 0xCFFFFFFC then 14
     else if pkru = 0x3FFFFFFC then 15
     else 0)"

definition ia2_get_pkey :: "u32 \<Rightarrow> nat" where
  "ia2_get_pkey pkru =
    (if pkru = 0xFFFFFFFC then 0
     else if pkru = 0xFFFFFFF0 then 1
     else if pkru = 0xFFFFFFCC then 2
     else if pkru = 0xFFFFFF3C then 3
     else if pkru = 0xFFFFFCFC then 4
     else if pkru = 0xFFFFF3FC then 5
     else if pkru = 0xFFFFCFFC then 6
     else if pkru = 0xFFFF3FFC then 7
     else if pkru = 0xFFFCFFFC then 8
     else if pkru = 0xFFF3FFFC then 9
     else if pkru = 0xFFCFFFFC then 10
     else if pkru = 0xFF3FFFFC then 11
     else if pkru = 0xFCFFFFFC then 12
     else if pkru = 0xF3FFFFFC then 13
     else if pkru = 0xCFFFFFFC then 14
     else if pkru = 0x3FFFFFFC then 15
     else 0)"

definition PKEY_INVALID :: u8 where
  "PKEY_INVALID = 255"

text \<open>The tracer's table: the sixteen \<open>CHECK\<close> cases, then the values Linux starts a process with.\<close>
fun pkru_lookup :: "nat list \<Rightarrow> u32 \<Rightarrow> nat option" where
  "pkru_lookup [] pkru = None"
| "pkru_lookup (x # xs) pkru = (if pkru = PKRU x then Some x else pkru_lookup xs pkru)"

definition pkey_for_pkru :: "u32 \<Rightarrow> u8" where
  "pkey_for_pkru pkru =
    (case pkru_lookup [0,1,2,3,4,5,6,7,8,9,10,11,12,13,14,15] pkru of
       Some x \<Rightarrow> word_of_nat x
     | None \<Rightarrow>
         if pkru = 0x55555550 then 0
         else if pkru = 0x55555554 then 0
         else if pkru = 0 then 0
         else PKEY_INVALID)"

section \<open>What the hardware makes of a PKRU value\<close>

text \<open>Bit \<open>2 i\<close> of PKRU disables all data access to pages of key \<open>i\<close>, bit \<open>2 i + 1\<close> disables writes.\<close>
definition pkru_may_read :: "u32 \<Rightarrow> nat \<Rightarrow> bool" where
  "pkru_may_read pkru k = (\<not> bit pkru (2 * k))"

definition pkru_may_write :: "u32 \<Rightarrow> nat \<Rightarrow> bool" where
  "pkru_may_write pkru k = (\<not> bit pkru (2 * k) \<and> \<not> bit pkru (2 * k + 1))"

lemma three_eq_mask: "(3 :: u32) = mask 2"
  by (simp add: mask_eq_exp_minus_1)

lemma bit_3_iff: "bit (3 :: u32) k \<longleftrightarrow> k = 0 \<or> k = 1"
  unfolding three_eq_mask bit_mask_iff by auto

lemma bit_push_3_iff:
  "bit (push_bit (2 * n) (3 :: u32)) k \<longleftrightarrow> k < 32 \<and> (k = 2 * n \<or> k = 2 * n + 1)"
  unfolding bit_push_bit_iff bit_3_iff by auto

lemma bit_PKRU_iff:
  assumes "k < 32"
  shows "bit (PKRU p) k \<longleftrightarrow> k \<notin> {0, 1, 2 * p, 2 * p + 1}"
  unfolding PKRU_def bit_not_iff bit_or_iff bit_push_3_iff bit_3_iff using assms by auto

lemma bit_mixed_PKRU_iff:
  assumes "k < 32"
  shows "bit (mixed_PKRU p q) k \<longleftrightarrow> k \<notin> {0, 1, 2 * p, 2 * p + 1, 2 * q, 2 * q + 1}"
  unfolding mixed_PKRU_def bit_not_iff bit_or_iff bit_push_3_iff bit_3_iff using assms by auto

lemma PKRU_table:
  "PKRU 0 = 0xFFFFFFFC" "PKRU 1 = 0xFFFFFFF0" "PKRU 2 = 0xFFFFFFCC" "PKRU 3 = 0xFFFFFF3C"
  "PKRU 4 = 0xFFFFFCFC" "PKRU 5 = 0xFFFFF3FC" "PKRU 6 = 0xFFFFCFFC" "PKRU 7 = 0xFFFF3FFC"
  "PKRU 8 = 0xFFFCFFFC" "PKRU 9 = 0xFFF3FFFC" "PKRU 10 = 0xFFCFFFFC" "PKRU 11 = 0xFF3FFFFC"
  "PKRU 12 = 0xFCFFFFFC" "PKRU 13 = 0xF3FFFFFC" "PKRU 14 = 0xCFFFFFFC" "PKRU 15 = 0x3FFFFFFC"
  by (simp_all add: PKRU_def)

lemma upt_16: "[0..<16] = [0, 1, 2, 3, 4, 5, 6, 7, 8, 9, 10, 11, 12, 13, 14, 15]"
  by code_simp

lemma below_16_ballI: "\<forall>k \<in> set [0..<16]. P k \<Longrightarrow> p < 16 \<Longrightarrow> P p"
  by simp

text \<open>
  C31. The four tables agree: for each of the sixteen keys, the runtime, the
  allocator and the tracer all read back the compartment whose PKRU value
  the macro computes.
\<close>
theorem pkru_tables_agree:
  assumes "p < 16"
  shows "ia2_get_compartment (PKRU p) = p \<and> ia2_get_pkey (PKRU p) = p \<and>
    pkey_for_pkru (PKRU p) = word_of_nat p"
proof -
  have "\<forall>k \<in> set [0..<16]. ia2_get_compartment (PKRU k) = k \<and> ia2_get_pkey (PKRU k) = k \<and>
      pkey_for_pkru (PKRU k) = word_of_nat k"
    unfolding upt_16 by (simp add: PKRU_table PKRU_table(2) [simplified] ia2_get_compartment_def
        ia2_get_pkey_def pkey_for_pkru_def)
  then show ?thesis using assms by (rule below_16_ballI)
qed

theorem pkru_tables_agree_witness:
  "ia2_get_compartment (PKRU 5) = 5 \<and> ia2_get_pkey (PKRU 5) = 5 \<and> pkey_for_pkru (PKRU 5) = 5"
  using pkru_tables_agree [of 5] by simp

lemma pkru_may_iff:
  assumes "k < 16"
  shows "pkru_may_read (PKRU p) k \<longleftrightarrow> k = 0 \<or> k = p" "pkru_may_write (PKRU p) k \<longleftrightarrow> k = 0 \<or> k = p"
    "pkru_may_read (mixed_PKRU p q) k \<longleftrightarrow> k = 0 \<or> k = p \<or> k = q"
    "pkru_may_write (mixed_PKRU p q) k \<longleftrightarrow> k = 0 \<or> k = p \<or> k = q"
proof -
  have k: "2 * k < 32" "2 * k + 1 < 32" using assms by simp_all
  have odd: "2 * k + 1 \<noteq> 2 * m" "2 * k \<noteq> 2 * m + 1" for m :: nat by presburger+
  show "pkru_may_read (PKRU p) k \<longleftrightarrow> k = 0 \<or> k = p" "pkru_may_write (PKRU p) k \<longleftrightarrow> k = 0 \<or> k = p"
    "pkru_may_read (mixed_PKRU p q) k \<longleftrightarrow> k = 0 \<or> k = p \<or> k = q"
    "pkru_may_write (mixed_PKRU p q) k \<longleftrightarrow> k = 0 \<or> k = p \<or> k = q"
    unfolding pkru_may_read_def pkru_may_write_def bit_PKRU_iff [OF k(1)] bit_PKRU_iff [OF k(2)]
      bit_mixed_PKRU_iff [OF k(1)] bit_mixed_PKRU_iff [OF k(2)]
    using odd by auto
qed

text \<open>
  C30. A compartment's PKRU value opens exactly the shared key 0 and its own
  key for reading and for writing, and the intermediate value of a call gate
  exactly the shared key and the keys of the two sides.
\<close>
theorem pkru_grants:
  assumes "k < 16"
  shows "pkru_may_read (PKRU p) k = (k = 0 \<or> k = p) \<and> pkru_may_write (PKRU p) k = (k = 0 \<or> k = p) \<and>
    pkru_may_read (mixed_PKRU p q) k = (k = 0 \<or> k = p \<or> k = q) \<and>
    pkru_may_write (mixed_PKRU p q) k = (k = 0 \<or> k = p \<or> k = q)"
  using assms by (simp add: pkru_may_iff)

theorem pkru_grants_witness:
  "pkru_may_write (PKRU 3) 3 \<and> \<not> pkru_may_read (PKRU 3) 4 \<and> pkru_may_write (mixed_PKRU 3 4) 4"
  using pkru_grants [of 3 3 4] pkru_grants [of 4 3 4] by simp

text \<open>
  Where the tracer accepts a PKRU value, it attributes it to the
  compartment the runtime would; any other value the tracer rejects, while
  the runtime and the allocator fall back to compartment 0.
\<close>
lemma tracer_runtime_attribution:
  "(pkey_for_pkru pkru \<noteq> PKEY_INVALID \<longrightarrow> unat (pkey_for_pkru pkru) = ia2_get_compartment pkru) \<and>
   (pkey_for_pkru pkru = PKEY_INVALID \<longrightarrow> ia2_get_compartment pkru = 0 \<and> ia2_get_pkey pkru = 0)"
  by (simp add: pkey_for_pkru_def PKEY_INVALID_def PKRU_table PKRU_table(2) [simplified] ia2_get_compartment_def ia2_get_pkey_def)

lemma tracer_runtime_attribution_witness:
  "unat (pkey_for_pkru 0x55555554) = 0 \<and> ia2_get_compartment 0 = 0 \<and> ia2_get_pkey 0x12345678 = 0"
  using tracer_runtime_attribution [where pkru = "0x55555554"] tracer_runtime_attribution [where pkru = "0x12345678"]
    tracer_runtime_attribution [where pkru = 0]
  by (simp add: pkey_for_pkru_def PKEY_INVALID_def PKRU_table PKRU_table(2) [simplified])

end
