(* ===== verification/Tracer_Policy.thy ===== *)
theory Tracer_Policy
  imports Memory_Map Pkru
begin

text \<open>
  The system calls the tracer understands (\<open>mmap_event.h\<close>, \<open>mmap_event.c\<close>), how it
  reads them from the registers of the stopped thread, and its policy
  (\<open>is_op_permitted\<close>) and bookkeeping (\<open>update_memory_map\<close>) of
  \<open>track_memory_map.c\<close>. The C code keeps an enum tag beside a union; the model
  is the datatype \<open>traced_event\<close>, whose constructors are the tags and whose
  arguments are the union members.
\<close>

unbundle bit_operations_syntax

section \<open>Events\<close>

datatype mmap_event =
    EVENT_MMAP | EVENT_MUNMAP | EVENT_MREMAP | EVENT_MADVISE | EVENT_MPROTECT
  | EVENT_PKEY_MPROTECT | EVENT_CLONE | EVENT_EXEC | EVENT_EXIT | EVENT_NONE

record mmap_info =
  mmap_range :: Range
  mmap_prot :: u32
  mmap_flags :: u32
  mmap_fildes :: u32
  mmap_pkey :: u8

record munmap_info =
  munmap_range :: Range
  munmap_pkey :: u8

record mremap_info =
  old_range :: Range
  new_range :: Range
  mremap_flags :: u32
  mremap_pkey :: u8

record madvise_info =
  madvise_range :: Range
  advice :: u32
  madvise_pkey :: u8

record mprotect_info =
  mprotect_range :: Range
  mprotect_prot :: u32
  mprotect_pkey :: u8

record pkey_mprotect_info =
  pkey_mprotect_range :: Range
  pkey_mprotect_prot :: u32
  new_owner_pkey :: u8
  pkey_mprotect_pkey :: u8

datatype traced_event =
    Mmap mmap_info
  | Munmap munmap_info
  | Mremap mremap_info
  | Madvise madvise_info
  | Mprotect mprotect_info
  | PkeyMprotect pkey_mprotect_info
  | Clone
  | Exec
  | Exit
  | Untraced

fun event_tag :: "traced_event \<Rightarrow> mmap_event" where
  "event_tag (Mmap _) = EVENT_MMAP"
| "event_tag (Munmap _) = EVENT_MUNMAP"
| "event_tag (Mremap _) = EVENT_MREMAP"
| "event_tag (Madvise _) = EVENT_MADVISE"
| "event_tag (Mprotect _) = EVENT_MPROTECT"
| "event_tag (PkeyMprotect _) = EVENT_PKEY_MPROTECT"
| "event_tag Clone = EVENT_CLONE"
| "event_tag Exec = EVENT_EXEC"
| "event_tag Exit = EVENT_EXIT"
| "event_tag Untraced = EVENT_NONE"

fun event_target_range :: "traced_event \<Rightarrow> Range option" where
  "event_target_range (Mmap i) = Some (mmap_range i)"
| "event_target_range (Munmap i) = Some (munmap_range i)"
| "event_target_range (Mremap i) = Some (old_range i)"
| "event_target_range (Madvise i) = Some (madvise_range i)"
| "event_target_range (Mprotect i) = Some (mprotect_range i)"
| "event_target_range (PkeyMprotect i) = Some (pkey_mprotect_range i)"
| "event_target_range Clone = None"
| "event_target_range Exec = None"
| "event_target_range Exit = None"
| "event_target_range Untraced = None"

text \<open>System call numbers of x86-64 Linux.\<close>
definition event_from_syscall :: "u64 \<Rightarrow> mmap_event" where
  "event_from_syscall nr =
    (if nr = 9 then EVENT_MMAP
     else if nr = 11 then EVENT_MUNMAP
     else if nr = 25 then EVENT_MREMAP
     else if nr = 28 then EVENT_MADVISE
     else if nr = 10 then EVENT_MPROTECT
     else if nr = 329 then EVENT_PKEY_MPROTECT
     else if nr = 61 \<or> nr = 56 \<or> nr = 435 then EVENT_CLONE
     else if nr = 59 \<or> nr = 322 then EVENT_EXEC
     else if nr = 60 then EVENT_EXIT
     else EVENT_NONE)"

section \<open>Flags\<close>

definition MAP_FIXED :: u32 where "MAP_FIXED = 0x10"
definition MAP_STACK :: u32 where "MAP_STACK = 0x20000"
definition MREMAP_FIXED :: u32 where "MREMAP_FIXED = 2"
definition MREMAP_DONTUNMAP :: u32 where "MREMAP_DONTUNMAP = 4"
definition PROT_READ :: u32 where "PROT_READ = 1"
definition PROT_WRITE :: u32 where "PROT_WRITE = 2"
definition PROT_EXEC :: u32 where "PROT_EXEC = 4"

definition has_flag :: "u32 \<Rightarrow> u32 \<Rightarrow> bool" where
  "has_flag flags f = (flags AND f \<noteq> 0)"

section \<open>Policy\<close>

text \<open>The operation is checked against the map before the system call runs.\<close>
definition mprotect_permitted :: "'t tree \<Rightarrow> 't memory_map \<Rightarrow> mprotect_info \<Rightarrow> bool panics" where
  "mprotect_permitted T M i =
    (if memory_map_all_overlapping_regions_mprotected T M (mprotect_range i) False then Some True
     else if \<not> init_finished M then Some True
     else do {
       p \<leftarrow> memory_map_region_get_prot T M (mprotect_range i);
       if p \<noteq> PROT_INDETERMINATE \<and> has_flag p PROT_WRITE then Some True
       else if p = mprotect_prot i then Some True
       else Some False })"

definition pkey_mprotect_permitted :: "'t tree \<Rightarrow> 't memory_map \<Rightarrow> pkey_mprotect_info \<Rightarrow> bool" where
  "pkey_mprotect_permitted T M i =
    (let impacts_only_unprotected_memory =
           memory_map_all_overlapping_regions_pkey_mprotected T M (pkey_mprotect_range i) False;
         sets_our_key = (new_owner_pkey i = pkey_mprotect_pkey i)
     in if impacts_only_unprotected_memory \<and> sets_our_key then True
        else pkey_mprotect_pkey i = 0 \<and> \<not> sets_our_key)"

fun is_op_permitted :: "'t tree \<Rightarrow> 't memory_map \<Rightarrow> traced_event \<Rightarrow> bool panics" where
  "is_op_permitted T M (Mmap i) =
    (if \<not> has_flag (mmap_flags i) MAP_FIXED then Some True
     else Some (memory_map_all_overlapping_regions_have_pkey T M (mmap_range i) (mmap_pkey i)))"
| "is_op_permitted T M (Munmap i) =
    Some (memory_map_all_overlapping_regions_have_pkey T M (munmap_range i) (munmap_pkey i))"
| "is_op_permitted T M (Mremap i) =
    Some (memory_map_all_overlapping_regions_have_pkey T M (old_range i) (mremap_pkey i))"
| "is_op_permitted T M (Madvise i) =
    Some (memory_map_all_overlapping_regions_have_pkey T M (madvise_range i) (madvise_pkey i))"
| "is_op_permitted T M (Mprotect i) = mprotect_permitted T M i"
| "is_op_permitted T M (PkeyMprotect i) = Some (pkey_mprotect_permitted T M i)"
| "is_op_permitted T M Clone = Some True"
| "is_op_permitted T M Exec = Some True"
| "is_op_permitted T M Exit = Some True"
| "is_op_permitted T M Untraced = Some True"

section \<open>Bookkeeping\<close>

text \<open>\<open>update_memory_map\<close> returns, panics inside the map, or calls \<open>exit(1)\<close>.\<close>
datatype 'a update_result = Updated 'a | Panicked | TracerExit

fun updated :: "'a panics \<Rightarrow> 'a update_result" where
  "updated (Some x) = Updated x"
| "updated None = Panicked"

definition update_mmap :: "'t tree \<Rightarrow> mmap_info \<Rightarrow> 't memory_map \<Rightarrow> (bool \<times> 't memory_map) update_result" where
  "update_mmap T i M =
    (let pkey = (if has_flag (mmap_flags i) MAP_STACK then 0 else mmap_pkey i) in
     if has_flag (mmap_flags i) MAP_FIXED then
       updated (do { map1 \<leftarrow> memory_map_unmap_region T (mmap_range i) M;
                     memory_map_add_region T (mmap_range i) pkey (mmap_prot i) map1 })
     else updated (memory_map_add_region T (mmap_range i) pkey (mmap_prot i) M))"

definition update_mremap :: "'t tree \<Rightarrow> mremap_info \<Rightarrow> 't memory_map \<Rightarrow> (bool \<times> 't memory_map) update_result" where
  "update_mremap T i M =
    (case memory_map_region_get_prot T M (old_range i) of
       None \<Rightarrow> Panicked
     | Some p \<Rightarrow>
         if p = PROT_INDETERMINATE then TracerExit
         else if has_flag (mremap_flags i) MREMAP_DONTUNMAP then
           updated (memory_map_add_region T (new_range i) (mremap_pkey i) p M)
         else
           updated (do { map1 \<leftarrow> memory_map_unmap_region T (old_range i) M;
                         memory_map_add_region T (new_range i) (mremap_pkey i) p map1 }))"

fun update_memory_map :: "'t tree \<Rightarrow> traced_event \<Rightarrow> 't memory_map \<Rightarrow> (bool \<times> 't memory_map) update_result" where
  "update_memory_map T (Mmap i) M = update_mmap T i M"
| "update_memory_map T (Munmap i) M =
    updated (map_option (\<lambda>m. (True, m)) (memory_map_unmap_region T (munmap_range i) M))"
| "update_memory_map T (Mremap i) M = update_mremap T i M"
| "update_memory_map T (Madvise i) M = Updated (True, M)"
| "update_memory_map T (Mprotect i) M =
    updated (memory_map_mprotect_region T (mprotect_range i) (mprotect_prot i) M)"
| "update_memory_map T (PkeyMprotect i) M =
    updated (memory_map_pkey_mprotect_region T (pkey_mprotect_range i) (new_owner_pkey i) M)"
| "update_memory_map T Clone M = Updated (True, M)"
| "update_memory_map T Exec M = Updated (True, memory_map_clear T M)"
| "update_memory_map T Exit M = Updated (True, M)"
| "update_memory_map T Untraced M = Updated (True, M)"

section \<open>Two requests that are signalled through system calls\<close>

definition IA2_FINISH_INIT_MAGIC :: nat where
  "IA2_FINISH_INIT_MAGIC = 0x1a21face1a21face"

fun event_marks_init_finished :: "traced_event \<Rightarrow> bool" where
  "event_marks_init_finished (Mmap i) =
    (start (mmap_range i) = IA2_FINISH_INIT_MAGIC \<and> has_flag (mmap_flags i) MAP_FIXED)"
| "event_marks_init_finished _ = False"

fun event_is_request_proc_self_maps :: "traced_event \<Rightarrow> bool" where
  "event_is_request_proc_self_maps (Madvise i) = (advice i = 0x1a25e1f5)"
| "event_is_request_proc_self_maps _ = False"

section \<open>Reading the system call\<close>

text \<open>The registers of \<open>struct user_regs_struct\<close> the tracer reads.\<close>
record user_regs =
  reg_pc :: u64
  reg_syscall :: u64
  reg_retval :: u64
  reg_arg0 :: u64
  reg_arg1 :: u64
  reg_arg2 :: u64
  reg_arg3 :: u64
  reg_arg4 :: u64

datatype trace_mode = TRACE_MODE_SECCOMP | TRACE_MODE_PTRACE_SYSCALL

definition reg_range :: "u64 \<Rightarrow> u64 \<Rightarrow> Range" where
  "reg_range s l = \<lparr> start = unat s, rlen = unat l \<rparr>"

definition interpret_mremap :: "user_regs \<Rightarrow> u8 \<Rightarrow> mremap_info" where
  "interpret_mremap regs pkey =
    (let flags = ucast (reg_arg3 regs) in
     \<lparr> old_range = reg_range (reg_arg0 regs) (reg_arg1 regs),
       new_range = reg_range (if has_flag flags MREMAP_FIXED then reg_arg4 regs else reg_arg0 regs)
                             (reg_arg2 regs),
       mremap_flags = flags, mremap_pkey = pkey \<rparr>)"

text \<open>\<^term>\<open>None\<close> is the \<open>return false\<close> for an untraced call under seccomp.\<close>
definition interpret_syscall :: "user_regs \<Rightarrow> u8 \<Rightarrow> trace_mode \<Rightarrow> traced_event option" where
  "interpret_syscall regs pkey mode =
    (let r = reg_range (reg_arg0 regs) (reg_arg1 regs) in
     case event_from_syscall (reg_syscall regs) of
       EVENT_MMAP \<Rightarrow> Some (Mmap \<lparr> mmap_range = r, mmap_prot = ucast (reg_arg2 regs),
         mmap_flags = ucast (reg_arg3 regs), mmap_fildes = ucast (reg_arg4 regs), mmap_pkey = pkey \<rparr>)
     | EVENT_MUNMAP \<Rightarrow> Some (Munmap \<lparr> munmap_range = r, munmap_pkey = pkey \<rparr>)
     | EVENT_MREMAP \<Rightarrow> Some (Mremap (interpret_mremap regs pkey))
     | EVENT_MADVISE \<Rightarrow> Some (Madvise \<lparr> madvise_range = r, advice = ucast (reg_arg2 regs), madvise_pkey = pkey \<rparr>)
     | EVENT_MPROTECT \<Rightarrow> Some (Mprotect \<lparr> mprotect_range = r, mprotect_prot = ucast (reg_arg2 regs), mprotect_pkey = pkey \<rparr>)
     | EVENT_PKEY_MPROTECT \<Rightarrow> Some (PkeyMprotect \<lparr> pkey_mprotect_range = r,
         pkey_mprotect_prot = ucast (reg_arg2 regs), new_owner_pkey = ucast (reg_arg3 regs),
         pkey_mprotect_pkey = pkey \<rparr>)
     | EVENT_CLONE \<Rightarrow> Some Clone
     | EVENT_EXEC \<Rightarrow> Some Exec
     | EVENT_EXIT \<Rightarrow> Some Exit
     | EVENT_NONE \<Rightarrow> if mode = TRACE_MODE_SECCOMP then None else Some Untraced)"

text \<open>\<^term>\<open>None\<close> when the system call failed; otherwise the event with the address the kernel chose.\<close>
definition update_event_with_result :: "user_regs \<Rightarrow> traced_event \<Rightarrow> traced_event option" where
  "update_event_with_result regs ev =
    (if sint (reg_retval regs) < 0 then None
     else case ev of
       Mmap i \<Rightarrow> Some (Mmap (i\<lparr>mmap_range := (mmap_range i)\<lparr>start := unat (reg_retval regs)\<rparr>\<rparr>))
     | Mremap i \<Rightarrow> Some (Mremap (i\<lparr>new_range := (new_range i)\<lparr>start := unat (reg_retval regs)\<rparr>\<rparr>))
     | _ \<Rightarrow> Some ev)"

end
