(* ===== verification/Policy_Safety.thy ===== *)
theory Policy_Safety
  imports Memory_Map_Laws Tracer_Policy
begin

text \<open>
  What the tracer's policy guarantees: the queries and updates of
  \<open>Tracer_Policy\<close> on the pointwise view of the memory map, preservation of its
  well-formedness, and isolation of the memory of one compartment from the
  system calls of the others.
\<close>

lemma updated_iff [simp]:
  "updated x = Updated y \<longleftrightarrow> x = Some y"
  "updated x = Panicked \<longleftrightarrow> x = None"
  "updated x \<noteq> TracerExit"
  by (cases x; simp)+

lemma ex_SomeD: "\<exists>x y. f = Some (x, y) \<and> P x y \<Longrightarrow> f = Some (a, b) \<Longrightarrow> P a b"
  by auto

section \<open>The two getters\<close>

lemma same_step_simps [simp]:
  "same_step f None r = (True, Some (f (region_state r)))"
  "same_step f (Some x) r = (x = f (region_state r), Some x)"
  by (simp_all add: same_step_def)

lemma iter_same_step_Some [simp]:
  "iter_all (same_step f) (Some x) rs = ((\<forall>r \<in> set rs. f (region_state r) = x), Some x)"
  by (induction rs) (auto split: bool.splits)

text \<open>The ranges an event's bookkeeping works on are nonempty and do not wrap around.\<close>
fun event_fits :: "traced_event \<Rightarrow> bool" where
  "event_fits (Mmap i) = range_fits (mmap_range i)"
| "event_fits (Munmap i) = range_fits (munmap_range i)"
| "event_fits (Mremap i) = (range_fits (old_range i) \<and> range_fits (new_range i))"
| "event_fits (Madvise i) = range_fits (madvise_range i)"
| "event_fits (Mprotect i) = range_fits (mprotect_range i)"
| "event_fits (PkeyMprotect i) = range_fits (pkey_mprotect_range i)"
| "event_fits _ = True"

text \<open>The compartment the tracer attributes the call to.\<close>
fun event_pkey :: "traced_event \<Rightarrow> u8 option" where
  "event_pkey (Mmap i) = Some (mmap_pkey i)"
| "event_pkey (Munmap i) = Some (munmap_pkey i)"
| "event_pkey (Mremap i) = Some (mremap_pkey i)"
| "event_pkey (Madvise i) = Some (madvise_pkey i)"
| "event_pkey (Mprotect i) = Some (mprotect_pkey i)"
| "event_pkey (PkeyMprotect i) = Some (pkey_mprotect_pkey i)"
| "event_pkey _ = None"

lemma update_mmapE:
  assumes "update_mmap T i M = Updated (b, M')"
  obtains (hint) k where "\<not> has_flag (mmap_flags i) MAP_FIXED"
      "memory_map_add_region T (mmap_range i) k (mmap_prot i) M = Some (b, M')"
  | (fixed) k M1 where "has_flag (mmap_flags i) MAP_FIXED"
      "memory_map_unmap_region T (mmap_range i) M = Some M1"
      "memory_map_add_region T (mmap_range i) k (mmap_prot i) M1 = Some (b, M')"
  using assms by (auto simp: update_mmap_def Let_def bind_eq_Some_conv split: if_splits)

lemma update_mremapE:
  assumes "update_mremap T i M = Updated (b, M')"
  obtains (keep) p where "memory_map_region_get_prot T M (old_range i) = Some p"
      "memory_map_add_region T (new_range i) (mremap_pkey i) p M = Some (b, M')"
  | (move) p M1 where "memory_map_region_get_prot T M (old_range i) = Some p"
      "memory_map_unmap_region T (old_range i) M = Some M1"
      "memory_map_add_region T (new_range i) (mremap_pkey i) p M1 = Some (b, M')"
  using assms by (auto simp: update_mremap_def bind_eq_Some_conv split: if_splits option.splits)

context region_tree
begin

lemma mem_region_state [simp]: "region_state (mem_region i) = snd (snd i)"
  by (cases i) simp

lemma region_get_prot_cases:
  assumes "mm_inv tinv ivls M" "range_fits r"
  obtains (unmapped) "memory_map_region_get_prot T M r = None"
      "\<forall>a. rounded_lo r \<le> a \<and> a < rounded_hi r \<longrightarrow> mm_at ivls M a = None"
  | (uniform) p where "memory_map_region_get_prot T M r = Some p"
      "\<forall>a v. rounded_lo r \<le> a \<and> a < rounded_hi r \<and> mm_at ivls M a = Some v \<longrightarrow> prot v = p"
  | (mixed) "memory_map_region_get_prot T M r = Some PROT_INDETERMINATE"
      "\<exists>a b v w. rounded_lo r \<le> a \<and> a < rounded_hi r \<and> mm_at ivls M a = Some v \<and>
         rounded_lo r \<le> b \<and> b < rounded_hi r \<and> mm_at ivls M b = Some w \<and> prot v \<noteq> prot w"
proof -
  note eq = all_overlapping_regions_def range_regions_unrounded [OF assms]
  note vals = overlapped_values [OF assms]
  show thesis
  proof (cases "overlapped ivls M r")
    case Nil
    then have "memory_map_region_get_prot T M r = None"
      by (simp add: memory_map_region_get_prot_def eq)
    then show thesis using unmapped overlapped_empty_iff [OF assms] Nil by blast
  next
    case (Cons i xs)
    show thesis
    proof (cases "\<forall>j \<in> set xs. prot (snd (snd j)) = prot (snd (snd i))")
      case True
      then have "memory_map_region_get_prot T M r = Some (prot (snd (snd i)))"
        using Cons by (simp add: memory_map_region_get_prot_def eq)
      moreover have "prot v = prot (snd (snd i))"
        if "rounded_lo r \<le> a \<and> a < rounded_hi r \<and> mm_at ivls M a = Some v" for a v
        using vals [of v] that True Cons by auto
      ultimately show thesis using uniform by blast
    next
      case False
      then obtain j where j: "j \<in> set xs" "prot (snd (snd j)) \<noteq> prot (snd (snd i))" by blast
      have "memory_map_region_get_prot T M r = Some PROT_INDETERMINATE"
        using Cons False by (simp add: memory_map_region_get_prot_def eq split: bool.splits) blast
      moreover have "i \<in> set (overlapped ivls M r)" "j \<in> set (overlapped ivls M r)"
        using Cons j by auto
      then have "\<exists>a. rounded_lo r \<le> a \<and> a < rounded_hi r \<and> mm_at ivls M a = Some (snd (snd i))"
        "\<exists>a. rounded_lo r \<le> a \<and> a < rounded_hi r \<and> mm_at ivls M a = Some (snd (snd j))"
        using vals by blast+
      ultimately show thesis using mixed j(2) by metis
    qed
  qed
qed

lemma have_pkey_view:
  assumes "mm_inv tinv ivls M" "range_fits r"
  shows "memory_map_all_overlapping_regions_have_pkey T M r k \<longleftrightarrow>
    (\<forall>a v. rounded_lo r \<le> a \<and> a < rounded_hi r \<and> mm_at ivls M a = Some v \<longrightarrow> owner_pkey v = k)"
  unfolding memory_map_all_overlapping_regions_have_pkey_def
  using all_overlapping_view [OF assms, of "\<lambda>s. k = owner_pkey s"] by auto

lemma pkey_mprotected_view:
  assumes "mm_inv tinv ivls M" "range_fits r"
  shows "memory_map_all_overlapping_regions_pkey_mprotected T M r b \<longleftrightarrow>
    (\<forall>a v. rounded_lo r \<le> a \<and> a < rounded_hi r \<and> mm_at ivls M a = Some v \<longrightarrow> pkey_mprotected v = b)"
  unfolding memory_map_all_overlapping_regions_pkey_mprotected_def
  using all_overlapping_view [OF assms, of "\<lambda>s. b = pkey_mprotected s"] by auto

lemma mprotected_view:
  assumes "mm_inv tinv ivls M" "range_fits r"
  shows "memory_map_all_overlapping_regions_mprotected T M r b \<longleftrightarrow>
    (\<forall>a v. rounded_lo r \<le> a \<and> a < rounded_hi r \<and> mm_at ivls M a = Some v \<longrightarrow> mprotected v = b)"
  unfolding memory_map_all_overlapping_regions_mprotected_def
  using all_overlapping_view [OF assms, of "\<lambda>s. b = mprotected s"] by auto

lemmas add_region_view' = ex_SomeD [OF add_region_view]
lemmas mprotect_region_view' = ex_SomeD [OF mprotect_region_view]
lemmas pkey_mprotect_region_view' = ex_SomeD [OF pkey_mprotect_region_view]

lemma memory_map_add_region_view:
  assumes "mm_inv tinv ivls M" "range_fits r" "memory_map_add_region T r k p M = Some (b, M')"
  shows "mm_inv tinv ivls M'" "init_finished M' = init_finished M"
    "mm_at ivls M a = Some s \<Longrightarrow> mm_at ivls M' a = Some s"
proof -
  note v = add_region_view' [OF assms(1,2) assms(3) [unfolded memory_map_add_region_def]]
  show "mm_inv tinv ivls M'" using v by (elim conjE)
  show "init_finished M' = init_finished M" using v by (elim conjE)
  show "mm_at ivls M' a = Some s" if "mm_at ivls M a = Some s"
    using v that by (cases b) auto
qed

lemma unmap_region_view':
  assumes "mm_inv tinv ivls M" "range_fits r" "memory_map_unmap_region T r M = Some M'"
  shows "mm_inv tinv ivls M'" "init_finished M' = init_finished M"
    "mm_at ivls M' a = (if rounded_lo r \<le> a \<and> a < rounded_hi r then None else mm_at ivls M a)"
  using unmap_region_view [OF assms(1,2)] assms(3) by auto

lemma unmap_add_owner:
  assumes inv: "mm_inv tinv ivls M" and fits: "range_fits r" "range_fits r2"
    and own: "memory_map_all_overlapping_regions_have_pkey T M r k"
    and upd: "memory_map_unmap_region T r M = Some M1" "memory_map_add_region T r2 k2 p M1 = Some (b, M')"
    and at: "mm_at ivls M a = Some s" "owner_pkey s \<noteq> k"
  shows "mm_at ivls M' a = Some s"
proof -
  have "\<not> (rounded_lo r \<le> a \<and> a < rounded_hi r)" using own at have_pkey_view [OF inv fits(1)] by auto
  then have "mm_at ivls M1 a = Some s" using unmap_region_view'(3) [OF inv fits(1) upd(1)] at by simp
  then show ?thesis
    using memory_map_add_region_view(3) [OF unmap_region_view'(1) [OF inv fits(1) upd(1)] fits(2) upd(2)] by blast
qed

lemma update_preserves_inv:
  assumes "mm_inv tinv ivls M" "event_fits ev" "update_memory_map T ev M = Updated (b, M')"
  shows "mm_inv tinv ivls M'"
proof (cases ev)
  case (Mmap i)
  have f: "range_fits (mmap_range i)" and u: "update_mmap T i M = Updated (b, M')" using assms Mmap by auto
  from u show ?thesis
  proof (cases rule: update_mmapE)
    case (hint k)
    then show ?thesis using memory_map_add_region_view(1) [OF assms(1) f] by blast
  next
    case (fixed k M1)
    then show ?thesis
      using memory_map_add_region_view(1) [OF unmap_region_view'(1) [OF assms(1) f] f] by blast
  qed
next
  case (Munmap i)
  then show ?thesis using assms unmap_region_view'(1) [OF assms(1)] by auto
next
  case (Mremap i)
  have f: "range_fits (old_range i)" "range_fits (new_range i)"
    and u: "update_mremap T i M = Updated (b, M')" using assms Mremap by auto
  from u show ?thesis
  proof (cases rule: update_mremapE)
    case (keep p)
    then show ?thesis using memory_map_add_region_view(1) [OF assms(1) f(2)] by blast
  next
    case (move p M1)
    then show ?thesis
      using memory_map_add_region_view(1) [OF unmap_region_view'(1) [OF assms(1) f(1)] f(2)] by blast
  qed
next
  case (Mprotect i)
  then have "memory_map_mprotect_region T (mprotect_range i) (mprotect_prot i) M = Some (b, M')"
    using assms(3) by simp
  then show ?thesis using mprotect_region_view' [OF assms(1)] assms(2) Mprotect by simp
next
  case (PkeyMprotect i)
  then have "memory_map_pkey_mprotect_region T (pkey_mprotect_range i) (new_owner_pkey i) M = Some (b, M')"
    using assms(3) by simp
  then show ?thesis using pkey_mprotect_region_view' [OF assms(1)] assms(2) PkeyMprotect by simp
next
  case Exec
  then show ?thesis using assms default by (auto simp: memory_map_clear_def mm_inv_def)
qed (use assms in auto)

text \<open>After initialisation no permitted call of another compartment changes the owner of a mapped page.\<close>
lemma update_keeps_owner:
  assumes inv: "mm_inv tinv ivls M" and init: "init_finished M" and fits: "event_fits ev"
    and perm: "is_op_permitted T M ev = Some True" and upd: "update_memory_map T ev M = Updated (b, M')"
    and ev: "ev \<noteq> Exec" and at: "mm_at ivls M a = Some s"
    and own: "owner_pkey s \<noteq> 0" "event_pkey ev \<noteq> Some (owner_pkey s)"
  shows "\<exists>s'. mm_at ivls M' a = Some s' \<and> owner_pkey s' = owner_pkey s"
proof (cases ev)
  case (Mmap i)
  have f: "range_fits (mmap_range i)" and u: "update_mmap T i M = Updated (b, M')" using fits upd Mmap by auto
  from u have "mm_at ivls M' a = Some s"
  proof (cases rule: update_mmapE)
    case (hint k)
    then show ?thesis using memory_map_add_region_view(3) [OF inv f] at by blast
  next
    case (fixed k M1)
    then show ?thesis using unmap_add_owner [OF inv f f _ fixed(2,3) at] perm own Mmap by auto
  qed
  then show ?thesis by simp
next
  case (Munmap i)
  have f: "range_fits (munmap_range i)" using fits Munmap by simp
  have "memory_map_unmap_region T (munmap_range i) M = Some M'" using upd Munmap by auto
  then show ?thesis
    using unmap_region_view'(3) [OF inv f] have_pkey_view [OF inv f] perm own at Munmap by auto
next
  case (Mremap i)
  have f: "range_fits (old_range i)" "range_fits (new_range i)"
    and u: "update_mremap T i M = Updated (b, M')" using fits upd Mremap by auto
  from u have "mm_at ivls M' a = Some s"
  proof (cases rule: update_mremapE)
    case (keep p)
    then show ?thesis using memory_map_add_region_view(3) [OF inv f(2)] at by blast
  next
    case (move p M1)
    then show ?thesis using unmap_add_owner [OF inv f _ move(2,3) at] perm own Mremap by auto
  qed
  then show ?thesis by simp
next
  case (Mprotect i)
  then have u: "memory_map_mprotect_region T (mprotect_range i) (mprotect_prot i) M = Some (b, M')"
    using upd by simp
  have "range_fits (mprotect_range i)" using fits Mprotect by simp
  note v = mprotect_region_view' [OF inv this u]
  have "owner_pkey (mprotect_state q x) = owner_pkey x" for q x by (simp add: mprotect_state_def)
  then show ?thesis using v at by (cases b) auto
next
  case (PkeyMprotect i)
  then have u: "memory_map_pkey_mprotect_region T (pkey_mprotect_range i) (new_owner_pkey i) M = Some (b, M')"
    using upd by simp
  have "range_fits (pkey_mprotect_range i)" using fits PkeyMprotect by simp
  note v = pkey_mprotect_region_view' [OF inv this u]
  have "owner_pkey (pkey_mprotect_state True q x) = (if owner_pkey x = 0 then q else owner_pkey x)" for q x
    by (simp add: pkey_mprotect_state_def Let_def)
  then show ?thesis using v at init own by (cases b) auto
qed (use assms in auto)

end

section \<open>A concrete map\<close>

text \<open>Two pages of compartment 2 and one of compartment 1, initialisation finished.\<close>
definition sample_map :: "State ivl list memory_map" where
  "sample_map =
    \<lparr> regions =
        [(0x1000, 0x3000, \<lparr> owner_pkey = 2, pkey_mprotected = True, mprotected = False, prot = 3 \<rparr>),
         (0x4000, 0x5000, \<lparr> owner_pkey = 1, pkey_mprotected = False, mprotected = True, prot = 1 \<rparr>)],
      init_finished = True \<rparr>"

definition sample_munmap :: traced_event where
  "sample_munmap = Munmap \<lparr> munmap_range = \<lparr> start = 0x4000, rlen = 0x1000 \<rparr>, munmap_pkey = 1 \<rparr>"

lemma sample_map_inv: "mm_inv ivls_ok (\<lambda>xs. xs) sample_map"
  by (simp add: mm_inv_def sample_map_def page_aligned_def PAGE_SIZE_def usize_bound_def)

lemmas map_eval = range_regions_def range_end_def usize_add_def usize_sub_def usize_bound_def
  list_tree_def list_tree_remove_def round_to_4k_def page_down_def PAGE_SIZE_def
  from_bounds_def subtract_def overlap_def all_overlapping_regions_def

lemmas map_op_eval = memory_map_all_overlapping_regions_have_pkey_def memory_map_unmap_region_def
  split_out_region_def memory_map_add_region_def add_region_def

lemma sample_munmap_permitted: "is_op_permitted list_tree sample_map sample_munmap = Some True"
  by (simp add: map_eval map_op_eval sample_map_def sample_munmap_def)

lemma sample_munmap_update:
  "update_memory_map list_tree sample_munmap sample_map =
    Updated (True, sample_map\<lparr>regions :=
      [(0x1000, 0x3000, \<lparr> owner_pkey = 2, pkey_mprotected = True, mprotected = False, prot = 3 \<rparr>)]\<rparr>)"
  by (simp add: map_eval map_op_eval sample_map_def sample_munmap_def)



text \<open>
  C10. Bookkeeping preserves the shape of the map: whatever the event, a
  successful update leaves the regions disjoint, page aligned and inside the
  address space.
\<close>
theorem update_memory_map_wf:
  assumes "region_tree T tinv ivls" "mm_inv tinv ivls M" "event_fits ev"
    and "update_memory_map T ev M = Updated (b, M')"
  shows "mm_inv tinv ivls M'"
  using region_tree.update_preserves_inv [OF assms] .

theorem update_memory_map_wf_witness:
  "mm_inv ivls_ok (\<lambda>xs. xs) (sample_map\<lparr>regions :=
     [(0x1000, 0x3000, \<lparr> owner_pkey = 2, pkey_mprotected = True, mprotected = False, prot = 3 \<rparr>)]\<rparr>)"
  using update_memory_map_wf [OF region_list.region_tree_axioms sample_map_inv _ sample_munmap_update]
  by (simp add: sample_munmap_def range_fits_def usize_bound_def)

end
