(* ===== verification/Tracer_Loop.thy ===== *)
theory Tracer_Loop
  imports Tracer_Policy
begin

text \<open>
  The tracer process of \<open>track_memory_map.c\<close>: the classification of wait
  statuses, the table of memory maps and their threads, loading the initial
  map from \<open>/proc/<pid>/maps\<close>, and one iteration of the loop of
  \<open>track_memory_map\<close>. What the kernel answers during an iteration (wait
  statuses, registers, PKRU, event messages) is the argument \<open>tracer_env\<close>; the
  requests the tracer makes are the list of actions it returns.
\<close>

unbundle bit_operations_syntax

section \<open>Wait statuses\<close>

datatype wait_trap_result =
    WAIT_SYSCALL | WAIT_STOP | WAIT_GROUP_STOP | WAIT_EXITED | WAIT_SIGNALED | WAIT_SIGSEGV
  | WAIT_SIGCHLD | WAIT_ERROR | WAIT_PTRACE_CLONE | WAIT_PTRACE_FORK | WAIT_EXEC | WAIT_CONT

text \<open>The outcome of \<open>ptrace(PTRACE_GETSIGINFO)\<close>.\<close>
datatype siginfo_reply = SigInfo_ok | SigInfo_EINVAL | SigInfo_error

text \<open>The macros of \<open>sys/wait.h\<close>.\<close>
definition WIFEXITED :: "u32 \<Rightarrow> bool" where "WIFEXITED stat = (stat AND 0x7f = 0)"
definition WEXITSTATUS :: "u32 \<Rightarrow> u32" where "WEXITSTATUS stat = drop_bit 8 (stat AND 0xff00)"
definition WIFSIGNALED :: "u32 \<Rightarrow> bool" where
  "WIFSIGNALED stat = (stat AND 0x7f \<noteq> 0 \<and> stat AND 0x7f \<noteq> 0x7f)"
definition WIFSTOPPED :: "u32 \<Rightarrow> bool" where "WIFSTOPPED stat = (stat AND 0xff = 0x7f)"
definition WSTOPSIG :: "u32 \<Rightarrow> u32" where "WSTOPSIG stat = WEXITSTATUS stat"

definition stop_signal_result :: "u32 \<Rightarrow> siginfo_reply \<Rightarrow> wait_trap_result" where
  "stop_signal_result sig info =
    (if sig = 0x85 then WAIT_SYSCALL
     else if sig = 19 \<or> sig = 20 \<or> sig = 21 \<or> sig = 22 then
       (if info = SigInfo_EINVAL then WAIT_GROUP_STOP else WAIT_STOP)
     else if sig = 18 then WAIT_CONT
     else if sig = 17 then WAIT_SIGCHLD
     else if sig = 11 then WAIT_SIGSEGV
     else WAIT_ERROR)"

definition ptrace_event_result :: "u32 \<Rightarrow> wait_trap_result option" where
  "ptrace_event_result ev =
    (if ev = 3 then Some WAIT_PTRACE_CLONE
     else if ev = 1 then Some WAIT_PTRACE_FORK
     else if ev = 7 then Some WAIT_SYSCALL
     else if ev = 4 then Some WAIT_EXEC
     else if ev = 128 then Some WAIT_STOP
     else None)"

text \<open>The classification and, for \<open>WAIT_EXITED\<close>, the exit status stored through \<open>exit_status_out\<close>.\<close>
definition wait_for_next_trap :: "pid_t \<Rightarrow> u32 \<Rightarrow> siginfo_reply \<Rightarrow> wait_trap_result \<times> u32 option" where
  "wait_for_next_trap waited_pid stat info =
    (if waited_pid < 0 then (WAIT_ERROR, None)
     else if WIFEXITED stat then (WAIT_EXITED, Some (WEXITSTATUS stat))
     else if WIFSIGNALED stat then (WAIT_SIGNALED, None)
     else if WIFSTOPPED stat then
       (let ptrace_event = signed_drop_bit 16 stat in
        case (if 0 <s ptrace_event then ptrace_event_result ptrace_event else None) of
          Some r \<Rightarrow> (r, None)
        | None \<Rightarrow> (stop_signal_result (WSTOPSIG stat) info, None))
     else (WAIT_ERROR, None))"

section \<open>The table of processes\<close>

record 't memory_map_for_process =
  proc_map :: "'t memory_map"
  pids :: "pid_t list"

type_synonym 't memory_maps = "'t memory_map_for_process list"

text \<open>The pointer the C code returns is the index of the entry.\<close>
fun find_memory_map :: "'t memory_maps \<Rightarrow> pid_t \<Rightarrow> nat option" where
  "find_memory_map [] pid = None"
| "find_memory_map (m # ms) pid =
    (if pid \<in> set (pids m) then Some 0 else map_option Suc (find_memory_map ms pid))"

definition add_pid :: "'t memory_map_for_process \<Rightarrow> pid_t \<Rightarrow> 't memory_map_for_process" where
  "add_pid m pid = m\<lparr>pids := pids m @ [pid]\<rparr>"

text \<open>Overwrite the first occurrence with the last element and drop the last; \<^term>\<open>None\<close> when absent.\<close>
fun index_of :: "'a \<Rightarrow> 'a list \<Rightarrow> nat option" where
  "index_of x [] = None"
| "index_of x (y # ys) = (if y = x then Some 0 else map_option Suc (index_of x ys))"

definition swap_remove :: "nat \<Rightarrow> 'a list \<Rightarrow> 'a list" where
  "swap_remove j xs = butlast (xs[j := last xs])"

definition remove_pid :: "'t memory_map_for_process \<Rightarrow> pid_t \<Rightarrow> 't memory_map_for_process option" where
  "remove_pid m pid =
    (case index_of pid (pids m) of
       None \<Rightarrow> None
     | Some j \<Rightarrow> Some (m\<lparr>pids := swap_remove j (pids m)\<rparr>))"

definition add_map :: "'t memory_maps \<Rightarrow> 't memory_map_for_process \<Rightarrow> 't memory_maps" where
  "add_map ms m = ms @ [m]"

definition remove_map :: "'t memory_maps \<Rightarrow> nat \<Rightarrow> 't memory_maps option" where
  "remove_map ms i = (if i < length ms then Some (swap_remove i ms) else None)"

definition for_process_new :: "'t memory_map \<Rightarrow> pid_t \<Rightarrow> 't memory_map_for_process" where
  "for_process_new m pid = \<lparr> proc_map = m, pids = [pid] \<rparr>"

datatype control_flow = RETURN_TRUE | RETURN_FALSE | CONTINUE

definition handle_thread_exit :: "'t memory_maps \<Rightarrow> pid_t \<Rightarrow> control_flow \<times> 't memory_maps" where
  "handle_thread_exit ms waited_pid =
    (case find_memory_map ms waited_pid of
       None \<Rightarrow> (RETURN_FALSE, ms)
     | Some i \<Rightarrow>
         (case remove_pid (ms ! i) waited_pid of
            None \<Rightarrow> (RETURN_FALSE, ms)
          | Some m \<Rightarrow>
              (let ms1 = ms[i := m];
                   ms2 = (if pids m = [] then
                            (case remove_map ms1 i of None \<Rightarrow> ms1 | Some ms' \<Rightarrow> ms')
                          else ms1)
               in (if ms2 = [] then RETURN_TRUE else CONTINUE, ms2))))"

definition add_pending_pid :: "pid_t list \<Rightarrow> pid_t \<Rightarrow> pid_t list" where
  "add_pending_pid ps pid = ps @ [pid]"

definition remove_pending_pid :: "pid_t list \<Rightarrow> pid_t \<Rightarrow> bool \<times> pid_t list" where
  "remove_pending_pid ps pid =
    (case index_of pid ps of None \<Rightarrow> (False, ps) | Some j \<Rightarrow> (True, swap_remove j ps))"

section \<open>The initial map\<close>

text \<open>A line of \<open>/proc/<pid>/maps\<close> as \<open>sscanf\<close> delivers it: the seven fields, of which three are used, or a mismatch.\<close>
datatype maps_line = Maps_entry (entry_start: nat) (entry_end: nat) (entry_perms: string) | Maps_mismatch

definition prot_of_perms :: "string \<Rightarrow> u32" where
  "prot_of_perms perms =
    (if perms ! 0 = CHR ''r'' then PROT_READ else 0) OR
    (if perms ! 1 = CHR ''w'' then PROT_WRITE else 0) OR
    (if perms ! 2 = CHR ''x'' then PROT_EXEC else 0)"

definition add_memory_map_entry ::
  "'t tree \<Rightarrow> nat \<Rightarrow> nat \<Rightarrow> string \<Rightarrow> 't memory_map option \<Rightarrow> 't memory_map option panics" where
  "add_memory_map_entry T start_addr end_addr perms m =
    (case m of
       None \<Rightarrow> Some None
     | Some M \<Rightarrow>
         map_option (\<lambda>(_, M'). Some M')
           (memory_map_add_region T \<lparr> start = start_addr, rlen = usize_sub end_addr start_addr \<rparr> 0
             (prot_of_perms perms) M))"

definition fail_loading_memory_map :: "'t memory_map option \<Rightarrow> 't memory_map option" where
  "fail_loading_memory_map m = None"

fun ia2_memory_map_foreach ::
  "'t tree \<Rightarrow> maps_line list \<Rightarrow> 't memory_map option \<Rightarrow> 't memory_map option panics" where
  "ia2_memory_map_foreach T [] m = Some m"
| "ia2_memory_map_foreach T (Maps_mismatch # ls) m =
    ia2_memory_map_foreach T ls (fail_loading_memory_map m)"
| "ia2_memory_map_foreach T (Maps_entry s e p # ls) m =
    do { m' \<leftarrow> add_memory_map_entry T s e p m; ia2_memory_map_foreach T ls m' }"

definition load_initial_memory_map :: "'t tree \<Rightarrow> maps_line list \<Rightarrow> 't memory_map option panics" where
  "load_initial_memory_map T ls = ia2_memory_map_foreach T ls (Some (memory_map_new T))"

section \<open>Writing \<open>/proc/self/maps\<close> into the tracee\<close>

text \<open>The words \<open>ptrace_memcpy\<close> pokes, as (address, eight bytes).\<close>
fun ptrace_memcpy :: "nat \<Rightarrow> nat \<Rightarrow> 'b list \<Rightarrow> (nat \<times> 'b list) list" where
  "ptrace_memcpy dest 0 src = []"
| "ptrace_memcpy dest (Suc n) src = (dest, take 8 src) # ptrace_memcpy (dest + 8) n (drop 8 src)"

text \<open>The loop over the chunks \<open>fread\<close> returns; the result is the pokes and the return value.\<close>
fun poke_proc_self_maps :: "nat \<Rightarrow> nat \<Rightarrow> nat \<Rightarrow> 'b list list \<Rightarrow> (nat \<times> 'b list) list \<times> nat" where
  "poke_proc_self_maps addr len total_read [] = ([], total_read)"
| "poke_proc_self_maps addr len total_read (buf # bufs) =
    (if total_read < len then
       (let nread = length buf in
        if nread = 0 then ([], total_read)
        else
          let n_to_copy = (if nread > len - total_read then len - total_read else nread);
              (pokes, ret) = poke_proc_self_maps addr len (total_read + n_to_copy) bufs
          in (ptrace_memcpy (addr + total_read) (n_to_copy div 8) buf @ pokes, ret))
     else ([], total_read))"

section \<open>One iteration of the loop\<close>

text \<open>
  The tracer's variables. \<open>base\<close> identifies the heap block that holds the
  array of maps: \<open>realloc\<close> in \<open>add_map\<close> may move it, which leaves pointers into
  the old block dangling.
\<close>
record 't tracer =
  maps :: "'t memory_maps"
  base :: nat
  pending_pids :: "pid_t list"

record exit_wait =
  xw_stat :: u32
  xw_info :: siginfo_reply
  xw_msg :: "pid_t option"
  xw_pid :: pid_t

text \<open>The answers of the kernel and the C library during one iteration.\<close>
record tracer_env =
  env_pid :: pid_t
  env_stat :: u32
  env_info :: siginfo_reply
  env_msg :: "pid_t option"
  env_realloc_moves :: bool
  env_regs :: "user_regs option"
  env_pkru :: "u32 option"
  env_init_wait :: exit_wait
  env_poke_result :: int
  env_continue_ok :: bool
  env_exit_waits :: "exit_wait list"
  env_exit_regs :: "user_regs option"

datatype tracer_action =
    Ptrace_continue pid_t nat
  | Ptrace_listen pid_t
  | Ptrace_syscall pid_t
  | Override_syscall pid_t int

datatype 't outcome =
    Next "'t tracer"
  | Return bool
  | Panic
  | Tracer_exit
  | Dangling
  | Blocked

text \<open>Tracking the child of a \<open>clone\<close> or \<open>fork\<close>: it is continued if it stopped before its parent did.\<close>
definition adopt_child :: "'t tracer \<Rightarrow> pid_t \<Rightarrow> tracer_action list \<times> 't tracer" where
  "adopt_child st cloned_pid =
    (case remove_pending_pid (pending_pids st) cloned_pid of
       (True, ps) \<Rightarrow> ([Ptrace_continue cloned_pid 19], st\<lparr>pending_pids := ps\<rparr>)
     | (False, ps) \<Rightarrow> ([], st))"

datatype 't entry_result = Proceed "'t tracer" nat nat | Stop "'t outcome"

text \<open>
  The first \<open>switch\<close>: process lifetime events. \<open>Proceed st i b\<close> goes on to the
  system call with the pointer \<open>map_for_proc\<close> to entry \<open>i\<close> of block \<open>b\<close>;
  \<open>return WAIT_ERROR\<close> is \<open>return true\<close>, since the function returns \<open>bool\<close>.
\<close>
definition on_entry_wait ::
  "tracer_env \<Rightarrow> wait_trap_result \<Rightarrow> nat \<Rightarrow> 't tree \<Rightarrow> 't tracer \<Rightarrow> tracer_action list \<times> 't entry_result" where
  "on_entry_wait e wr i T st =
    (let pid = env_pid e in
     case wr of
       WAIT_CONT \<Rightarrow> ([Ptrace_continue pid 18], Stop (Next st))
     | WAIT_STOP \<Rightarrow> ([Ptrace_continue pid 19], Stop (Next st))
     | WAIT_SIGCHLD \<Rightarrow> ([Ptrace_continue pid 17], Stop (Next st))
     | WAIT_SIGSEGV \<Rightarrow> ([Ptrace_continue pid 11], Stop (Next st))
     | WAIT_GROUP_STOP \<Rightarrow> ([Ptrace_listen pid], Stop (Next st))
     | WAIT_SYSCALL \<Rightarrow> ([], Proceed st i (base st))
     | WAIT_ERROR \<Rightarrow> ([], Stop (Return False))
     | WAIT_PTRACE_CLONE \<Rightarrow>
         (case env_msg e of
            None \<Rightarrow> ([], Stop (Return True))
          | Some cloned_pid \<Rightarrow>
              (case adopt_child st cloned_pid of
                 (acts, st1) \<Rightarrow>
                   (acts, Proceed (st1\<lparr>maps := (maps st1)[i := add_pid (maps st1 ! i) cloned_pid]\<rparr>) i (base st1))))
     | WAIT_PTRACE_FORK \<Rightarrow>
         (case env_msg e of
            None \<Rightarrow> ([], Stop (Return True))
          | Some cloned_pid \<Rightarrow>
              (case adopt_child st cloned_pid of
                 (acts, st1) \<Rightarrow>
                   (acts, Proceed
                     (st1\<lparr>maps := add_map (maps st1)
                              (for_process_new (memory_map_clone (proc_map (maps st1 ! i))) cloned_pid),
                           base := (if env_realloc_moves e then base st1 + 1 else base st1)\<rparr>) i (base st1))))
     | WAIT_EXEC \<Rightarrow>
         ([], Proceed (st\<lparr>maps := (maps st)[i := (maps st ! i)\<lparr>proc_map := memory_map_clear T (proc_map (maps st ! i))\<rparr>]\<rparr>)
                i (base st))
     | WAIT_SIGNALED \<Rightarrow> ([], Stop (Return False))
     | WAIT_EXITED \<Rightarrow>
         (case handle_thread_exit (maps st) pid of
            (RETURN_TRUE, _) \<Rightarrow> ([], Stop (Return True))
          | (RETURN_FALSE, _) \<Rightarrow> ([], Stop (Return False))
          | (CONTINUE, ms) \<Rightarrow> ([], Stop (Next (st\<lparr>maps := ms\<rparr>)))))"

text \<open>After the system call: read the result and update the map.\<close>
definition after_syscall ::
  "'t tree \<Rightarrow> user_regs option \<Rightarrow> pid_t \<Rightarrow> nat \<Rightarrow> traced_event \<Rightarrow> 't tracer \<Rightarrow> tracer_action list \<times> 't outcome" where
  "after_syscall T regs pid i ev st =
    (case regs of
       None \<Rightarrow> ([], Return False)
     | Some r \<Rightarrow>
         (case update_event_with_result r ev of
            None \<Rightarrow> ([Ptrace_continue pid 0], Next st)
          | Some ev' \<Rightarrow>
              (case update_memory_map T ev' (proc_map (maps st ! i)) of
                 Updated (True, M) \<Rightarrow>
                   ([Ptrace_continue pid 0], Next (st\<lparr>maps := (maps st)[i := (maps st ! i)\<lparr>proc_map := M\<rparr>]\<rparr>))
               | Updated (False, _) \<Rightarrow> ([], Return False)
               | Panicked \<Rightarrow> ([], Panic)
               | TracerExit \<Rightarrow> ([], Tracer_exit))))"

text \<open>The label \<open>syscall_exit\<close>: run to the exit stop; an exec stop retries.\<close>
fun syscall_exit ::
  "'t tree \<Rightarrow> user_regs option \<Rightarrow> pid_t \<Rightarrow> nat \<Rightarrow> traced_event \<Rightarrow> exit_wait list \<Rightarrow> 't tracer \<Rightarrow> tracer_action list \<times> 't outcome" where
  "syscall_exit T regs pid i ev [] st = ([Ptrace_syscall pid], Blocked)"
| "syscall_exit T regs pid i ev (w # ws) st =
    (case (case fst (wait_for_next_trap (xw_pid w) (xw_stat w) (xw_info w)) of
       WAIT_STOP \<Rightarrow> after_syscall T regs pid i ev st
     | WAIT_SYSCALL \<Rightarrow> after_syscall T regs pid i ev st
     | WAIT_SIGCHLD \<Rightarrow> after_syscall T regs pid i ev st
     | WAIT_ERROR \<Rightarrow> ([], Return False)
     | WAIT_PTRACE_CLONE \<Rightarrow>
         (case xw_msg w of
            None \<Rightarrow> ([], Return True)
          | Some cloned_pid \<Rightarrow>
              after_syscall T regs pid i ev (st\<lparr>maps := (maps st)[i := add_pid (maps st ! i) cloned_pid]\<rparr>))
     | WAIT_EXITED \<Rightarrow>
         (case handle_thread_exit (maps st) pid of
            (RETURN_TRUE, _) \<Rightarrow> ([], Return True)
          | (RETURN_FALSE, _) \<Rightarrow> ([], Return False)
          | (CONTINUE, ms) \<Rightarrow> ([], Next (st\<lparr>maps := ms\<rparr>)))
     | WAIT_EXEC \<Rightarrow>
         (case find_memory_map (maps st) pid of
            None \<Rightarrow> ([], Return False)
          | Some j \<Rightarrow>
              syscall_exit T regs pid i ev ws
                (st\<lparr>maps := (maps st)[j := (maps st ! j)\<lparr>proc_map := memory_map_clear T (proc_map (maps st ! j))\<rparr>]\<rparr>))
     | _ \<Rightarrow> ([], Return True)) of
       (acts, out) \<Rightarrow> (Ptrace_syscall pid # acts, out))"

text \<open>The decision on an interpreted system call.\<close>
definition on_event ::
  "'t tree \<Rightarrow> tracer_env \<Rightarrow> nat \<Rightarrow> traced_event \<Rightarrow> 't tracer \<Rightarrow> tracer_action list \<times> 't outcome" where
  "on_event T e i ev st =
    (let pid = env_pid e; M = proc_map (maps st ! i) in
     if event_marks_init_finished ev then
       (case memory_map_mark_init_finished M of
          (False, _) \<Rightarrow> ([], Return False)
        | (True, M') \<Rightarrow>
            (let st1 = st\<lparr>maps := (maps st)[i := (maps st ! i)\<lparr>proc_map := M'\<rparr>]\<rparr>;
                 w = env_init_wait e
             in case fst (wait_for_next_trap (xw_pid w) (xw_stat w) (xw_info w)) of
                  WAIT_SYSCALL \<Rightarrow>
                    (case syscall_exit T (env_exit_regs e) pid i ev (env_exit_waits e) st1 of
                       (acts, out) \<Rightarrow> (Ptrace_syscall pid # acts, out))
                | WAIT_SIGCHLD \<Rightarrow>
                    (case syscall_exit T (env_exit_regs e) pid i ev (env_exit_waits e) st1 of
                       (acts, out) \<Rightarrow> (Ptrace_syscall pid # acts, out))
                | _ \<Rightarrow> ([Ptrace_syscall pid], Return False)))
     else if event_is_request_proc_self_maps ev then
       ([Override_syscall pid (env_poke_result e), Ptrace_continue pid 0],
        if env_continue_ok e then Next st else Return False)
     else case is_op_permitted T M ev of
       None \<Rightarrow> ([], Panic)
     | Some False \<Rightarrow>
         ([Override_syscall pid (- 1), Ptrace_continue pid 0],
          if env_continue_ok e then Next st else Return False)
     | Some True \<Rightarrow> syscall_exit T (env_exit_regs e) pid i ev (env_exit_waits e) st)"

text \<open>Registers and PKRU at the entry stop, up to the interpreted event.\<close>
definition read_event :: "tracer_env \<Rightarrow> trace_mode \<Rightarrow> traced_event option" where
  "read_event e mode =
    (case env_regs e of
       None \<Rightarrow> None
     | Some regs \<Rightarrow>
         if reg_syscall regs = - 1 then None
         else
           (case env_pkru e of
              None \<Rightarrow> None
            | Some pkru \<Rightarrow>
                if pkey_for_pkru pkru = PKEY_INVALID then None
                else interpret_syscall regs (pkey_for_pkru pkru) mode))"

definition track_iteration ::
  "'t tree \<Rightarrow> trace_mode \<Rightarrow> tracer_env \<Rightarrow> 't tracer \<Rightarrow> tracer_action list \<times> 't outcome" where
  "track_iteration T mode e st =
    (let wr = fst (wait_for_next_trap (env_pid e) (env_stat e) (env_info e)) in
     case find_memory_map (maps st) (env_pid e) of
       None \<Rightarrow>
         if wr \<noteq> WAIT_SYSCALL \<and> wr \<noteq> WAIT_STOP then ([], Return False)
         else ([], Next (st\<lparr>pending_pids := add_pending_pid (pending_pids st) (env_pid e)\<rparr>))
     | Some i \<Rightarrow>
         (case on_entry_wait e wr i T st of
            (acts, Stop out) \<Rightarrow> (acts, out)
          | (acts, Proceed st1 i' b) \<Rightarrow>
              (case read_event e mode of
                 None \<Rightarrow> (acts, Return False)
               | Some ev \<Rightarrow>
                   if b \<noteq> base st1 then (acts, Dangling)
                   else (case on_event T e i' ev st1 of (acts2, out) \<Rightarrow> (acts @ acts2, out)))))"

text \<open>The tracer starts with one process whose map is the loaded one.\<close>
definition tracer_start :: "'t memory_map \<Rightarrow> pid_t \<Rightarrow> 't tracer" where
  "tracer_start M pid = \<lparr> maps = [for_process_new M pid], base = 0, pending_pids = [] \<rparr>"

end
