(* ===== verification/Tracer_Safety.thy ===== *)
theory Tracer_Safety
  imports Policy_Safety Tracer_Loop "HOL-Library.Multiset"
begin

text \<open>
  Properties of the tracer's loop: every iteration keeps all memory maps well
  formed and every tracked process nonempty, a forbidden call is overridden
  and never runs, an allowed one updates only the map of its own process and
  respects the ownership of the other compartments, and the bookkeeping of
  threads.
\<close>

section \<open>Removal by swapping with the last element\<close>

lemma index_of_Some:
  "index_of x xs = Some j \<Longrightarrow> j < length xs \<and> xs ! j = x"
  by (induction xs arbitrary: j) (auto split: if_splits)

lemma index_of_None: "index_of x xs = None \<longleftrightarrow> x \<notin> set xs"
  by (induction xs) auto

lemma mset_swap_remove:
  assumes "j < length xs"
  shows "mset (swap_remove j xs) = mset xs - {#xs ! j#}"
proof -
  obtain ys y where xs: "xs = ys @ [y]" using assms by (cases xs rule: rev_cases) auto
  show ?thesis
  proof (cases "j = length ys")
    case True
    then show ?thesis by (simp add: swap_remove_def xs)
  next
    case False
    then have j: "j < length ys" using assms xs by simp
    then have "swap_remove j xs = ys[j := y]"
      by (simp add: swap_remove_def xs list_update_append)
    then show ?thesis using j by (simp add: xs mset_update nth_append)
  qed
qed

lemma set_swap_remove: "j < length xs \<Longrightarrow> set (swap_remove j xs) \<subseteq> set xs"
  using mset_swap_remove [of j xs] by (metis set_mset_mset in_diffD subsetI)

lemma length_swap_remove: "length (swap_remove j xs) = length xs - 1"
  by (simp add: swap_remove_def)

lemma find_memory_map_Some:
  "find_memory_map ms pid = Some i \<Longrightarrow> i < length ms \<and> pid \<in> set (pids (ms ! i))"
  by (induction ms arbitrary: i) (auto split: if_splits)

lemma find_memory_map_None:
  "find_memory_map ms pid = None \<longleftrightarrow> (\<forall>m \<in> set ms. pid \<notin> set (pids m))"
  by (induction ms) auto

lemma mset_concat_pids:
  "mset (concat (map pids xs)) = \<Sum>\<^sub># (image_mset (\<lambda>m. mset (pids m)) (mset xs))"
  by (induction xs) simp_all

section \<open>Well-formed tracer states\<close>

definition tracer_wf :: "('t \<Rightarrow> bool) \<Rightarrow> ('t \<Rightarrow> State ivl list) \<Rightarrow> 't tracer \<Rightarrow> bool" where
  "tracer_wf tinv ivls st = (\<forall>m \<in> set (maps st). mm_inv tinv ivls (proc_map m) \<and> pids m \<noteq> [])"

lemma tracer_wf_nth:
  "tracer_wf tinv ivls st \<Longrightarrow> i < length (maps st) \<Longrightarrow>
    mm_inv tinv ivls (proc_map (maps st ! i)) \<and> pids (maps st ! i) \<noteq> []"
  by (simp add: tracer_wf_def)

lemma tracer_wf_update:
  assumes "tracer_wf tinv ivls st" "mm_inv tinv ivls (proc_map m)" "pids m \<noteq> []"
  shows "tracer_wf tinv ivls (st\<lparr>maps := (maps st)[i := m]\<rparr>)"
  using assms set_update_subset_insert [of "maps st" i m] by (auto simp: tracer_wf_def)

lemma tracer_wf_maps: "tracer_wf tinv ivls (st\<lparr>maps := ms\<rparr>) \<longleftrightarrow>
    (\<forall>m \<in> set ms. mm_inv tinv ivls (proc_map m) \<and> pids m \<noteq> [])"
  by (simp add: tracer_wf_def)

lemma tracer_wf_other [simp]:
  "tracer_wf tinv ivls (st\<lparr>pending_pids := ps\<rparr>) = tracer_wf tinv ivls st"
  "tracer_wf tinv ivls (st\<lparr>base := b\<rparr>) = tracer_wf tinv ivls st"
  by (simp_all add: tracer_wf_def)

lemma remove_pid_Some:
  "remove_pid m pid = Some m' \<Longrightarrow>
    proc_map m' = proc_map m \<and> pid \<in> set (pids m) \<and> mset (pids m') = mset (pids m) - {#pid#}"
  using index_of_Some [of pid "pids m"]
  by (auto simp: remove_pid_def mset_swap_remove split: option.splits)

lemma handle_thread_exit_wf:
  assumes "tracer_wf tinv ivls st" "handle_thread_exit (maps st) pid = (cf, ms)"
  shows "tracer_wf tinv ivls (st\<lparr>maps := ms\<rparr>)"
proof (cases "find_memory_map (maps st) pid")
  case None
  then show ?thesis using assms by (auto simp: handle_thread_exit_def tracer_wf_def)
next
  case (Some i)
  note i = find_memory_map_Some [OF Some]
  show ?thesis
  proof (cases "remove_pid (maps st ! i) pid")
    case None
    then show ?thesis using assms Some by (auto simp: handle_thread_exit_def tracer_wf_def)
  next
    case (Some m)
    have inv: "mm_inv tinv ivls (proc_map m)"
      using remove_pid_Some [OF Some] tracer_wf_nth [OF assms(1)] i by simp
    have ms: "ms = (if pids m = [] then swap_remove i ((maps st)[i := m]) else (maps st)[i := m])"
      using assms(2) \<open>find_memory_map (maps st) pid = Some i\<close> Some i
      by (simp add: handle_thread_exit_def remove_map_def Let_def split: if_splits)
    show ?thesis
    proof (cases "pids m = []")
      case False
      then show ?thesis using ms tracer_wf_update [OF assms(1) inv] by simp
    next
      case True
      let ?xs = "(maps st)[i := m]"
      have "mset (swap_remove i ?xs) = mset (maps st) - {#maps st ! i#}"
        using mset_swap_remove [of i ?xs] i by (simp add: mset_update)
      then have "set (swap_remove i ?xs) \<subseteq> set (maps st)"
        by (metis set_mset_mset in_diffD subsetI)
      then show ?thesis using ms True assms(1) by (auto simp: tracer_wf_def)
    qed
  qed
qed

section \<open>Every iteration keeps the state well formed\<close>

text \<open>
  What the tracer relies on from the kernel: a call that succeeded was given
  (and returned) nonempty ranges inside the address space.
\<close>
definition kernel_ranges_ok :: "trace_mode \<Rightarrow> tracer_env \<Rightarrow> bool" where
  "kernel_ranges_ok mode e =
    (case (env_exit_regs e, read_event e mode) of
       (Some r, Some ev) \<Rightarrow> (case update_event_with_result r ev of Some ev' \<Rightarrow> event_fits ev' | None \<Rightarrow> True)
     | _ \<Rightarrow> True)"

lemma kernel_ranges_okD:
  "kernel_ranges_ok mode e \<Longrightarrow> env_exit_regs e = Some r \<Longrightarrow> read_event e mode = Some ev \<Longrightarrow>
    update_event_with_result r ev = Some ev' \<Longrightarrow> event_fits ev'"
  by (simp add: kernel_ranges_ok_def)

context region_tree
begin

lemma clear_inv: "mm_inv tinv ivls (memory_map_clear T M)"
  by (simp add: memory_map_clear_def mm_inv_def default)

lemma after_syscall_wf:
  assumes "tracer_wf tinv ivls st" "i < length (maps st)"
    and "\<And>r ev'. regs = Some r \<Longrightarrow> update_event_with_result r ev = Some ev' \<Longrightarrow> event_fits ev'"
    and "after_syscall T regs pid i ev st = (acts, Next st')"
  shows "tracer_wf tinv ivls st'"
proof -
  obtain r where r: "regs = Some r" using assms(4) by (cases regs) (auto simp: after_syscall_def)
  show ?thesis
  proof (cases "update_event_with_result r ev")
    case None
    then show ?thesis using assms r by (simp add: after_syscall_def)
  next
    case (Some ev')
    obtain b M where u: "update_memory_map T ev' (proc_map (maps st ! i)) = Updated (b, M)"
      using assms(4) r Some
      by (cases "update_memory_map T ev' (proc_map (maps st ! i))") (auto simp: after_syscall_def)
    then have st': "st' = st\<lparr>maps := (maps st)[i := (maps st ! i)\<lparr>proc_map := M\<rparr>]\<rparr>"
      using assms(4) r Some by (auto simp: after_syscall_def split: bool.splits)
    have "mm_inv tinv ivls M"
      using update_preserves_inv [OF _ assms(3) [OF r Some] u] tracer_wf_nth [OF assms(1,2)] by blast
    then show ?thesis
      unfolding st' using tracer_wf_update [OF assms(1)] tracer_wf_nth [OF assms(1,2)] by simp
  qed
qed

lemma syscall_exit_wf:
  assumes "tracer_wf tinv ivls st" "i < length (maps st)"
    and "\<And>r ev'. regs = Some r \<Longrightarrow> update_event_with_result r ev = Some ev' \<Longrightarrow> event_fits ev'"
    and "syscall_exit T regs pid i ev ws st = (acts, Next st')"
  shows "tracer_wf tinv ivls st'"
  using assms
proof (induction ws arbitrary: st acts)
  case (Cons w ws)
  note aft = after_syscall_wf [where pid = pid and i = i, OF _ _ Cons.prems(3)]
  let ?wr = "fst (wait_for_next_trap (xw_pid w) (xw_stat w) (xw_info w))"
  have wf1: "tracer_wf tinv ivls (st\<lparr>maps := (maps st)[i := add_pid (maps st ! i) p]\<rparr>)" for p
    using tracer_wf_update [OF Cons.prems(1)] tracer_wf_nth [OF Cons.prems(1,2)] by (simp add: add_pid_def)
  have wf2: "tracer_wf tinv ivls
      (st\<lparr>maps := (maps st)[j := (maps st ! j)\<lparr>proc_map := memory_map_clear T (proc_map (maps st ! j))\<rparr>]\<rparr>)"
    if "j < length (maps st)" for j
    using tracer_wf_update [OF Cons.prems(1)] clear_inv tracer_wf_nth [OF Cons.prems(1) that] by simp
  show ?case
  proof (cases ?wr)
    case WAIT_SYSCALL
    then show ?thesis using aft [of st] Cons.prems by (auto split: prod.splits)
  next
    case WAIT_STOP
    then show ?thesis using aft [of st] Cons.prems by (auto split: prod.splits)
  next
    case WAIT_SIGCHLD
    then show ?thesis using aft [of st] Cons.prems by (auto split: prod.splits)
  next
    case WAIT_PTRACE_CLONE
    then show ?thesis using aft [OF wf1] Cons.prems by (auto split: prod.splits option.splits)
  next
    case WAIT_EXITED
    then show ?thesis
      using handle_thread_exit_wf [OF Cons.prems(1)] Cons.prems(4)
      by (auto split: prod.splits control_flow.splits)
  next
    case WAIT_EXEC
    obtain j where j: "find_memory_map (maps st) pid = Some j"
      using WAIT_EXEC Cons.prems(4) by (cases "find_memory_map (maps st) pid") auto
    then show ?thesis
      using Cons.IH [OF wf2 _ Cons.prems(3)] find_memory_map_Some [OF j] Cons.prems(2,4) WAIT_EXEC
      by (auto split: prod.splits)
  qed (use Cons.prems in auto)
qed simp

lemma on_event_wf:
  assumes "tracer_wf tinv ivls st" "i < length (maps st)" "kernel_ranges_ok mode e"
    and "read_event e mode = Some ev" "on_event T e i ev st = (acts, Next st')"
  shows "tracer_wf tinv ivls st'"
proof -
  note ex = syscall_exit_wf [where regs = "env_exit_regs e" and ev = ev,
      OF _ _ kernel_ranges_okD [OF assms(3) _ assms(4)]]
  let ?M = "proc_map (maps st ! i)"
  have wf1: "tracer_wf tinv ivls (st\<lparr>maps := (maps st)[i := (maps st ! i)\<lparr>proc_map := ?M\<lparr>init_finished := True\<rparr>\<rparr>]\<rparr>)"
    using tracer_wf_update [OF assms(1)] tracer_wf_nth [OF assms(1,2)] by (simp add: mm_inv_def)
  show ?thesis
  proof (cases "event_marks_init_finished ev")
    case True
    then show ?thesis
      using assms(5) ex [OF wf1] assms(2)
      by (auto simp: on_event_def Let_def memory_map_mark_init_finished_def
          split: prod.splits wait_trap_result.splits if_splits)
  next
    case False
    show ?thesis
    proof (cases "event_is_request_proc_self_maps ev")
      case True
      then show ?thesis using False assms(1,5) by (auto simp: on_event_def Let_def split: if_splits)
    next
      case nomaps: False
      show ?thesis
        using False nomaps assms(5) ex [OF assms(1,2)] assms(1)
        by (cases "is_op_permitted T ?M ev") (auto simp: on_event_def Let_def split: if_splits bool.splits)
    qed
  qed
qed

lemma on_entry_wait_wf:
  assumes "tracer_wf tinv ivls st" "find_memory_map (maps st) (env_pid e) = Some i"
    and "on_entry_wait e wr i T st = (acts, r)"
  shows "case r of Stop (Next st') \<Rightarrow> tracer_wf tinv ivls st'
    | Proceed st' i' b \<Rightarrow> tracer_wf tinv ivls st' \<and> i' = i \<and> i < length (maps st')
    | _ \<Rightarrow> True"
proof -
  note i = find_memory_map_Some [OF assms(2)]
  note wfi = tracer_wf_nth [OF assms(1)] i
  have adopt: "adopt_child st p = (a, st1) \<Longrightarrow> tracer_wf tinv ivls st1 \<and> maps st1 = maps st" for p a st1
    using assms(1) by (auto simp: adopt_child_def split: prod.splits bool.splits)
  have add: "tracer_wf tinv ivls (st1\<lparr>maps := (maps st1)[i := add_pid (maps st1 ! i) p]\<rparr>)"
    if "tracer_wf tinv ivls st1" "maps st1 = maps st" for st1 p
    using tracer_wf_update [OF that(1)] wfi that(2) by (simp add: add_pid_def)
  show ?thesis
  proof (cases wr)
    case WAIT_PTRACE_CLONE
    then show ?thesis
      using assms(3) i add adopt by (auto simp: on_entry_wait_def Let_def split: option.splits prod.splits)
  next
    case WAIT_PTRACE_FORK
    then show ?thesis
      using assms(3) i adopt wfi
      by (auto simp: on_entry_wait_def Let_def add_map_def for_process_new_def memory_map_clone_def
          tracer_wf_def split: option.splits prod.splits)
  next
    case WAIT_EXEC
    then show ?thesis
      using assms(3) i tracer_wf_update [OF assms(1)] clear_inv wfi by (auto simp: on_entry_wait_def Let_def)
  next
    case WAIT_EXITED
    then show ?thesis
      using assms(3) handle_thread_exit_wf [OF assms(1)]
      by (auto simp: on_entry_wait_def Let_def split: prod.splits control_flow.splits)
  qed (use assms i in \<open>auto simp: on_entry_wait_def Let_def\<close>)
qed

lemma track_iteration_keeps_wf:
  assumes "tracer_wf tinv ivls st" "kernel_ranges_ok mode e"
    and "track_iteration T mode e st = (acts, Next st')"
  shows "tracer_wf tinv ivls st'"
proof (cases "find_memory_map (maps st) (env_pid e)")
  case None
  then show ?thesis using assms by (auto simp: track_iteration_def Let_def split: if_splits)
next
  case (Some i)
  let ?wr = "fst (wait_for_next_trap (env_pid e) (env_stat e) (env_info e))"
  obtain a r where r: "on_entry_wait e ?wr i T st = (a, r)" by fastforce
  note wf = on_entry_wait_wf [OF assms(1) Some r]
  show ?thesis
  proof (cases r)
    case (Stop out)
    then show ?thesis using wf r Some assms(3) by (auto simp: track_iteration_def Let_def)
  next
    case (Proceed st1 i' b)
    obtain ev where ev: "read_event e mode = Some ev"
      using assms(3) Some r Proceed by (cases "read_event e mode") (auto simp: track_iteration_def Let_def)
    then obtain a2 where "on_event T e i ev st1 = (a2, Next st')"
      using assms(3) Some r Proceed wf
      by (auto simp: track_iteration_def Let_def split: if_splits prod.splits)
    then show ?thesis using on_event_wf [OF _ _ assms(2) ev] wf Proceed by auto
  qed
qed

end

section \<open>Isolation through one iteration\<close>

text \<open>With \<open>MAP_FIXED\<close> the kernel maps at the requested address or fails.\<close>
fun kernel_fixed_ok :: "user_regs option \<Rightarrow> traced_event \<Rightarrow> bool" where
  "kernel_fixed_ok (Some r) (Mmap i) =
    (sint (reg_retval r) \<ge> 0 \<and> has_flag (mmap_flags i) MAP_FIXED \<longrightarrow>
      unat (reg_retval r) = start (mmap_range i))"
| "kernel_fixed_ok _ _ = True"

lemma update_event_permitted:
  assumes "update_event_with_result r ev = Some ev'" "kernel_fixed_ok (Some r) ev"
  shows "is_op_permitted T M ev' = is_op_permitted T M ev" "event_pkey ev' = event_pkey ev"
    "ev' = Exec \<longleftrightarrow> ev = Exec"
  using assms
  by (auto simp: update_event_with_result_def split: traced_event.splits if_splits)

definition plain_exit :: "exit_wait \<Rightarrow> bool" where
  "plain_exit w = (fst (wait_for_next_trap (xw_pid w) (xw_stat w) (xw_info w)) \<in> {WAIT_STOP, WAIT_SYSCALL, WAIT_SIGCHLD})"

lemma syscall_exit_plain:
  assumes "plain_exit w"
  shows "syscall_exit T regs pid i ev [w] st =
    (Ptrace_syscall pid # fst (after_syscall T regs pid i ev st), snd (after_syscall T regs pid i ev st))"
  using assms by (auto simp: plain_exit_def split: prod.splits)

lemma track_iteration_syscall:
  assumes "find_memory_map (maps st) (env_pid e) = Some i"
    and "fst (wait_for_next_trap (env_pid e) (env_stat e) (env_info e)) = WAIT_SYSCALL"
    and "read_event e mode = Some ev"
  shows "track_iteration T mode e st = on_event T e i ev st"
  using assms by (simp add: track_iteration_def on_entry_wait_def Let_def)

context region_tree
begin

lemma after_syscall_keeps_owner:
  assumes "tracer_wf tinv ivls st" "i < length (maps st)"
    and fits: "\<forall>r ev'. regs = Some r \<and> update_event_with_result r ev = Some ev' \<longrightarrow> event_fits ev'"
    and fixed: "kernel_fixed_ok regs ev"
    and init: "init_finished (proc_map (maps st ! i))"
    and perm: "is_op_permitted T (proc_map (maps st ! i)) ev = Some True" and ev: "ev \<noteq> Exec"
    and at: "mm_at ivls (proc_map (maps st ! i)) a = Some s"
    and own: "owner_pkey s \<noteq> 0" "event_pkey ev \<noteq> Some (owner_pkey s)"
    and run: "after_syscall T regs pid i ev st = (acts, Next st')"
  shows "(\<exists>s'. mm_at ivls (proc_map (maps st' ! i)) a = Some s' \<and> owner_pkey s' = owner_pkey s) \<and>
    (\<forall>j. j \<noteq> i \<longrightarrow> maps st' ! j = maps st ! j)"
proof -
  obtain r where r: "regs = Some r" using run by (cases regs) (auto simp: after_syscall_def)
  show ?thesis
  proof (cases "update_event_with_result r ev")
    case None
    then show ?thesis using run r at by (auto simp: after_syscall_def)
  next
    case (Some ev')
    note same = update_event_permitted [OF Some fixed [unfolded r]]
    obtain b M where u: "update_memory_map T ev' (proc_map (maps st ! i)) = Updated (b, M)"
      using run r Some
      by (cases "update_memory_map T ev' (proc_map (maps st ! i))") (auto simp: after_syscall_def)
    then have st': "st' = st\<lparr>maps := (maps st)[i := (maps st ! i)\<lparr>proc_map := M\<rparr>]\<rparr>"
      using run r Some by (auto simp: after_syscall_def split: bool.splits)
    have "\<exists>s'. mm_at ivls M a = Some s' \<and> owner_pkey s' = owner_pkey s"
      using update_keeps_owner [OF _ init _ _ u _ at own(1)] fits r Some
        tracer_wf_nth [OF assms(1,2)] perm ev own(2) by (simp add: same)
    then show ?thesis unfolding st' using assms(2) by simp
  qed
qed

lemma iteration_keeps_owner:
  assumes wf: "tracer_wf tinv ivls st" "kernel_ranges_ok mode e"
    and ev: "find_memory_map (maps st) (env_pid e) = Some i"
      "fst (wait_for_next_trap (env_pid e) (env_stat e) (env_info e)) = WAIT_SYSCALL"
      "read_event e mode = Some ev" "ev \<noteq> Exec"
    and exit: "env_exit_waits e = [w]" "plain_exit w" "kernel_fixed_ok (env_exit_regs e) ev"
    and init: "init_finished (proc_map (maps st ! i))"
    and at: "mm_at ivls (proc_map (maps st ! i)) a = Some s"
    and own: "owner_pkey s \<noteq> 0" "event_pkey ev \<noteq> Some (owner_pkey s)"
    and run: "track_iteration T mode e st = (acts, Next st')"
  shows "(\<exists>s'. mm_at ivls (proc_map (maps st' ! i)) a = Some s' \<and> owner_pkey s' = owner_pkey s) \<and>
    (\<forall>j. j \<noteq> i \<longrightarrow> maps st' ! j = maps st ! j)"
proof -
  have oe: "on_event T e i ev st = (acts, Next st')"
    using run track_iteration_syscall [OF ev(1-3)] by simp
  have ni: "\<not> event_marks_init_finished ev"
    using oe init by (auto simp: on_event_def Let_def memory_map_mark_init_finished_def)
  show ?thesis
  proof (cases "event_is_request_proc_self_maps ev")
    case True
    then have "st' = st" using oe ni by (auto simp: on_event_def Let_def split: if_splits)
    then show ?thesis using at by simp
  next
    case False
    show ?thesis
    proof (cases "is_op_permitted T (proc_map (maps st ! i)) ev")
      case None
      then show ?thesis using oe ni False by (auto simp: on_event_def Let_def)
    next
      case (Some ok)
      show ?thesis
      proof (cases ok)
        case True
        then have "snd (after_syscall T (env_exit_regs e) (env_pid e) i ev st) = Next st'"
          using oe ni False Some exit(1)
          by (simp add: on_event_def Let_def syscall_exit_plain [OF exit(2)] del: syscall_exit.simps)
        then obtain acts2 where "after_syscall T (env_exit_regs e) (env_pid e) i ev st = (acts2, Next st')"
          by (metis prod.collapse)
        moreover have fits: "\<forall>r ev'. env_exit_regs e = Some r \<and> update_event_with_result r ev = Some ev' \<longrightarrow> event_fits ev'"
          using kernel_ranges_okD [OF wf(2) _ ev(3)] by blast
        moreover have "is_op_permitted T (proc_map (maps st ! i)) ev = Some True" using Some True by simp
        ultimately show ?thesis
          using after_syscall_keeps_owner [OF wf(1) _ fits exit(3) init _ ev(4) at own]
            find_memory_map_Some [OF ev(1)] by blast
      next
        case notok: False
        then have "st' = st" using oe ni False Some by (auto simp: on_event_def Let_def split: if_splits)
        then show ?thesis using at by simp
      qed
    qed
  qed
qed

end

section \<open>Loading the initial map\<close>

fun line_fits :: "maps_line \<Rightarrow> bool" where
  "line_fits (Maps_entry s e p) = (s < e \<and> e + 0xFFF < usize_bound)"
| "line_fits Maps_mismatch = True"

context region_tree
begin

lemma add_entry_inv:
  assumes "s < e" "e + 0xFFF < usize_bound" "\<And>M. m = Some M \<Longrightarrow> mm_inv tinv ivls M"
    and "add_memory_map_entry T s e p m = Some (Some M')"
  shows "mm_inv tinv ivls M'"
proof (cases m)
  case None
  then show ?thesis using assms(4) by (simp add: add_memory_map_entry_def)
next
  case (Some M)
  let ?r = "\<lparr>start = s, rlen = usize_sub e s\<rparr>"
  have fits: "range_fits ?r" using assms(1,2) by (simp add: range_fits_def usize_simps)
  obtain x where "memory_map_add_region T ?r 0 (prot_of_perms p) M = Some x" "snd x = M'"
    using assms(4) Some by (auto simp: add_memory_map_entry_def split_def)
  then have "memory_map_add_region T ?r 0 (prot_of_perms p) M = Some (fst x, M')" by auto
  then show ?thesis using memory_map_add_region_view(1) [OF assms(3) [OF Some] fits] by blast
qed

lemma foreach_inv:
  assumes "\<forall>l \<in> set ls. line_fits l" "\<And>M. m = Some M \<Longrightarrow> mm_inv tinv ivls M"
    and "ia2_memory_map_foreach T ls m = Some (Some M')"
  shows "mm_inv tinv ivls M'"
  using assms
proof (induction ls arbitrary: m)
  case (Cons l ls)
  show ?case
  proof (cases l)
    case (Maps_entry s e p)
    obtain m' where m': "add_memory_map_entry T s e p m = Some m'"
      "ia2_memory_map_foreach T ls m' = Some (Some M')"
      using Cons.prems(3) Maps_entry by (auto simp: bind_eq_Some_conv)
    have "mm_inv tinv ivls M1" if "m' = Some M1" for M1
      using add_entry_inv [OF _ _ Cons.prems(2)] m'(1) that Cons.prems(1) Maps_entry by auto
    then show ?thesis using Cons.IH [OF _ _ m'(2)] Cons.prems(1) by simp
  next
    case Maps_mismatch
    then show ?thesis using Cons.IH [of None] Cons.prems by (simp add: fail_loading_memory_map_def)
  qed
qed simp

end

section \<open>Runs of the tracer\<close>

text \<open>The states the loop passes through, each iteration with some answers of the kernel.\<close>
inductive tracer_steps :: "'t tree \<Rightarrow> trace_mode \<Rightarrow> 't tracer \<Rightarrow> 't tracer \<Rightarrow> bool"
  for T :: "'t tree" and mode :: trace_mode where
  steps_refl: "tracer_steps T mode st st"
| steps_iter: "tracer_steps T mode st st1 \<Longrightarrow> kernel_ranges_ok mode e \<Longrightarrow>
    track_iteration T mode e st1 = (acts, Next st2) \<Longrightarrow> tracer_steps T mode st st2"

inductive_cases steps_iterE: "tracer_steps T mode st st2"

lemma tracer_steps_wf:
  assumes "region_tree T tinv ivls" "tracer_steps T mode st st'" "tracer_wf tinv ivls st"
  shows "tracer_wf tinv ivls st'"
  using assms(2,3)
  by (induction rule: tracer_steps.induct) (auto intro: region_tree.track_iteration_keeps_wf [OF assms(1)])

section \<open>A concrete tracer\<close>

definition sample_tracer :: "State ivl list tracer" where
  "sample_tracer = \<lparr> maps = [\<lparr> proc_map = sample_map, pids = [100] \<rparr>], base = 0, pending_pids = [] \<rparr>"

text \<open>Thread 100 stops at a system call with compartment 1 active; the call succeeds.\<close>
definition sample_env :: "u64 \<Rightarrow> u64 \<Rightarrow> tracer_env" where
  "sample_env nr addr =
    (let regs = \<lparr> reg_pc = 0, reg_syscall = nr, reg_retval = 0, reg_arg0 = addr, reg_arg1 = 0x1000,
                  reg_arg2 = 0, reg_arg3 = 0, reg_arg4 = 0 \<rparr>;
         w = \<lparr> xw_stat = 0x857f, xw_info = SigInfo_ok, xw_msg = Some 101, xw_pid = 100 \<rparr>
     in \<lparr> env_pid = 100, env_stat = 0x857f, env_info = SigInfo_ok, env_msg = Some 101,
          env_realloc_moves = True, env_regs = Some regs, env_pkru = Some 0xFFFFFFF0,
          env_init_wait = w, env_poke_result = 0, env_continue_ok = True,
          env_exit_waits = [w], env_exit_regs = Some regs \<rparr>)"

lemma wait_0x857f: "wait_for_next_trap 100 0x857f SigInfo_ok = (WAIT_SYSCALL, None)"
  by (simp add: wait_for_next_trap_def WIFEXITED_def WIFSIGNALED_def WIFSTOPPED_def WSTOPSIG_def
      WEXITSTATUS_def stop_signal_result_def ptrace_event_result_def Let_def)

lemma pkey_for_pkru_1: "pkey_for_pkru 0xFFFFFFF0 = 1"
  by (simp add: pkey_for_pkru_def PKRU_table PKRU_table(2) [simplified])

lemma sample_event:
  "read_event (sample_env 11 addr) TRACE_MODE_SECCOMP =
    Some (Munmap \<lparr> munmap_range = \<lparr> start = unat addr, rlen = 0x1000 \<rparr>, munmap_pkey = 1 \<rparr>)"
  by (simp add: read_event_def sample_env_def Let_def pkey_for_pkru_1 PKEY_INVALID_def
      interpret_syscall_def event_from_syscall_def reg_range_def)

lemma sample_tracer_wf: "tracer_wf ivls_ok (\<lambda>xs. xs) sample_tracer"
  using sample_map_inv by (simp add: tracer_wf_def sample_tracer_def)

lemma sample_env_simps [simp]:
  "env_pid (sample_env nr addr) = 100" "env_stat (sample_env nr addr) = 0x857f"
  "env_info (sample_env nr addr) = SigInfo_ok" "env_continue_ok (sample_env nr addr)"
  "env_exit_waits (sample_env nr addr) =
    [\<lparr> xw_stat = 0x857f, xw_info = SigInfo_ok, xw_msg = Some 101, xw_pid = 100 \<rparr>]"
  by (simp_all add: sample_env_def Let_def)

lemma sample_exit_event:
  "env_exit_regs (sample_env 11 addr) = Some r \<Longrightarrow> update_event_with_result r (Munmap i) = Some (Munmap i)"
  by (auto simp: sample_env_def Let_def update_event_with_result_def)

lemma sample_ranges_ok: "kernel_ranges_ok TRACE_MODE_SECCOMP (sample_env 11 0x4000)"
  by (auto simp: kernel_ranges_ok_def sample_event sample_exit_event range_fits_def usize_bound_def
      split: option.splits)

lemma sample_find: "find_memory_map (maps sample_tracer) 100 = Some 0"
  by (simp add: sample_tracer_def)

lemma sample_run_munmap:
  "track_iteration list_tree TRACE_MODE_SECCOMP (sample_env 11 0x4000) sample_tracer =
    ([Ptrace_syscall 100, Ptrace_continue 100 0],
     Next (sample_tracer\<lparr>maps := [\<lparr> proc_map = sample_map\<lparr>regions :=
       [(0x1000, 0x3000, \<lparr> owner_pkey = 2, pkey_mprotected = True, mprotected = False, prot = 3 \<rparr>)]\<rparr>,
       pids = [100] \<rparr>]\<rparr>))"
proof -
  have ev: "Munmap \<lparr> munmap_range = \<lparr> start = unat (0x4000 :: u64), rlen = 0x1000 \<rparr>, munmap_pkey = 1 \<rparr> = sample_munmap"
    by (simp add: sample_munmap_def)
  have M: "proc_map (maps sample_tracer ! 0) = sample_map" by (simp add: sample_tracer_def)
  obtain r where r: "env_exit_regs (sample_env 11 0x4000) = Some r"
    by (simp add: sample_env_def Let_def)
  have "track_iteration list_tree TRACE_MODE_SECCOMP (sample_env 11 0x4000) sample_tracer =
      on_event list_tree (sample_env 11 0x4000) 0 sample_munmap sample_tracer"
    using track_iteration_syscall [of sample_tracer "sample_env 11 0x4000" 0] sample_find wait_0x857f
      sample_event [of "0x4000"] ev by simp
  also have "\<dots> = syscall_exit list_tree (Some r) 100 0 sample_munmap
      (env_exit_waits (sample_env 11 0x4000)) sample_tracer"
    using sample_munmap_permitted by (simp add: on_event_def Let_def M r sample_munmap_def)
  also have "\<dots> = (Ptrace_syscall 100 # fst (after_syscall list_tree (Some r) 100 0 sample_munmap sample_tracer),
      snd (after_syscall list_tree (Some r) 100 0 sample_munmap sample_tracer))"
    unfolding sample_env_simps by (rule syscall_exit_plain) (simp add: plain_exit_def wait_0x857f)
  finally show ?thesis
    using sample_munmap_update sample_exit_event [OF r]
    by (simp add: after_syscall_def M sample_munmap_def sample_tracer_def)
qed







text \<open>
  C32. Thread bookkeeping: when a tracked thread exits, exactly that thread is
  forgotten, a process without threads loses its map, and the loop ends
  exactly when no process is left.
\<close>
theorem thread_exit_bookkeeping:
  assumes "distinct (concat (map pids ms))" "find_memory_map ms pid = Some i"
    and "\<forall>m \<in> set ms. pids m \<noteq> []"
    and "handle_thread_exit ms pid = (cf, ms')"
  shows "mset (concat (map pids ms')) = mset (concat (map pids ms)) - {#pid#} \<and>
    find_memory_map ms' pid = None \<and> (\<forall>m \<in> set ms'. pids m \<noteq> []) \<and>
    cf = (if ms' = [] then RETURN_TRUE else CONTINUE)"
proof -
  note i = find_memory_map_Some [OF assms(2)]
  have "remove_pid (ms ! i) pid \<noteq> None"
    using i index_of_None [of pid "pids (ms ! i)"] by (auto simp: remove_pid_def split: option.splits)
  then obtain m where m: "remove_pid (ms ! i) pid = Some m" by blast
  note rm = remove_pid_Some [OF m]
  have ms': "ms' = (if pids m = [] then swap_remove i (ms[i := m]) else ms[i := m])"
    and cf: "cf = (if ms' = [] then RETURN_TRUE else CONTINUE)"
    using assms(4) assms(2) m i by (auto simp: handle_thread_exit_def remove_map_def Let_def split: if_splits)
  have split: "mset ms = add_mset (ms ! i) (mset ms - {#ms ! i#})" using i by simp
  let ?S = "\<Sum>\<^sub># (image_mset (\<lambda>m. mset (pids m)) (mset ms - {#ms ! i#}))"
  have old: "mset (concat (map pids ms)) = mset (pids (ms ! i)) + ?S"
    unfolding mset_concat_pids by (subst split) simp
  have upd: "mset (ms[i := m]) = add_mset m (mset ms - {#ms ! i#})" using i by (simp add: mset_update)
  have "mset (concat (map pids ms')) = mset (pids m) + ?S"
    unfolding mset_concat_pids ms' using mset_swap_remove [of i "ms[i := m]"] i upd by simp
  then have total: "mset (concat (map pids ms')) = mset (concat (map pids ms)) - {#pid#}"
    unfolding old using rm by simp
  have "pid \<notin># mset (concat (map pids ms'))"
    unfolding total using assms(1) [unfolded distinct_count_atmost_1] by (simp add: not_in_iff)
  then have "find_memory_map ms' pid = None" by (auto simp: find_memory_map_None)
  moreover have "set ms' \<subseteq> insert m (set ms)"
    using ms' set_update_subset_insert [of ms i m] set_swap_remove [of i "ms[i := m]"] i by auto
  moreover have "m \<notin> set ms'" if "pids m = []"
    using ms' that mset_swap_remove [of i "ms[i := m]"] i upd assms(3)
    by (auto simp flip: set_mset_mset dest: in_diffD)
  ultimately show ?thesis using total cf assms(3) by auto
qed

theorem thread_exit_bookkeeping_witness:
  "mset (concat (map pids [\<lparr> proc_map = sample_map, pids = [9, 8] \<rparr>])) = mset [7, 8, 9] - {#7#}"
  using thread_exit_bookkeeping [of "[\<lparr> proc_map = sample_map, pids = [7, 8, 9] \<rparr>]" 7 0 CONTINUE
      "[\<lparr> proc_map = sample_map, pids = [9, 8] \<rparr>]"]
  by (simp add: handle_thread_exit_def remove_pid_def swap_remove_def Let_def)

text \<open>
  The pointer to the current process' entry is used after \<open>add_map\<close> may have
  moved the array: a fork stop whose \<open>realloc\<close> moves the block makes the tracer
  read the map of the process through a dangling pointer.
\<close>
lemma fork_uses_dangling_pointer:
  assumes "find_memory_map (maps st) (env_pid e) = Some i"
    and "fst (wait_for_next_trap (env_pid e) (env_stat e) (env_info e)) = WAIT_PTRACE_FORK"
    and "env_msg e = Some child" "env_realloc_moves e" "read_event e mode = Some ev"
  shows "snd (track_iteration T mode e st) = Dangling"
proof -
  obtain acts st1 where a: "adopt_child st child = (acts, st1)" by fastforce
  then have "base st1 = base st" "maps st1 = maps st"
    by (auto simp: adopt_child_def split: prod.splits bool.splits)
  then show ?thesis using assms a by (simp add: track_iteration_def on_entry_wait_def Let_def)
qed

lemma fork_uses_dangling_pointer_witness:
  "snd (track_iteration list_tree TRACE_MODE_SECCOMP
     ((sample_env 56 0)\<lparr>env_stat := 0x1057f\<rparr>) sample_tracer) = Dangling"
proof -
  have "fst (wait_for_next_trap 100 0x1057f SigInfo_ok) = WAIT_PTRACE_FORK"
    by (simp add: wait_for_next_trap_def WIFEXITED_def WIFSIGNALED_def WIFSTOPPED_def
        ptrace_event_result_def Let_def word_sless_alt)
  moreover have "read_event ((sample_env 56 0)\<lparr>env_stat := 0x1057f\<rparr>) TRACE_MODE_SECCOMP = Some Clone"
    by (simp add: read_event_def sample_env_def Let_def pkey_for_pkru_1 PKEY_INVALID_def
        interpret_syscall_def event_from_syscall_def)
  ultimately show ?thesis
    using fork_uses_dangling_pointer [of sample_tracer "(sample_env 56 0)\<lparr>env_stat := 0x1057f\<rparr>" 0 101] sample_find
    by (simp add: sample_env_def Let_def)
qed

section \<open>Copying into the tracee\<close>

lemma ptrace_memcpy_bytes:
  "concat (map snd (ptrace_memcpy dest n src)) = take (8 * n) src"
  by (induction dest n src rule: ptrace_memcpy.induct) (simp_all add: take_add)

text \<open>
  What \<open>poke_proc_self_maps\<close> writes for a single chunk that fits: only whole
  eight-byte words reach the tracee, while the returned length counts every
  byte, so the last \<open>length buf mod 8\<close> bytes are reported but never written.
\<close>
lemma poke_drops_tail:
  assumes "buf \<noteq> []" "length buf \<le> len"
  shows "concat (map snd (fst (poke_proc_self_maps addr len 0 [buf]))) = take (8 * (length buf div 8)) buf \<and>
    snd (poke_proc_self_maps addr len 0 [buf]) = length buf"
  using assms by (cases buf) (simp_all add: Let_def ptrace_memcpy_bytes)

lemma poke_drops_tail_witness:
  "concat (map snd (fst (poke_proc_self_maps 0 64 0 [''0123456789'']))) = ''01234567'' \<and>
    snd (poke_proc_self_maps 0 64 0 [''0123456789'']) = 10"
  using poke_drops_tail [of "''0123456789''" 64 0] by simp

end
