(* ===== verification/Map_Refinement.thy ===== *)
theory Map_Refinement
  imports Policy_Safety
begin

text \<open>
  The tracer's bookkeeping against an abstract machine that has no regions at
  all: a map from addresses to states, which each system call changes pointwise.
  The permission check and the update of the interval map compute exactly what
  the abstract machine does, failures and panics included.
\<close>

section \<open>The abstract machine\<close>

type_synonym page_map = "nat \<Rightarrow> State option"

text \<open>The addresses of all pages a range touches.\<close>
definition touched :: "Range \<Rightarrow> nat set" where
  "touched r = {a. rounded_lo r \<le> a \<and> a < rounded_hi r}"

definition states_in :: "page_map \<Rightarrow> Range \<Rightarrow> State set" where
  "states_in m r = {s. \<exists>a \<in> touched r. m a = Some s}"

definition page_unmap :: "Range \<Rightarrow> page_map \<Rightarrow> page_map" where
  "page_unmap r m = (\<lambda>a. if a \<in> touched r then None else m a)"

definition page_add :: "Range \<Rightarrow> u8 \<Rightarrow> u32 \<Rightarrow> page_map \<Rightarrow> bool \<times> page_map" where
  "page_add r k p m =
    (if states_in m r = {}
     then (True, \<lambda>a. if a \<in> touched r
       then Some \<lparr>owner_pkey = k, pkey_mprotected = False, mprotected = False, prot = p\<rparr> else m a)
     else (False, m))"

text \<open>Change the states of a range whose pages are all mapped and all satisfy a test.\<close>
definition page_change :: "Range \<Rightarrow> (State \<Rightarrow> bool) \<Rightarrow> (State \<Rightarrow> State) \<Rightarrow> page_map \<Rightarrow> bool \<times> page_map" where
  "page_change r P f m =
    (if \<forall>a \<in> touched r. \<exists>s. m a = Some s \<and> P s
     then (True, \<lambda>a. if a \<in> touched r then map_option f (m a) else m a)
     else (False, m))"

text \<open>The protection all pages share: none if nothing is mapped, a marker if they differ.\<close>
definition page_prot :: "page_map \<Rightarrow> Range \<Rightarrow> u32 option" where
  "page_prot m r =
    (let ps = prot ` states_in m r in
     if ps = {} then None else if is_singleton ps then Some (the_elem ps) else Some PROT_INDETERMINATE)"

definition page_mremap :: "mremap_info \<Rightarrow> page_map \<Rightarrow> (bool \<times> page_map) update_result" where
  "page_mremap i m =
    (case page_prot m (old_range i) of
       None \<Rightarrow> Panicked
     | Some p \<Rightarrow>
         if p = PROT_INDETERMINATE then TracerExit
         else Updated (page_add (new_range i) (mremap_pkey i) p
           (if has_flag (mremap_flags i) MREMAP_DONTUNMAP then m else page_unmap (old_range i) m)))"

fun page_update :: "bool \<Rightarrow> traced_event \<Rightarrow> page_map \<Rightarrow> (bool \<times> page_map) update_result" where
  "page_update init (Mmap i) m =
    Updated (page_add (mmap_range i) (if has_flag (mmap_flags i) MAP_STACK then 0 else mmap_pkey i) (mmap_prot i)
      (if has_flag (mmap_flags i) MAP_FIXED then page_unmap (mmap_range i) m else m))"
| "page_update init (Munmap i) m = Updated (True, page_unmap (munmap_range i) m)"
| "page_update init (Mremap i) m = page_mremap i m"
| "page_update init (Mprotect i) m =
    Updated (page_change (mprotect_range i) (\<lambda>_. True) (\<lambda>s. s\<lparr>mprotected := True, prot := mprotect_prot i\<rparr>) m)"
| "page_update init (PkeyMprotect i) m =
    Updated (page_change (pkey_mprotect_range i)
      (\<lambda>s. init \<longrightarrow> owner_pkey s \<in> {0, new_owner_pkey i} \<and> \<not> pkey_mprotected s)
      (\<lambda>s. s\<lparr>pkey_mprotected := True, owner_pkey := new_owner_pkey i\<rparr>) m)"
| "page_update init Exec m = Updated (True, \<lambda>_. None)"
| "page_update init _ m = Updated (True, m)"

text \<open>What the policy asks about the pages.\<close>
fun page_permitted :: "bool \<Rightarrow> traced_event \<Rightarrow> page_map \<Rightarrow> bool option" where
  "page_permitted init (Mmap i) m =
    Some (has_flag (mmap_flags i) MAP_FIXED \<longrightarrow> owner_pkey ` states_in m (mmap_range i) \<subseteq> {mmap_pkey i})"
| "page_permitted init (Munmap i) m = Some (owner_pkey ` states_in m (munmap_range i) \<subseteq> {munmap_pkey i})"
| "page_permitted init (Mremap i) m = Some (owner_pkey ` states_in m (old_range i) \<subseteq> {mremap_pkey i})"
| "page_permitted init (Madvise i) m = Some (owner_pkey ` states_in m (madvise_range i) \<subseteq> {madvise_pkey i})"
| "page_permitted init (Mprotect i) m =
    (if \<not> init \<or> True \<notin> mprotected ` states_in m (mprotect_range i) then Some True
     else map_option (\<lambda>p. p \<noteq> PROT_INDETERMINATE \<and> has_flag p PROT_WRITE \<or> p = mprotect_prot i)
       (page_prot m (mprotect_range i)))"
| "page_permitted init (PkeyMprotect i) m =
    Some (if new_owner_pkey i = pkey_mprotect_pkey i
          then True \<notin> pkey_mprotected ` states_in m (pkey_mprotect_range i)
          else pkey_mprotect_pkey i = 0)"
| "page_permitted init _ m = Some True"

text \<open>The map of an outcome, seen as pages.\<close>
fun view_result :: "('t memory_map \<Rightarrow> page_map) \<Rightarrow> (bool \<times> 't memory_map) update_result \<Rightarrow> (bool \<times> page_map) update_result" where
  "view_result f (Updated (b, M)) = Updated (b, f M)"
| "view_result f Panicked = Panicked"
| "view_result f TracerExit = TracerExit"

section \<open>Simulation\<close>

lemma ex_touched: "(\<exists>a \<in> touched r. P a) \<longleftrightarrow> (\<exists>a. rounded_lo r \<le> a \<and> a < rounded_hi r \<and> P a)"
  by (auto simp: touched_def)

lemma states_in_subset:
  "f ` states_in m r \<subseteq> {k} \<longleftrightarrow>
    (\<forall>a v. rounded_lo r \<le> a \<and> a < rounded_hi r \<and> m a = Some v \<longrightarrow> f v = k)"
  by (auto simp: states_in_def touched_def)

lemma states_in_true:
  "True \<notin> f ` states_in m r \<longleftrightarrow>
    (\<forall>a v. rounded_lo r \<le> a \<and> a < rounded_hi r \<and> m a = Some v \<longrightarrow> f v = False)"
  by (auto simp: states_in_def touched_def)

lemma states_in_empty: "states_in m r = {} \<longleftrightarrow> (\<forall>a. rounded_lo r \<le> a \<and> a < rounded_hi r \<longrightarrow> m a = None)"
  by (auto simp: states_in_def touched_def) (metis not_None_eq)

lemma states_in_unmap [simp]: "states_in (page_unmap r m) r = {}"
  by (auto simp: states_in_def page_unmap_def)

lemma is_singleton_insert: "is_singleton (insert x X) \<longleftrightarrow> X \<subseteq> {x}"
  by (auto simp: is_singleton_def)

context region_tree
begin

lemma states_in_overlapped:
  assumes "mm_inv tinv ivls M" "range_fits r"
  shows "states_in (mm_at ivls M) r = (\<lambda>i. snd (snd i)) ` set (overlapped ivls M r)"
  using overlapped_values [OF assms] by (auto simp: states_in_def ex_touched image_iff)

lemma get_prot_pages:
  assumes "mm_inv tinv ivls M" "range_fits r"
  shows "memory_map_region_get_prot T M r = page_prot (mm_at ivls M) r"
proof -
  note eq = all_overlapping_regions_def range_regions_unrounded [OF assms]
  show ?thesis
  proof (cases "overlapped ivls M r")
    case Nil
    then show ?thesis
      by (simp add: memory_map_region_get_prot_def page_prot_def eq states_in_overlapped [OF assms])
  next
    case (Cons i xs)
    let ?p = "prot (snd (snd i))" and ?X = "(\<lambda>j. prot (snd (snd j))) ` set xs"
    have ps: "prot ` states_in (mm_at ivls M) r = insert ?p ?X"
      by (simp add: states_in_overlapped [OF assms] Cons image_image)
    have "the_elem (insert ?p ?X) = ?p" if "?X \<subseteq> {?p}"
    proof -
      have "insert ?p ?X = {?p}" using that by blast
      then show ?thesis by (simp only: the_elem_eq)
    qed
    moreover have "memory_map_region_get_prot T M r = (if ?X \<subseteq> {?p} then Some ?p else Some PROT_INDETERMINATE)"
      using Cons by (auto simp: memory_map_region_get_prot_def eq split: bool.splits)
    ultimately show ?thesis by (simp add: page_prot_def ps is_singleton_insert Let_def)
  qed
qed

lemma add_pages:
  assumes "mm_inv tinv ivls M" "range_fits r"
  shows "\<exists>b M'. memory_map_add_region T r k p M = Some (b, M') \<and>
    (b, mm_at ivls M') = page_add r k p (mm_at ivls M)"
proof -
  let ?s = "\<lparr>owner_pkey = k, pkey_mprotected = False, mprotected = False, prot = p\<rparr>"
  obtain b M' where "add_region T r ?s M = Some (b, M')"
    "b \<longleftrightarrow> states_in (mm_at ivls M) r = {}" "\<not> b \<longrightarrow> M' = M"
    "b \<longrightarrow> (\<forall>a. mm_at ivls M' a = (if rounded_lo r \<le> a \<and> a < rounded_hi r then Some ?s else mm_at ivls M a))"
    using add_region_view [OF assms, of ?s] unfolding states_in_empty by (elim exE conjE)
  then show ?thesis
    by (intro exI [of _ b] exI [of _ M'])
      (auto simp: memory_map_add_region_def page_add_def touched_def fun_eq_iff)
qed

lemma unmap_pages:
  assumes "mm_inv tinv ivls M" "range_fits r"
  shows "\<exists>M'. memory_map_unmap_region T r M = Some M' \<and> mm_inv tinv ivls M' \<and>
    mm_at ivls M' = page_unmap r (mm_at ivls M)"
  using unmap_region_view [OF assms] by (auto simp: page_unmap_def touched_def fun_eq_iff)

lemma unmap_add_pages:
  assumes "mm_inv tinv ivls M" "range_fits r" "range_fits r2"
  shows "view_result (mm_at ivls) (updated (do { M1 \<leftarrow> memory_map_unmap_region T r M;
      memory_map_add_region T r2 k p M1 })) = Updated (page_add r2 k p (page_unmap r (mm_at ivls M)))"
proof -
  obtain M1 where M1: "memory_map_unmap_region T r M = Some M1" "mm_inv tinv ivls M1"
    "mm_at ivls M1 = page_unmap r (mm_at ivls M)" using unmap_pages [OF assms(1,2)] by (elim exE conjE)
  obtain b M2 where "memory_map_add_region T r2 k p M1 = Some (b, M2)"
    "(b, mm_at ivls M2) = page_add r2 k p (mm_at ivls M1)" using add_pages [OF M1(2) assms(3), of k p] by (elim exE conjE)
  then show ?thesis using M1 by simp
qed

lemma add_only_pages:
  assumes "mm_inv tinv ivls M" "range_fits r"
  shows "view_result (mm_at ivls) (updated (memory_map_add_region T r k p M)) = Updated (page_add r k p (mm_at ivls M))"
proof -
  obtain b M2 where "memory_map_add_region T r k p M = Some (b, M2)"
    "(b, mm_at ivls M2) = page_add r k p (mm_at ivls M)" using add_pages [OF assms, of k p] by (elim exE conjE)
  then show ?thesis by simp
qed

lemma mprotect_pages:
  assumes "mm_inv tinv ivls M" "range_fits r"
  shows "view_result (mm_at ivls) (updated (memory_map_mprotect_region T r p M)) =
    Updated (page_change r (\<lambda>_. True) (\<lambda>s. s\<lparr>mprotected := True, prot := p\<rparr>) (mm_at ivls M))"
proof -
  have st: "mprotect_state p = (\<lambda>s. s\<lparr>mprotected := True, prot := p\<rparr>)"
    by (simp add: mprotect_state_def fun_eq_iff)
  obtain b M' where M': "memory_map_mprotect_region T r p M = Some (b, M')"
    "b \<longleftrightarrow> (\<forall>a. rounded_lo r \<le> a \<and> a < rounded_hi r \<longrightarrow> mm_at ivls M a \<noteq> None)" "\<not> b \<longrightarrow> M' = M"
    "b \<longrightarrow> (\<forall>a. mm_at ivls M' a = (if rounded_lo r \<le> a \<and> a < rounded_hi r
       then map_option (mprotect_state p) (mm_at ivls M a) else mm_at ivls M a))"
    using mprotect_region_view [OF assms, of p] by (elim exE conjE)
  have "b \<longleftrightarrow> (\<forall>a \<in> touched r. \<exists>s. mm_at ivls M a = Some s \<and> True)"
    using M'(2) by (auto simp: touched_def)
  then show ?thesis using M'(1,3,4) by (cases b) (simp_all add: page_change_def touched_def fun_eq_iff st)
qed

lemma pkey_mprotect_pages:
  assumes "mm_inv tinv ivls M" "range_fits r"
  shows "view_result (mm_at ivls) (updated (memory_map_pkey_mprotect_region T r k M)) =
    Updated (page_change r (\<lambda>s. init_finished M \<longrightarrow> owner_pkey s \<in> {0, k} \<and> \<not> pkey_mprotected s)
      (\<lambda>s. s\<lparr>pkey_mprotected := True, owner_pkey := k\<rparr>) (mm_at ivls M))"
proof -
  let ?P = "\<lambda>s. init_finished M \<longrightarrow> owner_pkey s \<in> {0, k} \<and> \<not> pkey_mprotected s"
  let ?f = "\<lambda>s. s\<lparr>pkey_mprotected := True, owner_pkey := k\<rparr>"
  obtain b M' where M': "memory_map_pkey_mprotect_region T r k M = Some (b, M')"
    "b \<longleftrightarrow> (\<forall>a. rounded_lo r \<le> a \<and> a < rounded_hi r \<longrightarrow> (\<exists>s. mm_at ivls M a = Some s \<and>
        (init_finished M \<longrightarrow> (owner_pkey s = k \<or> owner_pkey s = 0) \<and> \<not> pkey_mprotected s)))" "\<not> b \<longrightarrow> M' = M"
    "b \<longrightarrow> (\<forall>a. mm_at ivls M' a = (if rounded_lo r \<le> a \<and> a < rounded_hi r
       then map_option (pkey_mprotect_state (init_finished M) k) (mm_at ivls M a) else mm_at ivls M a))"
    using pkey_mprotect_region_view [OF assms, of k] by (elim exE conjE)
  have b: "b \<longleftrightarrow> (\<forall>a \<in> touched r. \<exists>s. mm_at ivls M a = Some s \<and> ?P s)"
    using M'(2) by (simp add: touched_def insert_iff disj_commute)
  have "pkey_mprotect_state (init_finished M) k s = ?f s" if "?P s" for s
    using that by (auto simp: pkey_mprotect_state_def Let_def)
  then have "b \<Longrightarrow> a \<in> touched r \<Longrightarrow>
      map_option (pkey_mprotect_state (init_finished M) k) (mm_at ivls M a) = map_option ?f (mm_at ivls M a)" for a
    using b by fastforce
  then have "b \<Longrightarrow> mm_at ivls M' a = (if a \<in> touched r then map_option ?f (mm_at ivls M a) else mm_at ivls M a)" for a
    using M'(4) by (simp add: touched_def)
  then show ?thesis using M'(1,3) b by (cases b) (simp_all add: page_change_def fun_eq_iff)
qed

lemma mremap_pages:
  assumes "mm_inv tinv ivls M" "range_fits (old_range i)" "range_fits (new_range i)"
  shows "view_result (mm_at ivls) (update_mremap T i M) = page_mremap i (mm_at ivls M)"
  using unmap_add_pages [OF assms] add_only_pages [OF assms(1,3)]
  by (simp add: update_mremap_def page_mremap_def get_prot_pages [OF assms(1,2)] split: option.splits)

lemma update_pages:
  assumes inv: "mm_inv tinv ivls M" and fits: "event_fits ev"
  shows "view_result (mm_at ivls) (update_memory_map T ev M) = page_update (init_finished M) ev (mm_at ivls M)"
proof (cases ev)
  case (Mmap i)
  then have f: "range_fits (mmap_range i)" using fits by simp
  show ?thesis using unmap_add_pages [OF inv f f] add_only_pages [OF inv f]
    by (simp add: Mmap update_mmap_def Let_def)
next
  case (Munmap i)
  then have f: "range_fits (munmap_range i)" using fits by simp
  obtain M' where "memory_map_unmap_region T (munmap_range i) M = Some M'"
    "mm_at ivls M' = page_unmap (munmap_range i) (mm_at ivls M)" using unmap_pages [OF inv f] by (elim exE conjE)
  then show ?thesis by (simp add: Munmap)
next
  case Exec
  have "mm_at ivls (memory_map_clear T M) = (\<lambda>_. None)"
    by (simp add: mm_at_def memory_map_clear_def default fun_eq_iff)
  then show ?thesis by (simp add: Exec)
qed (use inv fits in \<open>simp_all add: mremap_pages mprotect_pages pkey_mprotect_pages\<close>)

lemma permitted_pages:
  assumes inv: "mm_inv tinv ivls M" and fits: "event_fits ev"
  shows "is_op_permitted T M ev = page_permitted (init_finished M) ev (mm_at ivls M)"
proof (cases ev)
  case (Mprotect i)
  then have f: "range_fits (mprotect_range i)" using fits by simp
  define b where "b \<longleftrightarrow> True \<notin> mprotected ` states_in (mm_at ivls M) (mprotect_range i)"
  have q: "memory_map_all_overlapping_regions_mprotected T M (mprotect_range i) False = b"
    unfolding b_def states_in_true by (rule mprotected_view [OF inv f])
  show ?thesis
    unfolding Mprotect is_op_permitted.simps page_permitted.simps mprotect_permitted_def get_prot_pages [OF inv f] q
      b_def [symmetric]
    by (cases "page_prot (mm_at ivls M) (mprotect_range i)") simp_all
next
  case (PkeyMprotect i)
  then have f: "range_fits (pkey_mprotect_range i)" using fits by simp
  have "memory_map_all_overlapping_regions_pkey_mprotected T M (pkey_mprotect_range i) False \<longleftrightarrow>
      True \<notin> pkey_mprotected ` states_in (mm_at ivls M) (pkey_mprotect_range i)"
    unfolding states_in_true by (rule pkey_mprotected_view [OF inv f])
  then show ?thesis
    unfolding PkeyMprotect is_op_permitted.simps page_permitted.simps pkey_mprotect_permitted_def Let_def
    by (simp only: option.inject) argo
qed (use inv fits in \<open>simp_all add: have_pkey_view states_in_subset\<close>)

end

text \<open>
  C8. The interval map refines a plain map from pages to states.  For every
  well-formed map and every system call whose ranges are nonempty and do not wrap
  around, the policy decides as the abstract machine does on the pages touched,
  and the bookkeeping has the abstract machine's outcome: the same new map, the
  same refusals, and a panic or exit of the tracer exactly for an \<open>mremap\<close> of
  unmapped or of differently protected pages.
\<close>
theorem tracer_map_refines_pages:
  assumes "region_tree T tinv ivls" "mm_inv tinv ivls M" "event_fits ev"
  shows "is_op_permitted T M ev = page_permitted (init_finished M) ev (mm_at ivls M) \<and>
    view_result (mm_at ivls) (update_memory_map T ev M) = page_update (init_finished M) ev (mm_at ivls M)"
  using region_tree.permitted_pages [OF assms] region_tree.update_pages [OF assms] by (rule conjI)

theorem tracer_map_refines_pages_witness:
  "\<exists>m. page_update True sample_munmap (mm_at (\<lambda>xs. xs) sample_map) = Updated (True, m) \<and> m 0x4000 = None \<and>
    m 0x2000 = mm_at (\<lambda>xs. xs) sample_map 0x2000 \<and> m 0x2000 \<noteq> None"
proof -
  have "event_fits sample_munmap" by (simp add: sample_munmap_def range_fits_def usize_bound_def)
  then have "view_result (mm_at (\<lambda>xs. xs)) (update_memory_map list_tree sample_munmap sample_map) =
      page_update True sample_munmap (mm_at (\<lambda>xs. xs) sample_map)"
    using tracer_map_refines_pages [OF region_list.region_tree_axioms sample_map_inv, of sample_munmap]
    by (simp add: sample_map_def)
  then have "page_update True sample_munmap (mm_at (\<lambda>xs. xs) sample_map) = Updated (True, mm_at (\<lambda>xs. xs)
      (sample_map\<lparr>regions := [(0x1000, 0x3000, \<lparr>owner_pkey = 2, pkey_mprotected = True, mprotected = False, prot = 3\<rparr>)]\<rparr>))"
    by (simp only: sample_munmap_update view_result.simps)
  then show ?thesis by (simp add: mm_at_def sample_map_def)
qed

end
