(* ===== verification/Asm.thy ===== *)
theory Asm
  imports Pkru "HOL-Library.Monad_Syntax"
begin

text \<open>
  The instructions that call gates are made of, and a machine that executes
  the x86-64 ones. Registers are named as in the generated text. Memory is a
  function from addresses to bytes; every data access is checked against the
  current PKRU and the protection key of the page, and a forbidden access has
  no successor state (\<^term>\<open>None\<close>), as has any AArch64 instruction. Calls
  to functions other than the register scrubber are a parameter of the machine.
\<close>

unbundle bit_operations_syntax

section \<open>Instructions\<close>

datatype arm_instr =
    Stp_pre string string \<comment> \<open>\<open>stp r1, r2, [sp, #-16]!\<close>\<close>
  | Ldp_post string string
  | Str_pre string
  | Ldr_post string
  | Mov_arm string string
  | Sub_imm string string nat
  | Add_imm string string nat
  | Add_arm string string string
  | Str_off nat string string nat \<comment> \<open>width in bytes, register, base, offset\<close>
  | Ldr_off nat string string nat
  | Mrs_tpidr string
  | Adrp_gottprel string nat
  | Ldr_gottprel string nat
  | Orr_tag string nat
  | Movz_tag nat
  | Bl string
  | Blr string

datatype instr =
    Comment string
  | Directive string
  | Label string
  | Pushq string
  | Popq string
  | Pushq_mem nat string \<comment> \<open>\<open>pushq off(%base)\<close>\<close>
  | Movq string string \<comment> \<open>\<open>movq %src, %dst\<close>\<close>
  | Movq_imm nat string
  | Load nat nat string string \<comment> \<open>\<open>mov{b,w,l,q} off(%base), %dst\<close>, width in bytes first\<close>
  | Store nat string nat string \<comment> \<open>\<open>mov{b,w,l,q} %src, off(%base)\<close>\<close>
  | Movdqu_store string \<comment> \<open>\<open>movdqu %xmm, (%rsp)\<close>\<close>
  | Movdqu_load string
  | Subq nat string
  | Addq nat string
  | Xorl string
  | Movl_imm u32 string
  | Wrpkru
  | Assert_pkru u32 \<comment> \<open>the macro \<open>ASSERT_PKRU\<close>\<close>
  | Mov_gottpoff nat string \<comment> \<open>\<open>mov ia2_stackptr_N@GOTTPOFF(%rip), %reg\<close>\<close>
  | Movq_to_fs string string \<comment> \<open>\<open>movq %src, %fs:(%reg)\<close>\<close>
  | Movq_from_fs string string
  | Call string
  | Call_reg string
  | Ret
  | Arm arm_instr
  | Movl string string \<comment> \<open>\<open>movl %src, %dst\<close> on the low halves; the upper half of \<open>dst\<close> becomes zero\<close>
  | Rdpkru
  | Andq u64 string
  | Store_abs string u64 \<comment> \<open>\<open>movq %src, var(%rip)\<close>, with the address of the variable\<close>
  | Load_abs u64 string
  | Cmpl_trap string string \<comment> \<open>\<open>cmpl %a, %b; je 2f; ud2; 2:\<close>\<close>
  | Jmp string \<comment> \<open>a jump to another function, which returns to our caller\<close>
  | Cmpq_fs_zero string \<comment> \<open>\<open>cmpq $0, %fs:(%reg); je 1f\<close>, an error report and \<open>ud2; 1:\<close>\<close>

section \<open>Machine\<close>

record machine =
  gpr :: "string \<Rightarrow> u64"
  xmm :: "string \<Rightarrow> 128 word"
  mem :: "int \<Rightarrow> u8"
  pkru :: u32

text \<open>What is fixed during a run: page keys, the thread pointer, thread-local offsets, and what calls do.\<close>
record machine_env =
  key_of :: "int \<Rightarrow> nat"
  fs_base :: u64
  tpoff :: "nat \<Rightarrow> u64"
  debug :: bool
  ret_addr :: u64
  callee :: "string \<Rightarrow> machine \<Rightarrow> machine option"
  callee_reg :: "u64 \<Rightarrow> machine \<Rightarrow> machine option"

text \<open>Little-endian access to \<open>n\<close> bytes.\<close>
fun read_bytes :: "(int \<Rightarrow> u8) \<Rightarrow> int \<Rightarrow> nat \<Rightarrow> nat" where
  "read_bytes m a 0 = 0"
| "read_bytes m a (Suc n) = unat (m a) + 256 * read_bytes m (a + 1) n"

definition write_bytes :: "(int \<Rightarrow> u8) \<Rightarrow> int \<Rightarrow> nat \<Rightarrow> nat \<Rightarrow> int \<Rightarrow> u8" where
  "write_bytes m a n v = (\<lambda>x. if a \<le> x \<and> x < a + int n then word_of_nat (v div 256 ^ nat (x - a)) else m x)"

definition readable :: "machine_env \<Rightarrow> machine \<Rightarrow> int \<Rightarrow> nat \<Rightarrow> bool" where
  "readable E s a n = list_all (\<lambda>i. pkru_may_read (pkru s) (key_of E (a + int i))) [0..<n]"

definition writable :: "machine_env \<Rightarrow> machine \<Rightarrow> int \<Rightarrow> nat \<Rightarrow> bool" where
  "writable E s a n = list_all (\<lambda>i. pkru_may_write (pkru s) (key_of E (a + int i))) [0..<n]"

definition load :: "machine_env \<Rightarrow> machine \<Rightarrow> int \<Rightarrow> nat \<Rightarrow> nat option" where
  "load E s a n = (if readable E s a n then Some (read_bytes (mem s) a n) else None)"

definition store :: "machine_env \<Rightarrow> int \<Rightarrow> nat \<Rightarrow> nat \<Rightarrow> machine \<Rightarrow> machine option" where
  "store E a n v s = (if writable E s a n then Some (s\<lparr>mem := write_bytes (mem s) a n v\<rparr>) else None)"

definition set_reg :: "string \<Rightarrow> u64 \<Rightarrow> machine \<Rightarrow> machine" where
  "set_reg r v s = s\<lparr>gpr := (gpr s)(r := v)\<rparr>"

definition set_xmm :: "string \<Rightarrow> 128 word \<Rightarrow> machine \<Rightarrow> machine" where
  "set_xmm r v s = s\<lparr>xmm := (xmm s)(r := v)\<rparr>"

definition addr :: "machine \<Rightarrow> string \<Rightarrow> nat \<Rightarrow> int" where
  "addr s base off = uint (gpr s base) + int off"

definition push64 :: "machine_env \<Rightarrow> u64 \<Rightarrow> machine \<Rightarrow> machine option" where
  "push64 E v s =
    (let s1 = set_reg ''rsp'' (gpr s ''rsp'' - 8) s in
     store E (uint (gpr s1 ''rsp'')) 8 (unat v) s1)"

definition pop64 :: "machine_env \<Rightarrow> machine \<Rightarrow> (u64 \<times> machine) option" where
  "pop64 E s =
    do { v \<leftarrow> load E s (uint (gpr s ''rsp'')) 8;
         Some (word_of_nat v, set_reg ''rsp'' (gpr s ''rsp'' + 8) s) }"

text \<open>\<open>__libia2_scrub_registers\<close>: \<open>vzeroall\<close>, then every general register but the stack and frame pointers.\<close>
definition scrubbed_registers :: "string list" where
  "scrubbed_registers = [''rax'', ''rbx'', ''rcx'', ''rdx'', ''rsi'', ''rdi'', ''r8'', ''r9'',
     ''r10'', ''r11'', ''r12'', ''r13'', ''r14'', ''r15'']"

definition vzeroall_registers :: "string list" where
  "vzeroall_registers = [''xmm0'', ''xmm1'', ''xmm2'', ''xmm3'', ''xmm4'', ''xmm5'', ''xmm6'', ''xmm7'',
     ''xmm8'', ''xmm9'', ''xmm10'', ''xmm11'', ''xmm12'', ''xmm13'', ''xmm14'', ''xmm15'']"

definition libia2_scrub_registers :: "machine \<Rightarrow> machine" where
  "libia2_scrub_registers s =
    s\<lparr>xmm := (\<lambda>r. if r \<in> set vzeroall_registers then 0 else xmm s r), gpr := (\<lambda>r. if r \<in> set scrubbed_registers then 0 else gpr s r)\<rparr>"

fun exec1 :: "machine_env \<Rightarrow> instr \<Rightarrow> machine \<Rightarrow> machine option" where
  "exec1 E (Comment _) s = Some s"
| "exec1 E (Directive _) s = Some s"
| "exec1 E (Label _) s = Some s"
| "exec1 E (Pushq r) s = push64 E (gpr s r) s"
| "exec1 E (Popq r) s = do { (v, s1) \<leftarrow> pop64 E s; Some (set_reg r v s1) }"
| "exec1 E (Pushq_mem off base) s =
    do { v \<leftarrow> load E s (addr s base off) 8; push64 E (word_of_nat v) s }"
| "exec1 E (Movq src dst) s = Some (set_reg dst (gpr s src) s)"
| "exec1 E (Movq_imm n dst) s = Some (set_reg dst (word_of_nat n) s)"
| "exec1 E (Load w off base dst) s =
    do { v \<leftarrow> load E s (addr s base off) w;
         Some (set_reg dst (if w \<ge> 4 then word_of_nat v
                            else word_of_nat (unat (gpr s dst) div 256 ^ w * 256 ^ w + v)) s) }"
| "exec1 E (Store w src off base) s = store E (addr s base off) w (unat (gpr s src) mod 256 ^ w) s"
| "exec1 E (Movdqu_store r) s = store E (uint (gpr s ''rsp'')) 16 (unat (xmm s r)) s"
| "exec1 E (Movdqu_load r) s =
    do { v \<leftarrow> load E s (uint (gpr s ''rsp'')) 16; Some (set_xmm r (word_of_nat v) s) }"
| "exec1 E (Subq n r) s = Some (set_reg r (gpr s r - word_of_nat n) s)"
| "exec1 E (Addq n r) s = Some (set_reg r (gpr s r + word_of_nat n) s)"
| "exec1 E (Xorl r) s = Some (set_reg r 0 s)"
| "exec1 E (Movl_imm v r) s = Some (set_reg r (ucast v) s)"
| "exec1 E Wrpkru s =
    (if gpr s ''rcx'' = 0 \<and> gpr s ''rdx'' = 0 then Some (s\<lparr>pkru := ucast (gpr s ''rax'')\<rparr>) else None)"
| "exec1 E (Assert_pkru v) s =
    (if \<not> debug E then Some s
     else if pkru s = v then
       Some (set_reg ''rax'' (ucast v) (set_reg ''r11'' (gpr s ''rdx'') (set_reg ''r10'' (gpr s ''rcx'') s)))
     else None)"
| "exec1 E (Mov_gottpoff n r) s = Some (set_reg r (tpoff E n) s)"
| "exec1 E (Movq_to_fs src r) s = store E (uint (fs_base E + gpr s r)) 8 (unat (gpr s src)) s"
| "exec1 E (Movq_from_fs r dst) s =
    do { v \<leftarrow> load E s (uint (fs_base E + gpr s r)) 8; Some (set_reg dst (word_of_nat v) s) }"
| "exec1 E (Call f) s =
    do { s1 \<leftarrow> push64 E (ret_addr E) s;
         if f = ''__libia2_scrub_registers''
         then do { (_, s2) \<leftarrow> pop64 E (libia2_scrub_registers s1); Some s2 }
         else callee E f s1 }"
| "exec1 E (Call_reg r) s = do { s1 \<leftarrow> push64 E (ret_addr E) s; callee_reg E (gpr s r) s1 }"
| "exec1 E Ret s = do { (_, s1) \<leftarrow> pop64 E s; Some s1 }"
| "exec1 E (Arm _) s = None"
| "exec1 E (Movl src dst) s = Some (set_reg dst (ucast (ucast (gpr s src) :: u32)) s)"
| "exec1 E Rdpkru s =
    (if gpr s ''rcx'' = 0 then Some (set_reg ''rdx'' 0 (set_reg ''rax'' (ucast (pkru s)) s)) else None)"
| "exec1 E (Andq m r) s = Some (set_reg r (gpr s r AND m) s)"
| "exec1 E (Store_abs src a) s = store E (uint a) 8 (unat (gpr s src)) s"
| "exec1 E (Load_abs a dst) s = do { v \<leftarrow> load E s (uint a) 8; Some (set_reg dst (word_of_nat v) s) }"
| "exec1 E (Cmpl_trap a b) s = (if (ucast (gpr s a) :: u32) = ucast (gpr s b) then Some s else None)"
| "exec1 E (Jmp f) s = callee E f s"
| "exec1 E (Cmpq_fs_zero r) s =
    do { v \<leftarrow> load E s (uint (fs_base E + gpr s r)) 8; if v = 0 then Some s else None }"

fun exec :: "machine_env \<Rightarrow> instr list \<Rightarrow> machine \<Rightarrow> machine option" where
  "exec E [] s = Some s"
| "exec E (i # rest) s = do { s1 \<leftarrow> exec1 E i s; exec E rest s1 }"

lemma exec_append [simp]: "exec E (xs @ ys) s = Option.bind (exec E xs s) (exec E ys)"
proof (induction xs arbitrary: s)
  case (Cons x xs)
  then show ?case by (cases "exec1 E x s") simp_all
qed simp

end
