(* ===== verification/C_Abi.thy ===== *)
theory C_Abi
  imports IA2_Prelude "HOL-Library.Monad_Syntax"
begin

text \<open>
  Argument and return locations of the C ABIs the rewriter knows (\<open>CAbi.h\<close>,
  \<open>DetermineAbi.cpp\<close> and the first part of \<open>GenCallAsm.cpp\<close>): the class
  \<open>ArgLocation\<close>, the classification of a lowered argument into slots, and the
  allocation of parameters and return values to registers and stack. A failed
  \<open>assert\<close> or \<open>report_fatal_error\<close> is \<^term>\<open>None\<close>.
\<close>

section \<open>Locations\<close>

datatype Kind = Integral | Float | Memory

datatype Arch = X86 | Aarch64

record ArgLocation =
  onStack :: bool
  indirectOnStack :: bool
  allocated :: bool
  loc_kind :: Kind
  loc_size :: nat
  loc_align :: nat
  loc_reg :: "string option"
  loc_offset :: nat

definition Register :: "Kind \<Rightarrow> nat \<Rightarrow> ArgLocation" where
  "Register k sz = \<lparr> onStack = False, indirectOnStack = False, allocated = False, loc_kind = k,
     loc_size = sz, loc_align = sz, loc_reg = None, loc_offset = 0 \<rparr>"

definition Stack :: "nat \<Rightarrow> nat \<Rightarrow> ArgLocation" where
  "Stack sz al = \<lparr> onStack = True, indirectOnStack = False, allocated = False, loc_kind = Memory,
     loc_size = sz, loc_align = al, loc_reg = None, loc_offset = 0 \<rparr>"

definition Indirect :: "nat \<Rightarrow> nat \<Rightarrow> ArgLocation" where
  "Indirect sz al = \<lparr> onStack = False, indirectOnStack = True, allocated = False, loc_kind = Integral,
     loc_size = sz, loc_align = al, loc_reg = None, loc_offset = 0 \<rparr>"

definition allocate_reg :: "string \<Rightarrow> ArgLocation \<Rightarrow> ArgLocation option" where
  "allocate_reg r loc =
    (if \<not> allocated loc \<and> loc_reg loc = None
     then Some (loc\<lparr>allocated := True, loc_reg := Some r\<rparr>) else None)"

definition allocate_stack :: "nat \<Rightarrow> ArgLocation \<Rightarrow> ArgLocation option" where
  "allocate_stack offset loc =
    (if \<not> allocated loc
     then Some (loc\<lparr>allocated := True, onStack := True, loc_offset := offset\<rparr>) else None)"

definition set_indirect_on_stack :: "ArgLocation \<Rightarrow> ArgLocation option" where
  "set_indirect_on_stack loc =
    (if \<not> indirectOnStack loc then Some (loc\<lparr>indirectOnStack := True\<rparr>) else None)"

definition is_128bit_reg :: "string \<Rightarrow> bool" where
  "is_128bit_reg r = (take 3 r = ''xmm'' \<or> take 1 r = ''q'')"

definition is_128bit_float :: "ArgLocation \<Rightarrow> bool" where
  "is_128bit_float loc = (case loc_reg loc of None \<Rightarrow> False | Some r \<Rightarrow> is_128bit_reg r)"

text \<open>\<^term>\<open>None\<close> stands for the null pointer of an unallocated location.\<close>
definition as_str :: "ArgLocation \<Rightarrow> string option" where
  "as_str loc = (if onStack loc then Some ''<stack>'' else loc_reg loc)"

definition size_of :: "ArgLocation \<Rightarrow> nat" where
  "size_of loc = (if is_128bit_float loc then 16 else loc_size loc)"

record AbiSignature =
  abi_args :: "ArgLocation list"
  abi_ret :: "ArgLocation list"

section \<open>Classification of a lowered argument\<close>

text \<open>
  The LLVM types and argument lowerings Clang hands over, as far as
  \<open>classifyScalarType\<close> and \<open>abiSlotsForArg\<close> distinguish them. The scalar size is the
  one \<open>getScalarSizeInBits\<close> reports, in bits; for a pointer it is 0.
\<close>
datatype scalar_type = FloatingPoint nat | IntOrPtr nat | Aggregate | OtherType

datatype coerce_type = StructTy "scalar_type list" | ArrayTy nat scalar_type | VectorTy nat scalar_type | ScalarTy scalar_type

datatype abi_arg_info =
    IndirectAliased | IndirectArg
  | Extend coerce_type bool | Direct coerce_type bool
  | Ignore | InAlloca | Expand | CoerceAndExpand

definition classifyScalarType :: "scalar_type \<Rightarrow> ArgLocation option" where
  "classifyScalarType ty =
    (case ty of
       FloatingPoint bits \<Rightarrow> Some (Register Float (bits div 8))
     | IntOrPtr bits \<Rightarrow> Some (Register Integral (bits div 8))
     | Aggregate \<Rightarrow> None
     | OtherType \<Rightarrow> None)"

fun classify_all :: "scalar_type list \<Rightarrow> ArgLocation list option" where
  "classify_all [] = Some []"
| "classify_all (t # ts) = do { l \<leftarrow> classifyScalarType t; ls \<leftarrow> classify_all ts; Some (l # ls) }"

definition direct_slots :: "coerce_type \<Rightarrow> bool \<Rightarrow> ArgLocation list option" where
  "direct_slots ty can_be_flattened =
    (case ty of
       StructTy elems \<Rightarrow> if can_be_flattened then classify_all elems else None
     | ArrayTy n elem \<Rightarrow> do { l \<leftarrow> classifyScalarType elem; Some (replicate n l) }
     | VectorTy n elem \<Rightarrow> do { l \<leftarrow> classifyScalarType elem; Some (replicate n l) }
     | ScalarTy t \<Rightarrow> do { l \<leftarrow> classifyScalarType t; Some [l] })"

text \<open>\<open>size\<close> and \<open>align\<close> are those of the source type, in bytes.\<close>
definition abiSlotsForArg :: "nat \<Rightarrow> nat \<Rightarrow> abi_arg_info \<Rightarrow> ArgLocation list option" where
  "abiSlotsForArg sz al info =
    (case info of
       IndirectAliased \<Rightarrow> Some [Indirect sz al]
     | IndirectArg \<Rightarrow> Some [Indirect sz al]
     | Extend ty flat \<Rightarrow> direct_slots ty flat
     | Direct ty flat \<Rightarrow> direct_slots ty flat
     | Ignore \<Rightarrow> Some []
     | InAlloca \<Rightarrow> None
     | Expand \<Rightarrow> None
     | CoerceAndExpand \<Rightarrow> None)"

record lowered_arg =
  arg_size :: nat
  arg_align :: nat
  arg_info :: abi_arg_info

fun slots_for_args :: "lowered_arg list \<Rightarrow> ArgLocation list option" where
  "slots_for_args [] = Some []"
| "slots_for_args (a # as) =
    do { ls \<leftarrow> abiSlotsForArg (arg_size a) (arg_align a) (arg_info a);
         rest \<leftarrow> slots_for_args as;
         Some (ls @ rest) }"

definition determineAbiSignature :: "lowered_arg \<Rightarrow> lowered_arg list \<Rightarrow> AbiSignature option" where
  "determineAbiSignature ret args =
    do { r \<leftarrow> abiSlotsForArg (arg_size ret) (arg_align ret) (arg_info ret);
         as \<leftarrow> slots_for_args args;
         Some \<lparr> abi_args = as, abi_ret = r \<rparr> }"

section \<open>Registers\<close>

definition x86_int_param_reg_order :: "string list" where
  "x86_int_param_reg_order = [''rdi'', ''rsi'', ''rdx'', ''rcx'', ''r8'', ''r9'']"

definition arm_int_param_reg_order :: "string list" where
  "arm_int_param_reg_order = [''x0'', ''x1'', ''x2'', ''x3'', ''x4'', ''x5'', ''x6'', ''x7'']"

definition x86_float_reg_order :: "string list" where
  "x86_float_reg_order = [''xmm0'', ''xmm1'', ''xmm2'', ''xmm3'', ''xmm4'', ''xmm5'', ''xmm6'', ''xmm7'']"

definition arm_float_reg_order :: "string list" where
  "arm_float_reg_order = [''q0'', ''q1'', ''q2'', ''q3'', ''q4'', ''q5'', ''q6'', ''q7'']"

definition x86_int_ret_reg_order :: "string list" where
  "x86_int_ret_reg_order = [''rax'', ''rdx'']"

definition arm_int_ret_reg_order :: "string list" where
  "arm_int_ret_reg_order = arm_int_param_reg_order"

definition x86_preserved_registers :: "string list" where
  "x86_preserved_registers = [''rbx'', ''r12'', ''r13'', ''r14'', ''r15'']"

definition aarch64_preserved_registers :: "string list" where
  "aarch64_preserved_registers =
    [''x19'', ''x20'', ''x21'', ''x22'', ''x23'', ''x24'', ''x25'', ''x26'', ''x27'', ''x28'']"

definition int_param_regs :: "Arch \<Rightarrow> string list" where
  "int_param_regs arch = (if arch = X86 then x86_int_param_reg_order else arm_int_param_reg_order)"

definition float_regs :: "Arch \<Rightarrow> string list" where
  "float_regs arch = (if arch = X86 then x86_float_reg_order else arm_float_reg_order)"

definition int_ret_regs :: "Arch \<Rightarrow> string list" where
  "int_ret_regs arch = (if arch = X86 then x86_int_ret_reg_order else arm_int_ret_reg_order)"

definition reg_arg_count :: "ArgLocation list \<Rightarrow> nat" where
  "reg_arg_count args = length (filter (\<lambda>x. \<not> onStack x) args)"

section \<open>Parameters\<close>

text \<open>The local variables of the loop of \<open>allocate_param_locations\<close>.\<close>
record alloc_state =
  al_args :: "ArgLocation list"
  ints_used :: nat
  floats_used :: nat
  stack_offset :: nat

definition push_arg :: "ArgLocation \<Rightarrow> alloc_state \<Rightarrow> alloc_state" where
  "push_arg loc st = st\<lparr>al_args := al_args st @ [loc]\<rparr>"

definition memory_return_slots :: "AbiSignature \<Rightarrow> nat" where
  "memory_return_slots func = length (filter (\<lambda>x. onStack x \<or> indirectOnStack x) (abi_ret func))"

definition alloc_init :: "AbiSignature \<Rightarrow> Arch \<Rightarrow> alloc_state option" where
  "alloc_init func arch =
    (let st = \<lparr> al_args = [], ints_used = 0, floats_used = 0, stack_offset = 0 \<rparr> in
     if memory_return_slots func > 0 then
       (if arch = X86 then
          do { p \<leftarrow> allocate_reg (int_param_regs arch ! 0) (Register Integral 8);
               Some ((push_arg p st)\<lparr>ints_used := 1\<rparr>) }
        else
          do { p \<leftarrow> allocate_reg ''x8'' (Register Integral 8);
               Some (push_arg p st) })
     else Some st)"

definition alloc_integral :: "Arch \<Rightarrow> ArgLocation \<Rightarrow> alloc_state \<Rightarrow> alloc_state option" where
  "alloc_integral arch arg st =
    (let order = int_param_regs arch; n = ints_used st in
     if (size_of arg \<le> 8 \<or> indirectOnStack arg) \<and> n < length order then
       do { a \<leftarrow> allocate_reg (order ! n) arg;
            Some ((push_arg a st)\<lparr>ints_used := n + 1\<rparr>) }
     else if n + 1 < length order then
       (if size_of arg = 16 \<and> \<not> indirectOnStack arg then
          do { h1 \<leftarrow> allocate_reg (order ! n) (Register Integral 8);
               h2 \<leftarrow> allocate_reg (order ! (n + 1)) (Register Integral 8);
               Some ((push_arg h2 (push_arg h1 st))\<lparr>ints_used := n + 2\<rparr>) }
        else None)
     else if arch \<noteq> X86 \<or> \<not> indirectOnStack arg then
       do { a \<leftarrow> allocate_stack (stack_offset st) arg;
            Some ((push_arg a st)\<lparr>stack_offset := stack_offset st + 8\<rparr>) }
     else None)"

definition alloc_float :: "Arch \<Rightarrow> ArgLocation \<Rightarrow> alloc_state \<Rightarrow> alloc_state option" where
  "alloc_float arch arg st =
    (let order = float_regs arch; n = floats_used st in
     if n < length order then
       do { a \<leftarrow> allocate_reg (order ! n) arg;
            Some ((push_arg a st)\<lparr>floats_used := n + 1\<rparr>) }
     else
       do { a \<leftarrow> allocate_stack (stack_offset st) arg;
            Some ((push_arg a st)\<lparr>stack_offset := stack_offset st + size_of a\<rparr>) })"

definition round_up :: "nat \<Rightarrow> nat \<Rightarrow> nat" where
  "round_up x al = (if x mod al \<noteq> 0 then x + (al - x mod al) else x)"

definition alloc_memory :: "ArgLocation \<Rightarrow> alloc_state \<Rightarrow> alloc_state option" where
  "alloc_memory arg st =
    (if onStack arg then
       (let off = round_up (stack_offset st) (loc_align arg) in
        do { a \<leftarrow> allocate_stack off arg;
             Some ((push_arg a st)\<lparr>stack_offset := round_up (off + size_of a) 8\<rparr>) })
     else None)"

definition alloc_arg :: "Arch \<Rightarrow> ArgLocation \<Rightarrow> alloc_state \<Rightarrow> alloc_state option" where
  "alloc_arg arch arg0 st =
    (let arg = (if arch = X86 \<and> indirectOnStack arg0 then Stack (size_of arg0) (loc_align arg0) else arg0) in
     case loc_kind arg of
       Integral \<Rightarrow> alloc_integral arch arg st
     | Float \<Rightarrow> alloc_float arch arg st
     | Memory \<Rightarrow> alloc_memory arg st)"

fun alloc_args :: "Arch \<Rightarrow> ArgLocation list \<Rightarrow> alloc_state \<Rightarrow> alloc_state option" where
  "alloc_args arch [] st = Some st"
| "alloc_args arch (a # as) st = do { st' \<leftarrow> alloc_arg arch a st; alloc_args arch as st' }"

text \<open>The locations and \<open>*stack_arg_size_out\<close>.\<close>
definition allocate_param_locations :: "AbiSignature \<Rightarrow> Arch \<Rightarrow> (ArgLocation list \<times> nat) option" where
  "allocate_param_locations func arch =
    do { st \<leftarrow> alloc_init func arch;
         st' \<leftarrow> alloc_args arch (abi_args func) st;
         Some (al_args st', stack_offset st') }"

section \<open>Return values\<close>

definition ret_float :: "Arch \<Rightarrow> ArgLocation \<Rightarrow> alloc_state \<Rightarrow> alloc_state option" where
  "ret_float arch arg st =
    (if floats_used st < length (float_regs arch) then
       do { a \<leftarrow> allocate_reg (float_regs arch ! floats_used st) arg;
            Some ((push_arg a st)\<lparr>floats_used := floats_used st + 1\<rparr>) }
     else None)"

text \<open>
  The \<open>switch\<close> over the kind of a return slot. A sixteen-byte integer has no
  \<open>break\<close> and falls through to the code for \<open>Float\<close>.
\<close>
definition ret_arg :: "Arch \<Rightarrow> ArgLocation \<Rightarrow> alloc_state \<Rightarrow> alloc_state option" where
  "ret_arg arch arg st =
    (let order = int_ret_regs arch; n = ints_used st in
     case loc_kind arg of
       Integral \<Rightarrow>
         if size_of arg \<le> 8 \<or> indirectOnStack arg then
           (if n < length order then
              (if \<not> indirectOnStack arg \<or> arch = X86 then
                 do { a \<leftarrow> allocate_reg (order ! n) arg;
                      Some ((push_arg a st)\<lparr>ints_used := n + 1\<rparr>) }
               else Some (push_arg arg st))
            else None)
         else if size_of arg = 16 \<and> n + 1 < length order then
           do { h1 \<leftarrow> allocate_reg (order ! n) (Register Integral 8);
                h2 \<leftarrow> allocate_reg (order ! (n + 1)) (Register Integral 8);
                ret_float arch arg ((push_arg h2 (push_arg h1 st))\<lparr>ints_used := n + 2\<rparr>) }
         else None
     | Float \<Rightarrow> ret_float arch arg st
     | Memory \<Rightarrow>
         if arch = X86 \<and> n = 0 then
           do { a \<leftarrow> allocate_reg (order ! n) arg;
                a' \<leftarrow> set_indirect_on_stack a;
                Some (push_arg a' st) }
         else None)"

fun ret_args :: "Arch \<Rightarrow> ArgLocation list \<Rightarrow> alloc_state \<Rightarrow> alloc_state option" where
  "ret_args arch [] st = Some st"
| "ret_args arch (a # as) st = do { st' \<leftarrow> ret_arg arch a st; ret_args arch as st' }"

definition allocate_return_locations :: "AbiSignature \<Rightarrow> Arch \<Rightarrow> ArgLocation list option" where
  "allocate_return_locations func arch =
    map_option al_args
      (ret_args arch (abi_ret func)
        \<lparr> al_args = [], ints_used = 0, floats_used = 0, stack_offset = 0 \<rparr>)"

end
