(* ===== verification/Gen_Call_Asm.thy ===== *)
theory Gen_Call_Asm
  imports Asm C_Abi
begin

text \<open>
  Generation of call gates (\<open>GenCallAsm.cpp\<close>). Every \<open>emit_*\<close> function returns
  the lines it appends to the writer; both architectures are modelled.
\<close>

datatype WrapperKind = Direct | Pointer | PointerToStatic | IndirectCallsite

section \<open>Small emitters\<close>

text \<open>The register of a location that is not on the stack; an unallocated one has a null name.\<close>
definition reg_name :: "ArgLocation \<Rightarrow> string" where
  "reg_name loc = (case as_str loc of Some r \<Rightarrow> r | None \<Rightarrow> [])"

definition emit_reg_push :: "ArgLocation \<Rightarrow> instr list" where
  "emit_reg_push loc =
    (if is_128bit_float loc then [Subq 16 ''rsp'', Movdqu_store (reg_name loc)]
     else [Pushq (reg_name loc)])"

definition emit_reg_pop :: "ArgLocation \<Rightarrow> instr list" where
  "emit_reg_pop loc =
    (if is_128bit_float loc then [Movdqu_load (reg_name loc), Addq 16 ''rsp'']
     else [Popq (reg_name loc)])"

text \<open>The widths \<open>emit_memcpy\<close> moves and where: eightbytes, then at most one each of 4, 2 and 1.\<close>
definition memcpy_moves :: "nat \<Rightarrow> (nat \<times> nat) list" where
  "memcpy_moves n =
    (let i8 = 8 * (n div 8);
         m4 = (if i8 + 4 \<le> n then [(4, i8)] else []);
         i4 = (if i8 + 4 \<le> n then i8 + 4 else i8);
         m2 = (if i4 + 2 \<le> n then [(2, i4)] else []);
         i2 = (if i4 + 2 \<le> n then i4 + 2 else i4);
         m1 = (if i2 < n then [(1, i2)] else [])
     in map (\<lambda>k. (8, 8 * k)) [0..<n div 8] @ m4 @ m2 @ m1)"

definition halfreg :: "string \<Rightarrow> string" where
  "halfreg scratch = CHR ''W'' # drop 1 scratch"

definition emit_memcpy :: "nat \<Rightarrow> string \<Rightarrow> string \<Rightarrow> string \<Rightarrow> nat \<Rightarrow> Arch \<Rightarrow> instr list" where
  "emit_memcpy byte_count dst src scratch src_offset arch =
    Comment ''Copy'' #
    concat (map (\<lambda>(w, i).
      if arch = X86 then [Load w (i + src_offset) src scratch, Store w scratch i dst]
      else
        (let r = (if w = 8 then scratch else halfreg scratch)
         in [Arm (Ldr_off w r src (i + src_offset)), Arm (Str_off w r dst i)]))
      (memcpy_moves byte_count))"

definition emit_wrpkru :: "nat \<Rightarrow> instr list" where
  "emit_wrpkru pkey = [Xorl ''rcx'', Xorl ''rdx'', Movl_imm (PKRU pkey) ''rax'', Wrpkru]"

definition emit_mixed_wrpkru :: "nat \<Rightarrow> nat \<Rightarrow> instr list" where
  "emit_mixed_wrpkru pkey0 pkey1 = [Xorl ''rcx'', Xorl ''rdx'', Movl_imm (mixed_PKRU pkey0 pkey1) ''rax'', Wrpkru]"

definition emit_load_sp_offset :: "nat \<Rightarrow> string \<Rightarrow> instr list" where
  "emit_load_sp_offset pkey reg = [Mov_gottpoff pkey reg]"

definition arm_tag :: "string \<Rightarrow> nat \<Rightarrow> instr list" where
  "arm_tag reg pkey = (if pkey \<noteq> 0 then [Arm (Orr_tag reg pkey)] else [])"

definition emit_switch_stacks :: "nat \<Rightarrow> nat \<Rightarrow> Arch \<Rightarrow> instr list" where
  "emit_switch_stacks old_pkey new_pkey arch =
    (if arch = X86 then
       [Comment ''Compute location to save old stack pointer''] @
       emit_load_sp_offset old_pkey ''r11'' @
       [Comment ''Write the old stack pointer to memory'', Movq_to_fs ''rsp'' ''r11'',
        Comment ''Compute location to load new stack pointer''] @
       emit_load_sp_offset new_pkey ''r11'' @
       [Comment ''Read the new stack pointer from memory'', Movq_from_fs ''r11'' ''rsp'']
     else
       [Comment ''Compute location to save old stack pointer in x10'',
        Arm (Mrs_tpidr ''x9''), Arm (Adrp_gottprel ''x10'' old_pkey), Arm (Ldr_gottprel ''x10'' old_pkey),
        Arm (Add_arm ''x10'' ''x10'' ''x9'')] @ arm_tag ''x10'' old_pkey @
       [Comment ''Write old stack pointer to memory'', Arm (Mov_arm ''x12'' ''sp''), Arm (Str_off 8 ''x12'' ''x10'' 0),
        Comment ''Compute location to load new stack pointer in x10'',
        Arm (Adrp_gottprel ''x10'' new_pkey), Arm (Ldr_gottprel ''x10'' new_pkey),
        Arm (Add_arm ''x10'' ''x10'' ''x9'')] @ arm_tag ''x10'' new_pkey @
       [Comment ''Read new stack pointer from memory'', Arm (Ldr_off 8 ''x11'' ''x10'' 0), Arm (Mov_arm ''sp'' ''x11'')])"

definition cabi_arg_kind_names :: "Kind \<Rightarrow> string" where
  "cabi_arg_kind_names k = (case k of Integral \<Rightarrow> ''int'' | Float \<Rightarrow> ''float'' | Memory \<Rightarrow> ''mem'')"

fun append_arg_kinds :: "ArgLocation list \<Rightarrow> string" where
  "append_arg_kinds [] = []"
| "append_arg_kinds (a # as) =
    (if indirectOnStack a then ''[mem]'' else if onStack a then ''mem'' else cabi_arg_kind_names (loc_kind a)) @
    (if as = [] then [] else '', '') @ append_arg_kinds as"

definition sig_string :: "AbiSignature \<Rightarrow> string option \<Rightarrow> string" where
  "sig_string sig name =
    (case name of None \<Rightarrow> ''indirect call('' | Some n \<Rightarrow> n @ ''('') @ append_arg_kinds (abi_args sig) @ '')'' @
    (if abi_ret sig \<noteq> [] then '' -> '' @ append_arg_kinds (abi_ret sig) else [])"

definition emit_direct_call :: "Arch \<Rightarrow> string \<Rightarrow> instr list" where
  "emit_direct_call arch fn_name = (if arch = X86 then [Call fn_name] else [Arm (Bl fn_name)])"

text \<open>\<^term>\<open>None\<close> is the failed assertion of an unnamed target outside an indirect call site.\<close>
definition emit_fn_call :: "string option \<Rightarrow> WrapperKind \<Rightarrow> Arch \<Rightarrow> instr list option" where
  "emit_fn_call target_name kind arch =
    (case target_name of
       None \<Rightarrow>
         if kind = IndirectCallsite
         then Some [Comment ''Call wrapped function'', if arch = X86 then Call_reg ''r12'' else Arm (Blr ''x9'')]
         else None
     | Some f \<Rightarrow> Some (Comment ''Call wrapped function'' # emit_direct_call arch f))"

definition emit_prologue :: "Arch \<Rightarrow> instr list" where
  "emit_prologue arch =
    (if arch = X86 then
       [Pushq ''rbp'', Movq ''rsp'' ''rbp''] @ map Pushq x86_preserved_registers
     else
       [Arm (Stp_pre ''x29'' ''x30''), Arm (Mov_arm ''x29'' ''sp''),
        Arm (Sub_imm ''sp'' ''sp'' (8 * length aarch64_preserved_registers))] @
       map (\<lambda>i. Arm (Str_off 8 (aarch64_preserved_registers ! i) ''sp'' (i * 8)))
         [0..<length aarch64_preserved_registers])"

definition x86_emit_intermediate_pkru :: "nat \<Rightarrow> nat \<Rightarrow> string \<Rightarrow> string \<Rightarrow> instr list" where
  "x86_emit_intermediate_pkru caller_pkey target_pkey reg1 reg2 =
    [Comment ''Set PKRU to the intermediate value to move arguments'',
     Movq reg1 ''r10'', Movq reg2 ''r11''] @
    emit_mixed_wrpkru caller_pkey target_pkey @
    [Movq ''r10'' reg1, Movq ''r11'' reg2]"

section \<open>Arguments\<close>

record layout =
  stack_return_size :: nat
  stack_return_padding :: nat
  indirect_arg_size :: nat
  indirect_arg_padding :: nat
  stack_alignment :: nat
  stack_arg_size :: nat
  stack_arg_padding :: nat
  wrapper_stack_arg_size :: nat

text \<open>The loop that moves the arguments of an indirect call down by one register.\<close>
fun shift_args :: "Arch \<Rightarrow> layout \<Rightarrow> ArgLocation list \<Rightarrow> ArgLocation list \<Rightarrow> instr list option" where
  "shift_args arch l srcs [] = Some []"
| "shift_args arch l [] (d # ds) = None"
| "shift_args arch l (s # ss) (d # ds) =
    do { rest \<leftarrow> shift_args arch l ss ds;
         Some ((if onStack d then []
                else if arch = X86 then
                  (if onStack s then
                     (let off = (length x86_preserved_registers + 1) * 8 + stack_arg_padding l +
                                loc_offset s + size_of s
                      in [Load 8 (round_up off (max (loc_align s) 8)) ''rax'' (reg_name d)])
                   else [Movq (reg_name s) (reg_name d)])
                else
                  (if onStack s then
                     [Arm (Ldr_off 8 (reg_name d) ''x12'' ((length aarch64_preserved_registers + 2) * 8 + loc_offset s))]
                   else [Arm (Mov_arm (reg_name d) (reg_name s))])) @ rest) }"

definition copy_wrapper_args ::
  "Arch \<Rightarrow> layout \<Rightarrow> ArgLocation list \<Rightarrow> ArgLocation list option \<Rightarrow> instr list option" where
  "copy_wrapper_args arch l args wrapper_args =
    (case wrapper_args of
       None \<Rightarrow> Some []
     | Some ws \<Rightarrow>
         (let skip = (if stack_return_size l > 0 then 1 else 0); src = drop skip ws; dest = drop skip args in
          case src of
            [] \<Rightarrow> None
          | p # src' \<Rightarrow>
              do { moves \<leftarrow> shift_args arch l src' dest;
                   Some ([Comment ''Copy arguments into the correct registers'',
                          if arch = X86 then Movq (reg_name p) ''r12'' else Arm (Mov_arm ''x9'' (reg_name p))] @ moves) }))"

definition x86_alloc_return :: "layout \<Rightarrow> instr list" where
  "x86_alloc_return l =
    (if stack_return_size l > 0 then
       [Comment ''Allocate space on the compartment's stack for the return value'',
        Subq (stack_return_size l + stack_return_padding l) ''rsp'',
        Comment ''Save address of the caller's return value'', Pushq ''rdi'',
        Comment ''Set rdi to the compartment's return value memory'', Movq ''rsp'' ''rdi'', Addq 8 ''rdi'']
     else [])"

definition x86_copy_stack_args :: "layout \<Rightarrow> nat \<Rightarrow> instr list" where
  "x86_copy_stack_args l caller_pkey =
    (if stack_arg_size l > 0 then
       (let offset = stack_arg_size l + stack_arg_padding l + (length x86_preserved_registers + 1) * 8 +
                     wrapper_stack_arg_size l - stack_arg_size l
        in [Comment ''Copy stack arguments from the caller's stack to the compartment''] @
           emit_load_sp_offset caller_pkey ''r12'' @ [Movq_from_fs ''r12'' ''rax''] @
           map (\<lambda>k. Pushq_mem (offset - 8 * k) ''rax'') [0..<(stack_arg_size l + 7) div 8])
     else [])"

text \<open>The copies of indirect arguments on AArch64 and the running offset.\<close>
fun arm_copy_indirect :: "ArgLocation list \<Rightarrow> nat \<Rightarrow> instr list option" where
  "arm_copy_indirect [] off = Some []"
| "arm_copy_indirect (a # as) off =
    (if indirectOnStack a then
       (if loc_align a \<le> 16 then
          (let off' = round_up off (loc_align a) in
           do { rest \<leftarrow> arm_copy_indirect as (off' + size_of a);
                Some (Comment ''Copy indirect argument'' #
                  (if onStack a then
                     [Arm (Ldr_off 8 ''x10'' ''sp'' (loc_offset a)), Arm (Add_imm ''x9'' ''sp'' off')] @
                     emit_memcpy (size_of a) ''x9'' ''x10'' ''x11'' 0 Aarch64 @
                     [Arm (Str_off 8 ''x9'' ''sp'' (loc_offset a))]
                   else
                     [Arm (Mov_arm ''x10'' (reg_name a)), Arm (Add_imm (reg_name a) ''sp'' off')] @
                     emit_memcpy (size_of a) (reg_name a) ''x10'' ''x11'' 0 Aarch64) @ rest) })
        else None)
     else arm_copy_indirect as off)"

definition arm_copy_args :: "ArgLocation list \<Rightarrow> ArgLocation list option \<Rightarrow> layout \<Rightarrow> instr list option" where
  "arm_copy_args args wrapper_args l =
    (let total_stack_size = stack_return_size l + stack_return_padding l + indirect_arg_size l +
           indirect_arg_padding l + stack_arg_size l + stack_arg_padding l +
           (if stack_return_size l > 0 then 8 else 0);
         saved_ptr = stack_arg_size l + stack_arg_padding l;
         return_start = saved_ptr + 8;
         indirect_start = return_start + stack_return_size l + stack_return_padding l
     in do { ind \<leftarrow> arm_copy_indirect args indirect_start;
             moves \<leftarrow> copy_wrapper_args Aarch64 l args wrapper_args;
             Some (
               (if total_stack_size > 0 then
                  [Comment ''Allocate space on the compartment's stack for stack return and/or args'',
                   Arm (Sub_imm ''sp'' ''sp'' total_stack_size)] else []) @
               (if stack_return_size l > 0 then
                  [Comment ''Save address of the caller's return value'', Arm (Str_off 8 ''x8'' ''sp'' saved_ptr),
                   Comment ''Set x8 to the compartment's return value memory'', Arm (Add_imm ''x8'' ''sp'' return_start)]
                else []) @
               (if stack_arg_size l > 0 then
                  Comment ''Copy stack arguments from the caller's stack to the compartment'' #
                  emit_memcpy (stack_arg_size l) ''sp'' ''x12'' ''x9''
                    ((length aarch64_preserved_registers + 2) * 8 + wrapper_stack_arg_size l - stack_arg_size l) Aarch64
                else []) @ ind @ moves) })"

definition emit_copy_args ::
  "ArgLocation list \<Rightarrow> ArgLocation list option \<Rightarrow> layout \<Rightarrow> nat \<Rightarrow> Arch \<Rightarrow> instr list option" where
  "emit_copy_args args wrapper_args l caller_pkey arch =
    (if arch = X86 then
       (if stack_alignment l \<noteq> 0 \<and> stack_alignment l \<noteq> 8 then None
        else
          do { moves \<leftarrow> copy_wrapper_args X86 l args wrapper_args;
               Some (x86_alloc_return l @
                     (if stack_alignment l \<noteq> 0 then [Subq 8 ''rsp''] else []) @
                     x86_copy_stack_args l caller_pkey @ moves) })
     else arm_copy_args args wrapper_args l)"

section \<open>PKRU, scrubbing and returns\<close>

definition emit_set_pkru :: "bool \<Rightarrow> nat \<Rightarrow> Arch \<Rightarrow> nat option \<Rightarrow> instr list option" where
  "emit_set_pkru libc_compartment_enabled target_pkey arch union_pkey =
    (if arch = X86 then
       Some ([Comment ''Set PKRU to the compartment's value'', Movq ''rcx'' ''r10'', Movq ''rdx'' ''r11''] @
         (case union_pkey of
            Some u \<Rightarrow> if libc_compartment_enabled then emit_mixed_wrpkru u target_pkey else emit_wrpkru target_pkey
          | None \<Rightarrow> emit_wrpkru target_pkey) @
         [Movq ''r10'' ''rcx'', Movq ''r11'' ''rdx''])
     else if target_pkey < 16 then Some [Arm (Movz_tag (target_pkey * 256))] else None)"

definition emit_free_stack_space :: "nat \<Rightarrow> Arch \<Rightarrow> instr list" where
  "emit_free_stack_space stack_size arch =
    (if stack_size = 0 then []
     else [Comment ''Free stack space used for stack args'',
           if arch = X86 then Addq stack_size ''rsp'' else Arm (Add_imm ''sp'' ''sp'' stack_size)])"

definition emit_copy_stack_returns :: "layout \<Rightarrow> Arch \<Rightarrow> instr list" where
  "emit_copy_stack_returns l arch =
    (if stack_return_size l = 0 then []
     else if arch = X86 then
       [Popq ''rax'', Comment ''Copy the return value to the caller's stack''] @
       emit_memcpy (stack_return_size l) ''rax'' ''rsp'' ''r10'' 0 X86 @
       [Addq (stack_return_size l + stack_return_padding l) ''rsp'']
     else
       (let saved_ptr = stack_arg_size l + stack_arg_padding l in
        [Comment ''Copy stack returns to caller's stack'', Arm (Ldr_off 8 ''x8'' ''sp'' saved_ptr)] @
        emit_memcpy (stack_return_size l) ''x8'' ''sp'' ''x9'' (saved_ptr + 8) Aarch64 @
        [Arm (Add_imm ''sp'' ''sp'' (stack_return_size l + 8 + stack_return_padding l))]))"

definition reg_locs :: "ArgLocation list \<Rightarrow> ArgLocation list" where
  "reg_locs locs = filter (\<lambda>l. \<not> onStack l) locs"

text \<open>AArch64 saves in pairs; an odd last register takes a slot of its own.\<close>
fun arm_save_pairs :: "string list \<Rightarrow> instr list" where
  "arm_save_pairs (r1 # r2 # rs) = Arm (Stp_pre r1 r2) # arm_save_pairs rs"
| "arm_save_pairs [r] = [Arm (Str_pre r)]"
| "arm_save_pairs [] = []"

fun arm_restore_pairs :: "string list \<Rightarrow> instr list" where
  "arm_restore_pairs (r1 # r2 # rs) = Arm (Ldp_post r2 r1) # arm_restore_pairs rs"
| "arm_restore_pairs rs = []"

definition arm_restore :: "string list \<Rightarrow> instr list" where
  "arm_restore regs =
    (let rs = rev regs in
     if length regs mod 2 = 1 then
       [Arm (Ldr_off 8 (hd rs) ''sp'' 0), Arm (Add_imm ''sp'' ''sp'' 16)] @ arm_restore_pairs (tl rs)
     else arm_restore_pairs rs)"

definition arm_scrub_regs :: "ArgLocation list \<Rightarrow> bool \<Rightarrow> instr list" where
  "arm_scrub_regs locs indirect =
    (let preserve_regs = (reg_arg_count locs > 0 \<or> indirect);
         regl = filter (\<lambda>l. \<not> onStack l \<and> allocated l) locs;
         regs_128bit = map reg_name (filter is_128bit_float regl);
         regs_64bit = (if indirect then [''x9''] else []) @
                      map reg_name (filter (\<lambda>l. \<not> is_128bit_float l) regl);
         save = (preserve_regs \<and> (regs_128bit \<noteq> [] \<or> regs_64bit \<noteq> []))
     in (if save then Comment ''Preserve essential regs on stack'' # arm_save_pairs regs_64bit @
                      map (\<lambda>r. Arm (Str_pre r)) regs_128bit else []) @
        [Comment ''Scrub non-essential regs'', Arm (Bl ''__libia2_scrub_registers'')] @
        (if save then Comment ''Restore preserved regs'' #
                      map (\<lambda>r. Arm (Ldr_post r)) (rev regs_128bit) @ arm_restore regs_64bit else []))"

definition emit_scrub_regs :: "nat \<Rightarrow> ArgLocation list \<Rightarrow> bool \<Rightarrow> Arch \<Rightarrow> instr list" where
  "emit_scrub_regs pkey locs indirect arch =
    (if arch = X86 then
       (if pkey \<noteq> 0 then
          (let preserve_regs = (reg_arg_count locs > 0 \<or> indirect) in
           (if preserve_regs then
              Comment ''Preserve essential regs on stack'' #
              concat (map emit_reg_push (reg_locs locs)) @ (if indirect then [Pushq ''r12''] else [])
            else []) @
           [Comment ''Scrub non-essential regs'', Call ''__libia2_scrub_registers''] @
           (if preserve_regs then
              Comment ''Restore preserved regs'' #
              (if indirect then [Popq ''r12''] else []) @ concat (map emit_reg_pop (rev (reg_locs locs)))
            else []))
        else [])
     else arm_scrub_regs locs indirect)"

definition emit_set_return_pkru :: "nat \<Rightarrow> Arch \<Rightarrow> instr list option" where
  "emit_set_return_pkru caller_pkey arch =
    (if arch = X86 then
       Some ([Comment ''Set PKRU to the caller's value'', Movq ''rax'' ''r10'', Movq ''rdx'' ''r11''] @
         emit_wrpkru caller_pkey @ [Movq ''r10'' ''rax'', Movq ''r11'' ''rdx''])
     else if caller_pkey < 16 then Some [Arm (Movz_tag (caller_pkey * 256))] else None)"

section \<open>Pre- and post-conditions\<close>

definition emit_save_args :: "Arch \<Rightarrow> instr list" where
  "emit_save_args arch =
    (if arch = X86 then Comment ''Save param regs for pre/post-condition call'' # map Pushq x86_int_param_reg_order
     else [])"

definition emit_restore_args :: "Arch \<Rightarrow> bool \<Rightarrow> instr list" where
  "emit_restore_args arch pop =
    (if arch = X86 then
       Comment ''Restore param regs for pre/post-condition call'' # map Popq (rev x86_int_param_reg_order) @
       (if \<not> pop then [Comment ''Keep stack as is before popping'', Subq (8 * length x86_int_param_reg_order) ''rsp'']
        else [])
     else [])"

definition emit_align_stack_8_to_16 :: "Arch \<Rightarrow> instr list" where
  "emit_align_stack_8_to_16 arch = Comment ''Align stack'' # (if arch = X86 then [Subq 8 ''rsp''] else [])"

definition emit_revert_align_stack_8_to_16 :: "Arch \<Rightarrow> instr list" where
  "emit_revert_align_stack_8_to_16 arch = Comment ''Revert align stack'' # (if arch = X86 then [Addq 8 ''rsp''] else [])"

definition emit_condition_fn_call :: "Arch \<Rightarrow> string \<Rightarrow> string \<Rightarrow> instr list" where
  "emit_condition_fn_call arch f condition_type =
    Comment (''Call '' @ condition_type @ ''-condition function'') # emit_direct_call arch f"

definition emit_epilogue :: "Arch \<Rightarrow> instr list" where
  "emit_epilogue arch =
    (if arch = X86 then map Popq (rev x86_preserved_registers) @ [Popq ''rbp'']
     else
       map (\<lambda>i. Arm (Ldr_off 8 (aarch64_preserved_registers ! i) ''sp'' (i * 8)))
         [0..<length aarch64_preserved_registers] @
       [Arm (Add_imm ''sp'' ''sp'' (8 * length aarch64_preserved_registers)), Arm (Ldp_post ''x29'' ''x30'')])"

definition emit_return :: "instr list" where
  "emit_return = [Comment ''Return to the caller'', Ret]"

text \<open>
  The parts of the rewriter's \<open>Context\<close> the generator reads: the names of the
  constructors and destructors, which types have both, and the condition
  functions of each target in insertion order.
\<close>
record Context =
  ctx_constructors :: "string list"
  ctx_destructors :: "string list"
  ctx_has_structors :: "nat \<Rightarrow> bool"
  pre_condition_funcs :: "(string \<times> string) list"
  post_condition_funcs :: "(string \<times> string) list"

record FnSignature =
  abi :: AbiSignature
  api_args :: "nat list" \<comment> \<open>type ids of the parameters\<close>

definition registry_checks :: "Context \<Rightarrow> FnSignature \<Rightarrow> string \<Rightarrow> string \<times> nat list" where
  "registry_checks ctx sig target =
    (if target \<in> set (ctx_constructors ctx) then (''ia2_type_registry_construct'', [0])
     else if target \<in> set (ctx_destructors ctx) then (''ia2_type_registry_destruct'', [0])
     else (''ia2_type_registry_check'',
           filter (\<lambda>i. ctx_has_structors ctx (api_args sig ! i) \<and> i < length x86_int_param_reg_order)
             [0..<length (api_args sig)]))"

definition emit_type_registry_checks :: "Context \<Rightarrow> FnSignature \<Rightarrow> string option \<Rightarrow> Arch \<Rightarrow> instr list" where
  "emit_type_registry_checks ctx sig target_name arch =
    (case target_name of
       None \<Rightarrow> []
     | Some target \<Rightarrow>
         (case registry_checks ctx sig target of
            (f, idxs) \<Rightarrow>
              if idxs = [] then []
              else
                emit_save_args arch @ emit_align_stack_8_to_16 arch @
                concat (map (\<lambda>i.
                  [Comment ''type registry'',
                   Load 8 (8 + 8 * (length x86_int_param_reg_order - 1 - i)) ''rsp'' (x86_int_param_reg_order ! 0),
                   Movq_imm (api_args sig ! i) (x86_int_param_reg_order ! 1)] @ emit_direct_call arch f) idxs) @
                emit_revert_align_stack_8_to_16 arch @ emit_restore_args arch True))"

definition conditions_for :: "(string \<times> string) list \<Rightarrow> string option \<Rightarrow> string list" where
  "conditions_for funcs target_name =
    (case target_name of None \<Rightarrow> [] | Some t \<Rightarrow> map snd (filter (\<lambda>(k, _). k = t) funcs))"

definition emit_pre_conditions :: "Arch \<Rightarrow> string list \<Rightarrow> string list \<Rightarrow> instr list" where
  "emit_pre_conditions arch pre post =
    (if length pre > 1 \<or> post \<noteq> [] then emit_save_args arch else []) @
    concat (map (\<lambda>i.
      (if i > 0 then emit_restore_args arch (post = [] \<and> i = length pre - 1) else []) @
      emit_condition_fn_call arch (pre ! i) ''pre'') [0..<length pre])"

definition emit_post_conditions :: "Arch \<Rightarrow> string list \<Rightarrow> instr list" where
  "emit_post_conditions arch post =
    concat (map (\<lambda>i.
      emit_restore_args arch (i = length post - 1) @ emit_align_stack_8_to_16 arch @
      emit_condition_fn_call arch (post ! i) ''post'' @ emit_revert_align_stack_8_to_16 arch) [0..<length post])"

section \<open>The whole wrapper\<close>

fun indirect_size :: "nat \<Rightarrow> ArgLocation list \<Rightarrow> nat" where
  "indirect_size stack_size [] = 0"
| "indirect_size stack_size (a # as) =
    (if indirectOnStack a then
       (let align = max (loc_align a) 8 in
        (if stack_size mod align \<noteq> 0 then align - stack_size mod align else 0) + size_of a)
     else 0) + indirect_size stack_size as"

definition stack_return_bytes :: "ArgLocation list \<Rightarrow> nat" where
  "stack_return_bytes rets = sum_list (map size_of (filter (\<lambda>x. onStack x \<or> indirectOnStack x) rets))"

definition compute_layout :: "nat \<Rightarrow> nat \<Rightarrow> ArgLocation list \<Rightarrow> ArgLocation list \<Rightarrow> Arch \<Rightarrow> layout option" where
  "compute_layout stack_args wrapper_stack_args args rets arch =
    (let padding = (if stack_args mod 8 \<noteq> 0 then 8 - stack_args mod 8 else 0);
         ind = indirect_size stack_args args;
         ind_pad = (if ind mod 16 \<noteq> 0 then 16 - ind mod 16 else 0);
         ret = stack_return_bytes rets;
         start_of_ret_space = (if ret > 0 then 8 else 0);
         ret_pad = (if ret > 0 \<and> (start_of_ret_space + ret) mod 16 \<noteq> 0
                    then 16 - (start_of_ret_space + ret) mod 16 else 0);
         space = start_of_ret_space + ret + ret_pad + ind + ind_pad + stack_args + padding
     in if arch = X86 \<and> list_ex indirectOnStack args then None
        else Some \<lparr> stack_return_size = ret, stack_return_padding = ret_pad, indirect_arg_size = ind,
          indirect_arg_padding = ind_pad, stack_alignment = (if arch = X86 then (space + 8) mod 16 else 0),
          stack_arg_size = stack_args, stack_arg_padding = padding,
          wrapper_stack_arg_size = wrapper_stack_args \<rparr>)"

text \<open>The instructions up to the call of the target, and those after it.\<close>
definition gate_enter ::
  "Context \<Rightarrow> FnSignature \<Rightarrow> string option \<Rightarrow> WrapperKind \<Rightarrow> nat \<Rightarrow> nat \<Rightarrow> Arch \<Rightarrow>
   ArgLocation list \<Rightarrow> ArgLocation list option \<Rightarrow> layout \<Rightarrow> instr list option" where
  "gate_enter ctx sig target_name kind caller_pkey target_pkey arch args wrapper_args l =
    (let pre = conditions_for (pre_condition_funcs ctx) target_name;
         post = conditions_for (post_condition_funcs ctx) target_name
     in do {
       copy \<leftarrow> emit_copy_args args wrapper_args l caller_pkey arch;
       set_pkru \<leftarrow> emit_set_pkru False target_pkey arch None;
       Some (
         emit_prologue arch @
         emit_type_registry_checks ctx sig target_name arch @
         emit_pre_conditions arch pre post @
         (if arch = X86 then [Assert_pkru (PKRU caller_pkey)] else []) @
         (if arch = X86 then x86_emit_intermediate_pkru caller_pkey target_pkey ''rcx'' ''rdx'' else []) @
         emit_switch_stacks caller_pkey target_pkey arch @
         copy @
         emit_scrub_regs caller_pkey args (kind = IndirectCallsite) arch @
         set_pkru) })"

definition gate_leave ::
  "Context \<Rightarrow> string option \<Rightarrow> nat \<Rightarrow> nat \<Rightarrow> Arch \<Rightarrow> ArgLocation list \<Rightarrow> layout \<Rightarrow> instr list option" where
  "gate_leave ctx target_name caller_pkey target_pkey arch rets l =
    do {
      set_return \<leftarrow> emit_set_return_pkru caller_pkey arch;
      Some (
        (if arch = X86 then x86_emit_intermediate_pkru caller_pkey target_pkey ''rax'' ''rdx'' else []) @
        emit_free_stack_space (stack_arg_size l + stack_arg_padding l + stack_alignment l) arch @
        emit_copy_stack_returns l arch @
        emit_switch_stacks target_pkey caller_pkey arch @
        emit_scrub_regs target_pkey rets False arch @
        set_return @
        emit_post_conditions arch (conditions_for (post_condition_funcs ctx) target_name) @
        emit_epilogue arch @
        emit_return) }"

text \<open>The instructions between the labels, once locations and layout are known.\<close>
definition gate_body ::
  "Context \<Rightarrow> FnSignature \<Rightarrow> string option \<Rightarrow> WrapperKind \<Rightarrow> nat \<Rightarrow> nat \<Rightarrow> Arch \<Rightarrow>
   ArgLocation list \<Rightarrow> ArgLocation list option \<Rightarrow> ArgLocation list \<Rightarrow> layout \<Rightarrow> instr list option" where
  "gate_body ctx sig target_name kind caller_pkey target_pkey arch args wrapper_args rets l =
    do {
      enter \<leftarrow> gate_enter ctx sig target_name kind caller_pkey target_pkey arch args wrapper_args l;
      call \<leftarrow> emit_fn_call target_name kind arch;
      leave \<leftarrow> gate_leave ctx target_name caller_pkey target_pkey arch rets l;
      Some (enter @ call @ leave) }"

definition emit_asm_wrapper ::
  "Context \<Rightarrow> FnSignature \<Rightarrow> FnSignature option \<Rightarrow> string \<Rightarrow> string option \<Rightarrow> WrapperKind \<Rightarrow> nat \<Rightarrow> nat \<Rightarrow> Arch \<Rightarrow>
   instr list option" where
  "emit_asm_wrapper ctx sig wrapper_sig wrapper_name target_name kind caller_pkey target_pkey arch =
    (if caller_pkey = target_pkey then None
     else do {
       (args, stack_args) \<leftarrow> allocate_param_locations (abi sig) arch;
       (wrapper_args, wrapper_stack_args) \<leftarrow>
         (case wrapper_sig of
            None \<Rightarrow> Some (None, stack_args)
          | Some w \<Rightarrow> map_option (\<lambda>(ws, n). (Some ws, n)) (allocate_param_locations (abi w) arch));
       rets \<leftarrow> allocate_return_locations (abi sig) arch;
       l \<leftarrow> compute_layout stack_args wrapper_stack_args args rets arch;
       body \<leftarrow> gate_body ctx sig target_name kind caller_pkey target_pkey arch args wrapper_args rets l;
       Some (
         [Comment (''Wrapper for '' @ sig_string (abi sig) target_name @ '':''), Directive ''.text'',
          Directive ((if kind \<noteq> PointerToStatic then ''.global '' else ''.local '') @ wrapper_name),
          Directive (''.type '' @ wrapper_name @ '', @function''), Label wrapper_name] @
         body @
         [Directive (''.size '' @ wrapper_name @ '', .-'' @ wrapper_name), Directive ''.previous'']) })"

end
