(* ===== verification/Machine_Laws.thy ===== *)
theory Machine_Laws
  imports Gen_Call_Asm
begin

text \<open>
  Laws of the machine: reading what was written, addresses without wrap-around,
  and pushes followed by the matching pops. The proofs about call gates use
  only these.
\<close>

section \<open>Memory\<close>

lemma write_bytes_outside: "x < a \<or> a + int n \<le> x \<Longrightarrow> write_bytes m a n v x = m x"
  by (auto simp: write_bytes_def)

lemma read_bytes_cong:
  "(\<And>x. a \<le> x \<Longrightarrow> x < a + int n \<Longrightarrow> m x = m' x) \<Longrightarrow> read_bytes m a n = read_bytes m' a n"
  by (induction n arbitrary: a) auto

lemma read_bytes_bound: "read_bytes m a n < 256 ^ n"
proof (induction n arbitrary: a)
  case (Suc n)
  have "unat (m a) < 256" using unsigned_less [of "m a"] by (simp add: order_less_le_trans)
  with Suc [of "a + 1"] show ?case by simp
qed simp

lemma write_bytes_Suc_tail:
  "a < x \<Longrightarrow> write_bytes m a (Suc n) v x = write_bytes m (a + 1) n (v div 256) x"
proof -
  assume x: "a < x"
  then have "nat (x - a) = Suc (nat (x - (a + 1)))" by simp
  then show ?thesis using x by (auto simp: write_bytes_def div_mult2_eq)
qed

lemma read_write_same: "read_bytes (write_bytes m a n v) a n = v mod 256 ^ n"
proof (induction n arbitrary: a v)
  case (Suc n)
  have "read_bytes (write_bytes m a (Suc n) v) (a + 1) n = read_bytes (write_bytes m (a + 1) n (v div 256)) (a + 1) n"
    by (rule read_bytes_cong) (rule write_bytes_Suc_tail, simp)
  moreover have "unat (write_bytes m a (Suc n) v a) = v mod 256"
    by (simp add: write_bytes_def unsigned_of_nat take_bit_eq_mod)
  ultimately show ?case using Suc by (simp add: mod_mult2_eq)
qed simp

lemma read_write_word [simp]: "read_bytes (write_bytes m a 8 (unat (v :: u64))) a 8 = unat v"
proof -
  have "unat v < 2 ^ LENGTH(64)" by (rule unsigned_less)
  then show ?thesis by (simp add: read_write_same)
qed

lemma read_write_xmm [simp]: "read_bytes (write_bytes m a 16 (unat (v :: 128 word))) a 16 = unat v"
proof -
  have "unat v < 2 ^ LENGTH(128)" by (rule unsigned_less)
  then show ?thesis by (simp add: read_write_same)
qed

lemma read_write_outside:
  "b + int k \<le> a \<or> a + int n \<le> b \<Longrightarrow> read_bytes (write_bytes m a n v) b k = read_bytes m b k"
  by (rule read_bytes_cong) (auto intro: write_bytes_outside)

lemma uint_word_of_nat: "int n < 2 ^ 64 \<Longrightarrow> uint (word_of_nat n :: u64) = int n"
proof -
  assume "int n < 2 ^ 64"
  then have "n < 2 ^ LENGTH(64)" by simp
  then show ?thesis by (simp only: unsigned_of_nat take_bit_nat_eq_self)
qed

lemma uint_minus_nat: "int n \<le> uint (w :: u64) \<Longrightarrow> uint (w - word_of_nat n) = uint w - int n"
proof -
  assume n: "int n \<le> uint w"
  have "uint w < 2 ^ LENGTH(64)" by (rule unsigned_less)
  then have "uint (word_of_nat n :: u64) = int n" using n by (simp add: uint_word_of_nat)
  then show ?thesis using n uint_sub_lem [of "word_of_nat n" w] by simp
qed

lemma uint_plus_nat: "uint (w :: u64) + int n < 2 ^ 64 \<Longrightarrow> uint (w + word_of_nat n) = uint w + int n"
proof -
  assume n: "uint w + int n < 2 ^ 64"
  moreover have "0 \<le> uint w" by simp
  ultimately have "int n < 2 ^ 64" by linarith
  then have "uint (word_of_nat n :: u64) = int n" by (rule uint_word_of_nat)
  then show ?thesis using n uint_add_lem [of w "word_of_nat n"] by simp
qed

lemmas uint_minus_8 = uint_minus_nat [of 8, simplified]
lemmas uint_minus_16 = uint_minus_nat [of 16, simplified]
lemmas uint_plus_8 = uint_plus_nat [of _ 8, simplified]

section \<open>Access rights\<close>

text \<open>Every byte from \<open>lo\<close> to below \<open>hi\<close> may be read and written.\<close>
definition accessible :: "machine_env \<Rightarrow> u32 \<Rightarrow> int \<Rightarrow> int \<Rightarrow> bool" where
  "accessible E p lo hi \<longleftrightarrow>
    (\<forall>a. lo \<le> a \<and> a < hi \<longrightarrow> pkru_may_read p (key_of E a) \<and> pkru_may_write p (key_of E a))"

lemma accessible_sub: "accessible E p lo hi \<Longrightarrow> lo \<le> lo' \<Longrightarrow> hi' \<le> hi \<Longrightarrow> accessible E p lo' hi'"
  by (auto simp: accessible_def)

lemma load_accessible:
  "accessible E (pkru s) lo hi \<Longrightarrow> lo \<le> a \<Longrightarrow> a + int n \<le> hi \<Longrightarrow> load E s a n = Some (read_bytes (mem s) a n)"
  by (auto simp: load_def readable_def accessible_def list_all_iff)

lemma store_accessible:
  "accessible E (pkru s) lo hi \<Longrightarrow> lo \<le> a \<Longrightarrow> a + int n \<le> hi \<Longrightarrow>
    store E a n v s = Some (s\<lparr>mem := write_bytes (mem s) a n v\<rparr>)"
  by (auto simp: store_def writable_def accessible_def list_all_iff)

section \<open>Pushes and the matching pops\<close>

definition loc_span :: "ArgLocation \<Rightarrow> nat" where
  "loc_span l = (if is_128bit_float l then 16 else 8)"

definition span :: "ArgLocation list \<Rightarrow> nat" where
  "span ls = sum_list (map loc_span ls)"

lemma span_simps [simp]: "span [] = 0" "span (l # ls) = loc_span l + span ls"
  by (simp_all add: span_def)

definition gp_regs :: "ArgLocation list \<Rightarrow> string set" where
  "gp_regs ls = reg_name ` {l \<in> set ls. \<not> is_128bit_float l}"

definition xmm_regs :: "ArgLocation list \<Rightarrow> string set" where
  "xmm_regs ls = reg_name ` {l \<in> set ls. is_128bit_float l}"

lemma regs_simps [simp]:
  "gp_regs [] = {}" "xmm_regs [] = {}"
  "gp_regs (l # ls) = (if is_128bit_float l then gp_regs ls else insert (reg_name l) (gp_regs ls))"
  "xmm_regs (l # ls) = (if is_128bit_float l then insert (reg_name l) (xmm_regs ls) else xmm_regs ls)"
  by (auto simp: gp_regs_def xmm_regs_def)

definition saved_value :: "machine \<Rightarrow> ArgLocation \<Rightarrow> nat" where
  "saved_value s l = (if is_128bit_float l then unat (xmm s (reg_name l)) else unat (gpr s (reg_name l)))"

text \<open>The state after the pops, when the matching pushes were executed in state \<open>s\<close>.\<close>
definition restored :: "ArgLocation list \<Rightarrow> machine \<Rightarrow> machine \<Rightarrow> machine" where
  "restored ls s t = t\<lparr>gpr := (\<lambda>r. if r = ''rsp'' then gpr s r else if r \<in> gp_regs ls then gpr s r else gpr t r),
     xmm := (\<lambda>r. if r \<in> xmm_regs ls then xmm s r else xmm t r)\<rparr>"

lemma exec_push64:
  assumes "accessible E (pkru s) lo hi" "0 \<le> lo" "lo \<le> uint (gpr s ''rsp'') - 8" "uint (gpr s ''rsp'') \<le> hi"
  shows "push64 E v s = Some (s\<lparr>gpr := (gpr s)(''rsp'' := gpr s ''rsp'' - 8),
    mem := write_bytes (mem s) (uint (gpr s ''rsp'') - 8) 8 (unat v)\<rparr>)"
  using assms store_accessible [OF _ assms(3), where n = 8]
  by (simp add: push64_def set_reg_def Let_def uint_minus_8)

lemma exec_reg_push:
  assumes "accessible E (pkru s) lo hi" "0 \<le> lo" "lo \<le> uint (gpr s ''rsp'') - int (loc_span l)"
    "uint (gpr s ''rsp'') \<le> hi"
  shows "exec E (emit_reg_push l) s =
    Some (s\<lparr>gpr := (gpr s)(''rsp'' := gpr s ''rsp'' - word_of_nat (loc_span l)),
      mem := write_bytes (mem s) (uint (gpr s ''rsp'') - int (loc_span l)) (loc_span l) (saved_value s l)\<rparr>)"
proof (cases "is_128bit_float l")
  case True
  then show ?thesis using assms store_accessible [OF _ assms(3), where n = 16]
    by (simp add: emit_reg_push_def loc_span_def saved_value_def set_reg_def uint_minus_16)
next
  case False
  then show ?thesis using assms exec_push64 [OF assms(1,2)]
    by (simp add: emit_reg_push_def loc_span_def saved_value_def)
qed

lemma exec_pop64:
  assumes "accessible E (pkru s) lo hi" "lo \<le> uint (gpr s ''rsp'')" "uint (gpr s ''rsp'') + 8 \<le> hi"
  shows "pop64 E s = Some (word_of_nat (read_bytes (mem s) (uint (gpr s ''rsp'')) 8),
    s\<lparr>gpr := (gpr s)(''rsp'' := gpr s ''rsp'' + 8)\<rparr>)"
  using assms load_accessible [OF assms(1,2), where n = 8] by (simp add: pop64_def set_reg_def)

lemma exec_reg_pop:
  assumes "accessible E (pkru t) lo hi" "lo \<le> uint (gpr t ''rsp'')" "uint (gpr t ''rsp'') + int (loc_span l) \<le> hi"
    "read_bytes (mem t) (uint (gpr t ''rsp'')) (loc_span l) = saved_value s l" "reg_name l \<noteq> ''rsp''"
    "gpr s ''rsp'' = gpr t ''rsp'' + word_of_nat (loc_span l)"
  shows "exec E (emit_reg_pop l) t = Some (restored [l] s t)"
proof (cases "is_128bit_float l")
  case True
  then show ?thesis using assms load_accessible [OF assms(1,2), where n = 16]
    by (simp add: emit_reg_pop_def loc_span_def saved_value_def set_reg_def set_xmm_def restored_def fun_eq_iff)
next
  case False
  then show ?thesis using assms exec_pop64 [OF assms(1,2)]
    by (simp add: emit_reg_pop_def loc_span_def saved_value_def set_reg_def restored_def fun_eq_iff)
qed

lemma restored_compose:
  assumes "reg_name l \<noteq> ''rsp''" "\<And>r. r \<noteq> ''rsp'' \<Longrightarrow> gpr s' r = gpr s r" "xmm s' = xmm s"
  shows "restored [l] s (restored ls s' t) = restored (l # ls) s t"
  using assms by (simp add: restored_def fun_eq_iff)

lemma save_restore:
  assumes "accessible E (pkru s) lo hi" "0 \<le> lo" "lo \<le> uint (gpr s ''rsp'') - int (span ls)"
    "uint (gpr s ''rsp'') \<le> hi" "\<forall>l \<in> set ls. reg_name l \<noteq> ''rsp''"
  shows "\<exists>m. exec E (concat (map emit_reg_push ls)) s =
      Some (s\<lparr>gpr := (gpr s)(''rsp'' := gpr s ''rsp'' - word_of_nat (span ls)), mem := m\<rparr>) \<and>
    (\<forall>a. a < uint (gpr s ''rsp'') - int (span ls) \<or> uint (gpr s ''rsp'') \<le> a \<longrightarrow> m a = mem s a) \<and>
    (\<forall>t. gpr t ''rsp'' = gpr s ''rsp'' - word_of_nat (span ls) \<and> pkru t = pkru s \<and>
       (\<forall>a. uint (gpr s ''rsp'') - int (span ls) \<le> a \<and> a < uint (gpr s ''rsp'') \<longrightarrow> mem t a = m a) \<longrightarrow>
       exec E (concat (map emit_reg_pop (rev ls))) t = Some (restored ls s t))"
  using assms
proof (induction ls arbitrary: s)
  case Nil
  show ?case by (intro exI [of _ "mem s"]) (auto simp: restored_def fun_eq_iff)
next
  case (Cons l ls)
  let ?sp = "gpr s ''rsp''" and ?n = "loc_span l"
  define s' where "s' = s\<lparr>gpr := (gpr s)(''rsp'' := ?sp - word_of_nat ?n),
    mem := write_bytes (mem s) (uint ?sp - int ?n) ?n (saved_value s l)\<rparr>"
  have push: "exec E (emit_reg_push l) s = Some s'"
    unfolding s'_def using Cons.prems by (intro exec_reg_push) auto
  have sp': "gpr s' ''rsp'' = ?sp - word_of_nat ?n" and gp': "\<And>r. r \<noteq> ''rsp'' \<Longrightarrow> gpr s' r = gpr s r"
    and xmm': "xmm s' = xmm s" and pkru': "pkru s' = pkru s"
    and mem': "mem s' = write_bytes (mem s) (uint ?sp - int ?n) ?n (saved_value s l)"
    by (simp_all add: s'_def)
  have u: "uint (gpr s' ''rsp'') = uint ?sp - int ?n"
    unfolding sp' using Cons.prems by (intro uint_minus_nat) auto
  have prem: "accessible E (pkru s') lo hi" "lo \<le> uint (gpr s' ''rsp'') - int (span ls)"
    "uint (gpr s' ''rsp'') \<le> hi" "\<forall>l \<in> set ls. reg_name l \<noteq> ''rsp''"
    using Cons.prems u pkru' by auto
  obtain m where ex: "exec E (concat (map emit_reg_push ls)) s' =
        Some (s'\<lparr>gpr := (gpr s')(''rsp'' := gpr s' ''rsp'' - word_of_nat (span ls)), mem := m\<rparr>)"
    and out: "\<forall>a. a < uint (gpr s' ''rsp'') - int (span ls) \<or> uint (gpr s' ''rsp'') \<le> a \<longrightarrow> m a = mem s' a"
    and pops: "\<forall>t. gpr t ''rsp'' = gpr s' ''rsp'' - word_of_nat (span ls) \<and> pkru t = pkru s' \<and>
       (\<forall>a. uint (gpr s' ''rsp'') - int (span ls) \<le> a \<and> a < uint (gpr s' ''rsp'') \<longrightarrow> mem t a = m a) \<longrightarrow>
       exec E (concat (map emit_reg_pop (rev ls))) t = Some (restored ls s' t)"
    using Cons.IH [OF prem(1) Cons.prems(2) prem(2-4)] by (elim exE conjE)
  have v: "read_bytes (mem s') (uint ?sp - int ?n) ?n = saved_value s l"
    by (simp add: loc_span_def saved_value_def mem')
  have rl: "reg_name l \<noteq> ''rsp''" using Cons.prems by simp
  have pop: "exec E (emit_reg_pop l) (restored ls s' t) = Some (restored (l # ls) s t)"
    if t: "pkru t = pkru s" "\<forall>a. uint ?sp - int (span (l # ls)) \<le> a \<and> a < uint ?sp \<longrightarrow> mem t a = m a" for t
  proof -
    have sp: "gpr (restored ls s' t) ''rsp'' = gpr s' ''rsp''" by (simp add: restored_def)
    have "read_bytes (mem t) (uint ?sp - int ?n) ?n = read_bytes (mem s') (uint ?sp - int ?n) ?n"
      using t(2) out u by (intro read_bytes_cong) auto
    then have "exec E (emit_reg_pop l) (restored ls s' t) = Some (restored [l] s (restored ls s' t))"
      using Cons.prems t u v rl sp sp'
      by (intro exec_reg_pop [where lo = lo and hi = hi]) (simp_all add: restored_def)
    then show ?thesis using restored_compose [of l s' s ls t] rl gp' xmm' by simp
  qed
  show ?case
  proof (intro exI [of _ m] conjI allI impI)
    show "exec E (concat (map emit_reg_push (l # ls))) s =
      Some (s\<lparr>gpr := (gpr s)(''rsp'' := ?sp - word_of_nat (span (l # ls))), mem := m\<rparr>)"
      using push ex by (simp add: s'_def algebra_simps)
  next
    fix a assume "a < uint ?sp - int (span (l # ls)) \<or> uint ?sp \<le> a"
    then show "m a = mem s a" using out [rule_format, of a] u by (auto simp: mem' write_bytes_outside)
  next
    fix t :: machine
    assume t: "gpr t ''rsp'' = ?sp - word_of_nat (span (l # ls)) \<and> pkru t = pkru s \<and>
      (\<forall>a. uint ?sp - int (span (l # ls)) \<le> a \<and> a < uint ?sp \<longrightarrow> mem t a = m a)"
    then have "exec E (concat (map emit_reg_pop (rev ls))) t = Some (restored ls s' t)"
      using u by (intro pops [rule_format]) (auto simp: sp' pkru' algebra_simps)
    then show "exec E (concat (map emit_reg_pop (rev (l # ls)))) t = Some (restored (l # ls) s t)"
      using pop [of t] t by simp
  qed
qed

end
