(* ===== verification/Gate_Blocks.thy ===== *)
theory Gate_Blocks
  imports Machine_Laws
begin

text \<open>
  What each group of instructions of a call gate does on the machine, as an
  equation for its execution: prologue and epilogue, the changes of PKRU, the
  switch of stacks, the copy of stack arguments, and register scrubbing.
\<close>

section \<open>PKRU\<close>

lemma ucast_up_down [simp]: "ucast (ucast (x :: u32) :: u64) = x"
  by (simp add: unsigned_ucast_eq take_bit_word_eq_self)

lemma exec_wrpkru [simp]:
  "exec E (emit_wrpkru p) s =
    Some (s\<lparr>gpr := (gpr s)(''rcx'' := 0, ''rdx'' := 0, ''rax'' := ucast (PKRU p)), pkru := PKRU p\<rparr>)"
  by (simp add: emit_wrpkru_def set_reg_def)

lemma exec_mixed_wrpkru [simp]:
  "exec E (emit_mixed_wrpkru p q) s =
    Some (s\<lparr>gpr := (gpr s)(''rcx'' := 0, ''rdx'' := 0, ''rax'' := ucast (mixed_PKRU p q)), pkru := mixed_PKRU p q\<rparr>)"
  by (simp add: emit_mixed_wrpkru_def set_reg_def)

lemma exec_intermediate_enter:
  "exec E (x86_emit_intermediate_pkru c t ''rcx'' ''rdx'') s =
    Some (s\<lparr>gpr := (gpr s)(''r10'' := gpr s ''rcx'', ''r11'' := gpr s ''rdx'', ''rax'' := ucast (mixed_PKRU c t)),
            pkru := mixed_PKRU c t\<rparr>)"
  by (simp add: x86_emit_intermediate_pkru_def set_reg_def fun_eq_iff)

lemma exec_intermediate_leave:
  "exec E (x86_emit_intermediate_pkru c t ''rax'' ''rdx'') s =
    Some (s\<lparr>gpr := (gpr s)(''r10'' := gpr s ''rax'', ''r11'' := gpr s ''rdx'', ''rcx'' := 0),
            pkru := mixed_PKRU c t\<rparr>)"
  by (simp add: x86_emit_intermediate_pkru_def set_reg_def fun_eq_iff)

lemma exec_set_pkru:
  "emit_set_pkru b t X86 None = Some code \<Longrightarrow> exec E code s =
    Some (s\<lparr>gpr := (gpr s)(''r10'' := gpr s ''rcx'', ''r11'' := gpr s ''rdx'', ''rax'' := ucast (PKRU t)),
            pkru := PKRU t\<rparr>)"
  by (auto simp: emit_set_pkru_def set_reg_def fun_eq_iff)

lemma exec_set_return_pkru:
  "emit_set_return_pkru c X86 = Some code \<Longrightarrow> exec E code s =
    Some (s\<lparr>gpr := (gpr s)(''r10'' := gpr s ''rax'', ''r11'' := gpr s ''rdx'', ''rcx'' := 0),
            pkru := PKRU c\<rparr>)"
  by (auto simp: emit_set_return_pkru_def set_reg_def fun_eq_iff)

section \<open>Switching stacks\<close>

definition slot :: "machine_env \<Rightarrow> nat \<Rightarrow> int" where
  "slot E p = uint (fs_base E + tpoff E p)"

lemma exec_switch_stacks:
  assumes "accessible E (pkru s) (slot E old) (slot E old + 8)" "accessible E (pkru s) (slot E new) (slot E new + 8)"
    and "m = write_bytes (mem s) (slot E old) 8 (unat (gpr s ''rsp''))"
  shows "exec E (emit_switch_stacks old new X86) s =
    Some (s\<lparr>gpr := (gpr s)(''r11'' := tpoff E new, ''rsp'' := word_of_nat (read_bytes m (slot E new) 8)), mem := m\<rparr>)"
proof -
  let ?s1 = "set_reg ''r11'' (tpoff E old) s" and ?s2 = "s\<lparr>mem := m, gpr := (gpr s)(''r11'' := tpoff E new)\<rparr>"
  have "store E (slot E old) 8 (unat (gpr s ''rsp'')) ?s1 = Some (?s1\<lparr>mem := m\<rparr>)"
    using store_accessible [of E ?s1 "slot E old" "slot E old + 8" "slot E old" 8] assms(1,3)
    by (simp add: set_reg_def)
  moreover have "load E ?s2 (slot E new) 8 = Some (read_bytes m (slot E new) 8)"
    using load_accessible [of E ?s2 "slot E new" "slot E new + 8" "slot E new" 8] assms(2) by simp
  ultimately show ?thesis
    by (simp add: emit_switch_stacks_def emit_load_sp_offset_def slot_def set_reg_def fun_eq_iff)
qed

section \<open>Scrubbing\<close>

definition gp_loc :: "string \<Rightarrow> ArgLocation" where
  "gp_loc r = (Register Integral 8)\<lparr>allocated := True, loc_reg := Some r\<rparr>"

lemma gp_loc_simps [simp]:
  "reg_name (gp_loc r) = r" "is_128bit_float (gp_loc r) = is_128bit_reg r" "onStack (gp_loc r) = False"
  by (simp_all add: gp_loc_def reg_name_def as_str_def is_128bit_float_def Register_def)

definition kept :: "ArgLocation list \<Rightarrow> bool \<Rightarrow> ArgLocation list" where
  "kept locs indirect = reg_locs locs @ (if indirect then [gp_loc ''r12''] else [])"

lemma r12_not_128 [simp]: "\<not> is_128bit_reg ''r12''"
  by (simp add: is_128bit_reg_def)

lemma push_r12: "[Pushq ''r12''] = emit_reg_push (gp_loc ''r12'')" and pop_r12: "[Popq ''r12''] = emit_reg_pop (gp_loc ''r12'')"
  by (simp_all add: emit_reg_push_def emit_reg_pop_def)

lemma exec_Cons_fun: "exec E (i # is) = (\<lambda>s. Option.bind (exec1 E i s) (exec E is))"
  by (simp add: fun_eq_iff)

lemma exec_append_fun: "exec E (xs @ ys) = (\<lambda>s. Option.bind (exec E xs s) (exec E ys))"
  by (simp add: fun_eq_iff)

lemma exec_comment: "exec E (Comment c # is) s = exec E is s"
  by simp

lemma scrub_code:
  assumes "pkey \<noteq> 0"
  shows "exec E (emit_scrub_regs pkey locs indirect X86) s =
    exec E (concat (map emit_reg_push (kept locs indirect)) @ [Call ''__libia2_scrub_registers''] @
      concat (map emit_reg_pop (rev (kept locs indirect)))) s"
proof -
  have "reg_locs locs = []" if "reg_arg_count locs = 0"
    using that by (simp add: reg_arg_count_def reg_locs_def)
  then show ?thesis using assms
    by (cases indirect; cases "reg_arg_count locs > 0")
      (simp_all add: emit_scrub_regs_def kept_def Let_def push_r12 pop_r12 exec_Cons_fun exec_append_fun)
qed

definition scrub_locs_ok :: "ArgLocation list \<Rightarrow> bool" where
  "scrub_locs_ok ls \<longleftrightarrow> (\<forall>l \<in> set ls. reg_name l \<noteq> ''rsp'')"

lemma exec_scrub:
  assumes "pkey \<noteq> 0" "accessible E (pkru s) lo hi" "0 \<le> lo"
    "lo \<le> uint (gpr s ''rsp'') - int (span (kept locs ind)) - 8" "uint (gpr s ''rsp'') \<le> hi"
    "scrub_locs_ok (kept locs ind)"
  shows "\<exists>m. exec E (emit_scrub_regs pkey locs ind X86) s =
      Some (restored (kept locs ind) s (libia2_scrub_registers (s\<lparr>mem := m\<rparr>))) \<and>
    (\<forall>a. a < uint (gpr s ''rsp'') - int (span (kept locs ind)) - 8 \<or> uint (gpr s ''rsp'') \<le> a \<longrightarrow> m a = mem s a)"
proof -
  let ?ls = "kept locs ind" and ?sp = "gpr s ''rsp''"
  let ?sp1 = "?sp - word_of_nat (span ?ls)"
  have le: "lo \<le> uint ?sp - int (span ?ls)" using assms(4) by simp
  have u: "uint ?sp1 = uint ?sp - int (span ?ls)" using assms(3) le by (intro uint_minus_nat) simp
  from save_restore [OF assms(2,3) le assms(5) assms(6) [unfolded scrub_locs_ok_def]]
  obtain m where push: "exec E (concat (map emit_reg_push ?ls)) s =
        Some (s\<lparr>gpr := (gpr s)(''rsp'' := ?sp1), mem := m\<rparr>)"
    and out: "\<forall>a. a < uint ?sp - int (span ?ls) \<or> uint ?sp \<le> a \<longrightarrow> m a = mem s a"
    and pops: "\<forall>t. gpr t ''rsp'' = ?sp1 \<and> pkru t = pkru s \<and>
       (\<forall>a. uint ?sp - int (span ?ls) \<le> a \<and> a < uint ?sp \<longrightarrow> mem t a = m a) \<longrightarrow>
       exec E (concat (map emit_reg_pop (rev ?ls))) t = Some (restored ?ls s t)"
    by (elim exE conjE)
  define s1 where "s1 = s\<lparr>gpr := (gpr s)(''rsp'' := ?sp1), mem := m\<rparr>"
  have s1: "gpr s1 ''rsp'' = ?sp1" "pkru s1 = pkru s" "mem s1 = m" by (simp_all add: s1_def)
  define m' where "m' = write_bytes m (uint ?sp1 - 8) 8 (unat (ret_addr E))"
  define t where "t = (libia2_scrub_registers (s1\<lparr>mem := m'\<rparr>))\<lparr>mem := m'\<rparr>"
  have acc: "accessible E (pkru s1) lo hi" "lo \<le> uint (gpr s1 ''rsp'') - 8" "uint (gpr s1 ''rsp'') \<le> hi"
    using assms u by (simp_all add: s1)
  have call: "exec E [Call ''__libia2_scrub_registers''] s1 = Some t"
  proof -
    define s2 where "s2 = libia2_scrub_registers (s1\<lparr>gpr := (gpr s1)(''rsp'' := gpr s1 ''rsp'' - 8), mem := m'\<rparr>)"
    have rsp2: "gpr s2 ''rsp'' = ?sp1 - 8" "pkru s2 = pkru s"
      by (simp_all add: s2_def libia2_scrub_registers_def scrubbed_registers_def s1)
    have "uint (?sp1 - 8) = uint ?sp1 - 8" using acc assms(3) by (intro uint_minus_8) (simp add: s1)
    then have "pop64 E s2 = Some (word_of_nat (read_bytes (mem s2) (uint (gpr s2 ''rsp'')) 8),
        s2\<lparr>gpr := (gpr s2)(''rsp'' := gpr s2 ''rsp'' + 8)\<rparr>)"
      using acc by (intro exec_pop64 [where lo = lo and hi = hi]) (simp_all add: rsp2 s1)
    moreover have "s2\<lparr>gpr := (gpr s2)(''rsp'' := gpr s2 ''rsp'' + 8)\<rparr> = t"
      by (simp add: t_def rsp2(1)) (simp add: s2_def libia2_scrub_registers_def scrubbed_registers_def s1 fun_eq_iff)
    moreover have "push64 E (ret_addr E) s1 = Some (s1\<lparr>gpr := (gpr s1)(''rsp'' := gpr s1 ''rsp'' - 8), mem := m'\<rparr>)"
      using exec_push64 [OF acc(1) assms(3) acc(2,3)] by (simp add: m'_def s1)
    ultimately show ?thesis by (simp add: s2_def [symmetric])
  qed
  have t: "gpr t ''rsp'' = ?sp1" "pkru t = pkru s" "mem t = m'"
    by (simp_all add: t_def libia2_scrub_registers_def scrubbed_registers_def s1)
  have m': "m' a = m a" if "a < uint ?sp1 - 8 \<or> uint ?sp1 \<le> a" for a
    using that by (auto simp: m'_def write_bytes_outside)
  have "exec E (concat (map emit_reg_pop (rev ?ls))) t = Some (restored ?ls s t)"
    using m' u by (intro pops [rule_format]) (simp add: t)
  moreover have "restored ?ls s t = restored ?ls s (libia2_scrub_registers (s\<lparr>mem := m'\<rparr>))"
    by (simp add: restored_def t_def s1_def libia2_scrub_registers_def scrubbed_registers_def fun_eq_iff)
  ultimately have "exec E (emit_scrub_regs pkey locs ind X86) s =
      Some (restored ?ls s (libia2_scrub_registers (s\<lparr>mem := m'\<rparr>)))"
    by (simp only: scrub_code [OF assms(1)] exec_append push [folded s1_def] call Option.bind.simps)
  then show ?thesis using out m' u by (intro exI [of _ m']) auto
qed

section \<open>Prologue and epilogue\<close>

lemma push_list: "\<forall>r \<in> set rs. \<not> is_128bit_reg r \<Longrightarrow> map Pushq rs = concat (map emit_reg_push (map gp_loc rs))"
  by (induction rs) (simp_all add: emit_reg_push_def)

lemma pop_list: "\<forall>r \<in> set rs. \<not> is_128bit_reg r \<Longrightarrow> map Popq rs = concat (map emit_reg_pop (map gp_loc rs))"
  by (induction rs) (simp_all add: emit_reg_pop_def)

lemma gp_list:
  assumes "\<forall>r \<in> set rs. \<not> is_128bit_reg r"
  shows "span (map gp_loc rs) = 8 * length rs" "gp_regs (map gp_loc rs) = set rs" "xmm_regs (map gp_loc rs) = {}"
  using assms by (induction rs) (simp_all add: loc_span_def)

lemma save_restore_list:
  assumes "accessible E (pkru s) lo hi" "0 \<le> lo" "lo \<le> uint (gpr s ''rsp'') - 8 * int (length rs)"
    "uint (gpr s ''rsp'') \<le> hi" "\<forall>r \<in> set rs. \<not> is_128bit_reg r \<and> r \<noteq> ''rsp''"
  shows "\<exists>m. exec E (map Pushq rs) s =
      Some (s\<lparr>gpr := (gpr s)(''rsp'' := gpr s ''rsp'' - 8 * word_of_nat (length rs)), mem := m\<rparr>) \<and>
    (\<forall>a. a < uint (gpr s ''rsp'') - 8 * int (length rs) \<or> uint (gpr s ''rsp'') \<le> a \<longrightarrow> m a = mem s a) \<and>
    (\<forall>t. gpr t ''rsp'' = gpr s ''rsp'' - 8 * word_of_nat (length rs) \<and> pkru t = pkru s \<and>
       (\<forall>a. uint (gpr s ''rsp'') - 8 * int (length rs) \<le> a \<and> a < uint (gpr s ''rsp'') \<longrightarrow> mem t a = m a) \<longrightarrow>
       exec E (map Popq (rev rs)) t =
         Some (t\<lparr>gpr := (\<lambda>r. if r \<in> insert ''rsp'' (set rs) then gpr s r else gpr t r)\<rparr>))"
proof -
  have rs: "\<forall>r \<in> set rs. \<not> is_128bit_reg r" using assms(5) by blast
  have "restored (map gp_loc rs) s t = t\<lparr>gpr := (\<lambda>r. if r \<in> insert ''rsp'' (set rs) then gpr s r else gpr t r)\<rparr>" for t
    by (simp add: restored_def gp_list [OF rs] fun_eq_iff)
  moreover have "map Popq (rev rs) = concat (map emit_reg_pop (rev (map gp_loc rs)))"
    using pop_list [of "rev rs"] rs by (simp add: rev_map)
  ultimately show ?thesis
    using save_restore [OF assms(1,2), of "map gp_loc rs"] assms(3-5) by (simp add: push_list [OF rs] gp_list [OF rs])
qed

lemma exec_frame:
  assumes "accessible E (pkru s) lo hi" "0 \<le> lo" "lo \<le> uint (gpr s ''rsp'') - 48" "uint (gpr s ''rsp'') \<le> hi"
  shows "\<exists>m. exec E (emit_prologue X86) s =
      Some (s\<lparr>gpr := (gpr s)(''rsp'' := gpr s ''rsp'' - 48, ''rbp'' := gpr s ''rsp'' - 8), mem := m\<rparr>) \<and>
    (\<forall>a. a < uint (gpr s ''rsp'') - 48 \<or> uint (gpr s ''rsp'') \<le> a \<longrightarrow> m a = mem s a) \<and>
    (\<forall>t. gpr t ''rsp'' = gpr s ''rsp'' - 48 \<and> pkru t = pkru s \<and>
       (\<forall>a. uint (gpr s ''rsp'') - 48 \<le> a \<and> a < uint (gpr s ''rsp'') \<longrightarrow> mem t a = m a) \<longrightarrow>
       exec E (emit_epilogue X86) t =
         Some (t\<lparr>gpr := (\<lambda>r. if r \<in> set (''rsp'' # ''rbp'' # x86_preserved_registers) then gpr s r else gpr t r)\<rparr>))"
proof -
  let ?sp = "gpr s ''rsp''" and ?rs = x86_preserved_registers
  define m1 where "m1 = write_bytes (mem s) (uint ?sp - 8) 8 (unat (gpr s ''rbp''))"
  define s1 where "s1 = s\<lparr>gpr := (gpr s)(''rsp'' := ?sp - 8, ''rbp'' := ?sp - 8), mem := m1\<rparr>"
  have s1: "gpr s1 ''rsp'' = ?sp - 8" "pkru s1 = pkru s" "mem s1 = m1" by (simp_all add: s1_def)
  have u: "uint (?sp - 8) = uint ?sp - 8" using assms by (intro uint_minus_8) simp
  have enter: "exec E [Pushq ''rbp'', Movq ''rsp'' ''rbp''] s = Some s1"
    using exec_push64 [OF assms(1,2) _ assms(4)] assms(3)
    by (simp add: s1_def m1_def set_reg_def)
  have rs: "length ?rs = 5" "\<forall>r \<in> set ?rs. \<not> is_128bit_reg r \<and> r \<noteq> ''rsp''"
    by (simp_all add: x86_preserved_registers_def is_128bit_reg_def)
  have w: "?sp - 8 - 8 * word_of_nat (length ?rs) = ?sp - 48" "uint ?sp - 8 - 8 * int (length ?rs) = uint ?sp - 48"
    by (simp_all add: rs(1) diff_diff_eq)
  have acc: "accessible E (pkru s1) lo hi" "lo \<le> uint (gpr s1 ''rsp'') - 8 * int (length ?rs)" "uint (gpr s1 ''rsp'') \<le> hi"
    using assms by (simp_all add: s1 u w)
  obtain m where push: "exec E (map Pushq ?rs) s1 = Some (s1\<lparr>gpr := (gpr s1)(''rsp'' := ?sp - 48), mem := m\<rparr>)"
    and out: "\<forall>a. a < uint ?sp - 48 \<or> uint ?sp - 8 \<le> a \<longrightarrow> m a = m1 a"
    and pops: "\<forall>t. gpr t ''rsp'' = ?sp - 48 \<and> pkru t = pkru s \<and>
       (\<forall>a. uint ?sp - 48 \<le> a \<and> a < uint ?sp - 8 \<longrightarrow> mem t a = m a) \<longrightarrow>
       exec E (map Popq (rev ?rs)) t = Some (t\<lparr>gpr := (\<lambda>r. if r \<in> insert ''rsp'' (set ?rs) then gpr s1 r else gpr t r)\<rparr>)"
    using save_restore_list [OF acc(1) assms(2) acc(2,3) rs(2), unfolded s1 u w] by (elim exE conjE)
  have sv: "read_bytes m (uint ?sp - 8) 8 = unat (gpr s ''rbp'')"
    using out by (subst read_bytes_cong [of _ 8 m m1]) (auto simp: m1_def)
  show ?thesis
  proof (intro exI [of _ m] conjI allI impI)
    show "exec E (emit_prologue X86) s = Some (s\<lparr>gpr := (gpr s)(''rsp'' := ?sp - 48, ''rbp'' := ?sp - 8), mem := m\<rparr>)"
    proof -
      have "emit_prologue X86 = [Pushq ''rbp'', Movq ''rsp'' ''rbp''] @ map Pushq ?rs" by (simp add: emit_prologue_def)
      then have "exec E (emit_prologue X86) s = Some (s1\<lparr>gpr := (gpr s1)(''rsp'' := ?sp - 48), mem := m\<rparr>)"
        by (simp only: exec_append enter push Option.bind.simps)
      also have "\<dots> = Some (s\<lparr>gpr := (gpr s)(''rsp'' := ?sp - 48, ''rbp'' := ?sp - 8), mem := m\<rparr>)"
        by (simp add: s1_def fun_eq_iff)
      finally show ?thesis .
    qed
  next
    fix a assume "a < uint ?sp - 48 \<or> uint ?sp \<le> a"
    then show "m a = mem s a" using out [rule_format, of a] by (auto simp: m1_def write_bytes_outside)
  next
    fix t :: machine
    assume t: "gpr t ''rsp'' = ?sp - 48 \<and> pkru t = pkru s \<and>
       (\<forall>a. uint ?sp - 48 \<le> a \<and> a < uint ?sp \<longrightarrow> mem t a = m a)"
    define t1 where "t1 = t\<lparr>gpr := (\<lambda>r. if r \<in> insert ''rsp'' (set ?rs) then gpr s1 r else gpr t r)\<rparr>"
    have t1: "gpr t1 ''rsp'' = ?sp - 8" "pkru t1 = pkru s" "mem t1 = mem t" using t by (simp_all add: t1_def s1)
    have p: "exec E (map Popq (rev ?rs)) t = Some t1" unfolding t1_def using t by (intro pops [rule_format]) auto
    have "read_bytes (mem t) (uint ?sp - 8) 8 = unat (gpr s ''rbp'')"
      using t sv by (subst read_bytes_cong [of _ 8 _ m]) auto
    then have "pop64 E t1 = Some (gpr s ''rbp'', t1\<lparr>gpr := (gpr t1)(''rsp'' := ?sp)\<rparr>)"
      using exec_pop64 [of E t1 lo hi] assms u by (simp add: t1)
    then have "exec E [Popq ''rbp''] t1 = Some (t1\<lparr>gpr := (gpr t1)(''rsp'' := ?sp, ''rbp'' := gpr s ''rbp'')\<rparr>)"
      by (simp add: set_reg_def)
    moreover have "t1\<lparr>gpr := (gpr t1)(''rsp'' := ?sp, ''rbp'' := gpr s ''rbp'')\<rparr> =
        t\<lparr>gpr := (\<lambda>r. if r \<in> set (''rsp'' # ''rbp'' # ?rs) then gpr s r else gpr t r)\<rparr>"
      by (auto simp: t1_def s1_def fun_eq_iff x86_preserved_registers_def)
    ultimately show "exec E (emit_epilogue X86) t =
        Some (t\<lparr>gpr := (\<lambda>r. if r \<in> set (''rsp'' # ''rbp'' # ?rs) then gpr s r else gpr t r)\<rparr>)"
      by (simp only: emit_epilogue_def exec_append p Option.bind.simps if_True simp_thms)
  qed
qed

section \<open>Stack arguments\<close>

lemma exec_push_mem:
  assumes "accessible E (pkru s) lo hi" "0 \<le> lo" "lo \<le> uint (gpr s ''rsp'') - 8 * int (length offs)"
    "uint (gpr s ''rsp'') \<le> hi"
    "\<forall>off \<in> set offs. accessible E (pkru s) (addr s ''rax'' off) (addr s ''rax'' off + 8) \<and>
       (addr s ''rax'' off + 8 \<le> lo \<or> hi \<le> addr s ''rax'' off)"
  shows "\<exists>m. exec E (map (\<lambda>off. Pushq_mem off ''rax'') offs) s =
      Some (s\<lparr>gpr := (gpr s)(''rsp'' := gpr s ''rsp'' - 8 * word_of_nat (length offs)), mem := m\<rparr>) \<and>
    (\<forall>a. a < uint (gpr s ''rsp'') - 8 * int (length offs) \<or> uint (gpr s ''rsp'') \<le> a \<longrightarrow> m a = mem s a) \<and>
    (\<forall>k < length offs. read_bytes m (uint (gpr s ''rsp'') - 8 * int k - 8) 8 =
       read_bytes (mem s) (addr s ''rax'' (offs ! k)) 8)"
  using assms
proof (induction offs arbitrary: s)
  case Nil
  show ?case by (intro exI [of _ "mem s"]) (simp add: fun_upd_triv)
next
  case (Cons off offs)
  let ?sp = "gpr s ''rsp''" and ?a = "addr s ''rax'' off"
  define v where "v = read_bytes (mem s) ?a 8"
  define s' where "s' = s\<lparr>gpr := (gpr s)(''rsp'' := ?sp - 8), mem := write_bytes (mem s) (uint ?sp - 8) 8 (unat (word_of_nat v :: u64))\<rparr>"
  have "v < 2 ^ LENGTH(64)" using read_bytes_bound [of "mem s" ?a 8] by (simp add: v_def)
  then have uv: "unat (word_of_nat v :: u64) = v" by (simp only: unsigned_of_nat take_bit_nat_eq_self of_nat_id)
  have ld: "load E s ?a 8 = Some v"
    using load_accessible [of E s ?a "?a + 8" ?a 8] Cons.prems(5) by (simp add: v_def)
  have step: "exec1 E (Pushq_mem off ''rax'') s = Some s'"
    using exec_push64 [OF Cons.prems(1,2) _ Cons.prems(4), of "word_of_nat v"] Cons.prems(3) by (simp add: ld s'_def)
  have s': "gpr s' ''rsp'' = ?sp - 8" "pkru s' = pkru s" "gpr s' ''rax'' = gpr s ''rax''"
    "mem s' = write_bytes (mem s) (uint ?sp - 8) 8 v"
    by (simp_all add: s'_def uv)
  have ad: "addr s' ''rax'' o' = addr s ''rax'' o'" for o' by (simp add: addr_def s')
  have u: "uint (gpr s' ''rsp'') = uint ?sp - 8" unfolding s' using Cons.prems by (intro uint_minus_8) simp
  have prem: "accessible E (pkru s') lo hi" "lo \<le> uint (gpr s' ''rsp'') - 8 * int (length offs)"
    "uint (gpr s' ''rsp'') \<le> hi"
    "\<forall>off \<in> set offs. accessible E (pkru s') (addr s' ''rax'' off) (addr s' ''rax'' off + 8) \<and>
       (addr s' ''rax'' off + 8 \<le> lo \<or> hi \<le> addr s' ''rax'' off)"
    using Cons.prems by (simp_all add: u ad s'(2))
  obtain m where ex: "exec E (map (\<lambda>off. Pushq_mem off ''rax'') offs) s' =
        Some (s'\<lparr>gpr := (gpr s')(''rsp'' := gpr s' ''rsp'' - 8 * word_of_nat (length offs)), mem := m\<rparr>)"
    and out: "\<forall>a. a < uint (gpr s' ''rsp'') - 8 * int (length offs) \<or> uint (gpr s' ''rsp'') \<le> a \<longrightarrow> m a = mem s' a"
    and vals: "\<forall>k < length offs. read_bytes m (uint (gpr s' ''rsp'') - 8 * int k - 8) 8 =
       read_bytes (mem s') (addr s' ''rax'' (offs ! k)) 8"
    using Cons.IH [OF prem(1) Cons.prems(2) prem(2-4)] by (elim exE conjE)
  show ?case
  proof (intro exI [of _ m] conjI allI impI)
    show "exec E (map (\<lambda>off. Pushq_mem off ''rax'') (off # offs)) s =
      Some (s\<lparr>gpr := (gpr s)(''rsp'' := ?sp - 8 * word_of_nat (length (off # offs))), mem := m\<rparr>)"
      using step ex by (simp add: s'_def algebra_simps)
  next
    fix a assume "a < uint ?sp - 8 * int (length (off # offs)) \<or> uint ?sp \<le> a"
    then show "m a = mem s a" using out [rule_format, of a] u by (auto simp: s' write_bytes_outside)
  next
    fix k assume k: "k < length (off # offs)"
    show "read_bytes m (uint ?sp - 8 * int k - 8) 8 = read_bytes (mem s) (addr s ''rax'' ((off # offs) ! k)) 8"
    proof (cases k)
      case 0
      have "read_bytes m (uint ?sp - 8) 8 = read_bytes (mem s') (uint ?sp - 8) 8"
        using out u by (intro read_bytes_cong) auto
      also have "\<dots> = v" using read_write_word [of "mem s" "uint ?sp - 8" "word_of_nat v"] uv by (simp add: s')
      finally show ?thesis using 0 by (simp add: v_def)
    next
      case (Suc k')
      then have "offs ! k' \<in> set offs" using k by simp
      then have "read_bytes (mem s') (addr s ''rax'' (offs ! k')) 8 = read_bytes (mem s) (addr s ''rax'' (offs ! k')) 8"
        using Cons.prems unfolding s' by (intro read_write_outside) fastforce
      then show ?thesis using vals [rule_format, of k'] Suc k u by (simp add: ad algebra_simps)
    qed
  qed
qed

lemma exec_copy_stack_args:
  assumes "accessible E (pkru s) lo hi" "0 \<le> lo" "lo \<le> uint (gpr s ''rsp'') - 8 * int n" "uint (gpr s ''rsp'') \<le> hi"
    and "accessible E (pkru s) (slot E c) (slot E c + 8)" "read_bytes (mem s) (slot E c) 8 = unat (F :: u64)"
    and "accessible E (pkru s) (uint F + 56) (uint F + 56 + 8 * int n)"
    and "uint F + 56 + 8 * int n \<le> lo \<or> hi \<le> uint F + 56"
    and "stack_arg_size l + stack_arg_padding l = 8 * n" "stack_arg_padding l < 8"
      "wrapper_stack_arg_size l = stack_arg_size l"
  shows "\<exists>s'. exec E (x86_copy_stack_args l c) s = Some s' \<and>
    (\<forall>r. r \<notin> {''rax'', ''r12'', ''rsp''} \<longrightarrow> gpr s' r = gpr s r) \<and> xmm s' = xmm s \<and> pkru s' = pkru s \<and>
    gpr s' ''rsp'' = gpr s ''rsp'' - 8 * word_of_nat n \<and>
    (\<forall>a. a < uint (gpr s ''rsp'') - 8 * int n \<or> uint (gpr s ''rsp'') \<le> a \<longrightarrow> mem s' a = mem s a) \<and>
    (\<forall>j < n. read_bytes (mem s') (uint (gpr s ''rsp'') - 8 * int n + 8 * int j) 8 =
       read_bytes (mem s) (uint F + 56 + 8 * int j) 8)"
proof (cases "stack_arg_size l = 0")
  case True
  then have "n = 0" using assms(9,10) by simp
  then show ?thesis using True by (simp add: x86_copy_stack_args_def)
next
  case False
  let ?offs = "map (\<lambda>k. 8 * n + 48 - 8 * k) [0..<n]"
  define s1 where "s1 = s\<lparr>gpr := (gpr s)(''r12'' := tpoff E c, ''rax'' := F)\<rparr>"
  have s1: "gpr s1 ''rsp'' = gpr s ''rsp''" "pkru s1 = pkru s" "mem s1 = mem s" "xmm s1 = xmm s" "gpr s1 ''rax'' = F"
    by (simp_all add: s1_def)
  have "load E (set_reg ''r12'' (tpoff E c) s) (slot E c) 8 = Some (unat F)"
    using load_accessible [of E "set_reg ''r12'' (tpoff E c) s" "slot E c" "slot E c + 8" "slot E c" 8] assms(5,6)
    by (simp add: set_reg_def)
  then have pre: "exec E [Mov_gottpoff c ''r12'', Movq_from_fs ''r12'' ''rax''] s = Some s1"
    by (simp add: set_reg_def slot_def s1_def)
  have "stack_arg_size l + 7 = (7 - stack_arg_padding l) + 8 * n" using assms(9,10) by simp
  then have n: "(stack_arg_size l + 7) div 8 = n" by simp
  have off: "stack_arg_padding l + (8 + (length x86_preserved_registers * 8 + wrapper_stack_arg_size l)) = 8 * n + 48"
    using assms(9,11) by (simp add: x86_preserved_registers_def)
  have code: "exec E (x86_copy_stack_args l c) s = exec E (map (\<lambda>off. Pushq_mem off ''rax'') ?offs) s1"
  proof -
    have "x86_copy_stack_args l c = Comment ''Copy stack arguments from the caller's stack to the compartment'' #
        [Mov_gottpoff c ''r12'', Movq_from_fs ''r12'' ''rax''] @ map (\<lambda>off. Pushq_mem off ''rax'') ?offs"
      using False by (simp add: x86_copy_stack_args_def n off emit_load_sp_offset_def Let_def comp_def)
    then show ?thesis by (simp only: exec_comment Option.bind.simps exec_append pre)
  qed
  have src: "\<forall>off \<in> set ?offs. accessible E (pkru s1) (addr s1 ''rax'' off) (addr s1 ''rax'' off + 8) \<and>
       (addr s1 ''rax'' off + 8 \<le> lo \<or> hi \<le> addr s1 ''rax'' off)"
  proof
    fix off assume "off \<in> set ?offs"
    then obtain k where k: "k < n" "off = 8 * n + 48 - 8 * k" by auto
    then have "int off = 8 * int n + 48 - 8 * int k" by simp
    then have a: "uint F + 56 \<le> addr s1 ''rax'' off" "addr s1 ''rax'' off + 8 \<le> uint F + 56 + 8 * int n"
      using k(1) by (simp_all add: addr_def s1)
    show "accessible E (pkru s1) (addr s1 ''rax'' off) (addr s1 ''rax'' off + 8) \<and>
       (addr s1 ''rax'' off + 8 \<le> lo \<or> hi \<le> addr s1 ''rax'' off)"
      using accessible_sub [OF assms(7) a] assms(8) a by (auto simp: s1)
  qed
  have acc: "accessible E (pkru s1) lo hi" "lo \<le> uint (gpr s1 ''rsp'') - 8 * int (length ?offs)" "uint (gpr s1 ''rsp'') \<le> hi"
    using assms by (simp_all add: s1)
  obtain m where ex: "exec E (map (\<lambda>off. Pushq_mem off ''rax'') ?offs) s1 =
        Some (s1\<lparr>gpr := (gpr s1)(''rsp'' := gpr s1 ''rsp'' - 8 * word_of_nat (length ?offs)), mem := m\<rparr>)"
    and out: "\<forall>a. a < uint (gpr s1 ''rsp'') - 8 * int (length ?offs) \<or> uint (gpr s1 ''rsp'') \<le> a \<longrightarrow> m a = mem s1 a"
    and vals: "\<forall>k < length ?offs. read_bytes m (uint (gpr s1 ''rsp'') - 8 * int k - 8) 8 =
       read_bytes (mem s1) (addr s1 ''rax'' (?offs ! k)) 8"
    using exec_push_mem [OF acc(1) assms(2) acc(2,3) src] by (elim exE conjE)
  have "read_bytes m (uint (gpr s ''rsp'') - 8 * int n + 8 * int j) 8 = read_bytes (mem s) (uint F + 56 + 8 * int j) 8"
    if j: "j < n" for j
  proof -
    let ?k = "n - 1 - j"
    have k: "?k < n" "int ?k = int n - 1 - int j" using j by simp_all
    have "8 * n + 48 - 8 * ?k = 56 + 8 * j" using j by simp
    then have "addr s1 ''rax'' (?offs ! ?k) = uint F + 56 + 8 * int j" using k(1) by (simp add: addr_def s1)
    then show ?thesis using vals [rule_format, of ?k] k by (simp add: s1 algebra_simps)
  qed
  then show ?thesis using code ex out by (intro exI) (auto simp: s1, simp add: s1_def)
qed

end
