(* ===== verification/Call_Gate.thy ===== *)
theory Call_Gate
  imports Gate_Blocks
begin

text \<open>
  Correctness of x86-64 call gates: entering a gate hands the target its
  arguments and nothing else under the target's PKRU value, and leaving it
  gives the caller its stack, its registers and its PKRU value back, whatever
  the target did to the memory it may write.
\<close>

section \<open>Memory around a gate\<close>

definition owns :: "machine_env \<Rightarrow> nat \<Rightarrow> int \<Rightarrow> int \<Rightarrow> bool" where
  "owns E k lo hi \<longleftrightarrow> (\<forall>a. lo \<le> a \<and> a < hi \<longrightarrow> key_of E a = k)"

text \<open>
  The stacks and the saved stack pointers of the two compartments: \<open>S\<close> is the
  caller's stack pointer on entry, \<open>T\<close> the saved one of the target, \<open>n\<close> the number
  of eightbytes of stack arguments, and \<open>room_c\<close> and \<open>room_t\<close> the free space below.
\<close>
definition gate_memory :: "machine_env \<Rightarrow> nat \<Rightarrow> nat \<Rightarrow> int \<Rightarrow> int \<Rightarrow> nat \<Rightarrow> int \<Rightarrow> int \<Rightarrow> bool" where
  "gate_memory E c t S T n room_c room_t \<longleftrightarrow>
    c < 16 \<and> t < 16 \<and> c \<noteq> t \<and>
    owns E c (slot E c) (slot E c + 8) \<and> owns E t (slot E t) (slot E t + 8) \<and>
    0 \<le> room_c \<and> room_c \<le> S \<and> owns E c (S - room_c) (S + 8 + 8 * int n) \<and> S + 8 + 8 * int n < 2 ^ 64 \<and>
    (slot E c + 8 \<le> S - room_c \<or> S + 8 + 8 * int n \<le> slot E c) \<and>
    room_t \<le> T \<and> owns E t (T - room_t) T"

lemma owns_disjoint: "owns E k lo hi \<Longrightarrow> owns E k' lo' hi' \<Longrightarrow> k \<noteq> k' \<Longrightarrow> lo \<le> a \<Longrightarrow> a < hi \<Longrightarrow> a < lo' \<or> hi' \<le> a"
  unfolding owns_def by (metis linorder_not_less)

lemma owns_PKRU: "owns E p lo hi \<Longrightarrow> p < 16 \<Longrightarrow> accessible E (PKRU p) lo hi"
  by (auto simp: accessible_def owns_def pkru_may_iff)

lemma owns_mixed: "owns E k lo hi \<Longrightarrow> k = p \<or> k = q \<Longrightarrow> p < 16 \<Longrightarrow> q < 16 \<Longrightarrow> accessible E (mixed_PKRU p q) lo hi"
  by (auto simp: accessible_def owns_def pkru_may_iff)

lemma owns_sub: "owns E k lo hi \<Longrightarrow> lo \<le> lo' \<Longrightarrow> hi' \<le> hi \<Longrightarrow> owns E k lo' hi'"
  by (auto simp: owns_def)

section \<open>Locations and layouts\<close>

definition param_locs_ok :: "ArgLocation list \<Rightarrow> bool" where
  "param_locs_ok args \<longleftrightarrow> (\<forall>l \<in> set (reg_locs args).
     if is_128bit_float l then reg_name l \<in> set x86_float_reg_order else reg_name l \<in> set x86_int_param_reg_order)"

definition return_locs_ok :: "ArgLocation list \<Rightarrow> bool" where
  "return_locs_ok rets \<longleftrightarrow> (\<forall>l \<in> set (reg_locs rets).
     if is_128bit_float l then reg_name l \<in> set x86_float_reg_order else reg_name l \<in> set x86_int_ret_reg_order)"

lemma param_locs_regs:
  assumes "param_locs_ok args"
  shows "gp_regs (reg_locs args) \<subseteq> set x86_int_param_reg_order" "xmm_regs (reg_locs args) \<subseteq> set x86_float_reg_order"
    "scrub_locs_ok (kept args False)"
  using assms
  by (auto simp: param_locs_ok_def gp_regs_def xmm_regs_def scrub_locs_ok_def kept_def
      x86_float_reg_order_def x86_int_param_reg_order_def split: if_splits)

lemma return_locs_regs:
  assumes "return_locs_ok rets"
  shows "gp_regs (reg_locs rets) \<subseteq> {''rax'', ''rdx''}" "xmm_regs (reg_locs rets) \<subseteq> set x86_float_reg_order"
    "scrub_locs_ok (kept rets False)"
  using assms
  by (auto simp: return_locs_ok_def gp_regs_def xmm_regs_def scrub_locs_ok_def kept_def
      x86_float_reg_order_def x86_int_ret_reg_order_def split: if_splits)

definition layout_ok :: "layout \<Rightarrow> nat \<Rightarrow> bool" where
  "layout_ok l n \<longleftrightarrow> stack_return_size l = 0 \<and> stack_arg_size l + stack_arg_padding l = 8 * n \<and>
    stack_arg_padding l < 8 \<and> wrapper_stack_arg_size l = stack_arg_size l \<and>
    stack_alignment l = (8 * n + 8) mod 16"

lemma layout_alignment: "layout_ok l n \<Longrightarrow> stack_alignment l = 0 \<or> stack_alignment l = 8"
  unfolding layout_ok_def by presburger

text \<open>The target is neither a constructor nor a destructor, takes no registered type, and has no conditions.\<close>
definition plain_target :: "Context \<Rightarrow> FnSignature \<Rightarrow> string \<Rightarrow> bool" where
  "plain_target ctx sig f \<longleftrightarrow> snd (registry_checks ctx sig f) = [] \<and>
     conditions_for (pre_condition_funcs ctx) (Some f) = [] \<and> conditions_for (post_condition_funcs ctx) (Some f) = []"

lemma plain_enter_code:
  assumes "plain_target ctx sig f" "kind \<noteq> IndirectCallsite" "layout_ok l n"
    and "gate_enter ctx sig (Some f) kind c t X86 args None l = Some code"
  shows "\<exists>set_pkru. emit_set_pkru False t X86 None = Some set_pkru \<and>
    code = emit_prologue X86 @ [Assert_pkru (PKRU c)] @ x86_emit_intermediate_pkru c t ''rcx'' ''rdx'' @
      emit_switch_stacks c t X86 @ (if stack_alignment l \<noteq> 0 then [Subq 8 ''rsp''] else []) @
      x86_copy_stack_args l c @ emit_scrub_regs c args False X86 @ set_pkru"
  using assms layout_alignment [OF assms(3)]
  by (auto simp: gate_enter_def plain_target_def emit_type_registry_checks_def emit_pre_conditions_def Let_def
      emit_copy_args_def copy_wrapper_args_def x86_alloc_return_def layout_ok_def split: prod.splits bind_splits)

section \<open>Entering\<close>

definition gate_push :: "layout \<Rightarrow> nat \<Rightarrow> instr list" where
  "gate_push l c = (if stack_alignment l \<noteq> 0 then [Subq 8 ''rsp''] else []) @ x86_copy_stack_args l c"

definition epilogue_restores :: "machine_env \<Rightarrow> machine \<Rightarrow> (int \<Rightarrow> u8) \<Rightarrow> bool" where
  "epilogue_restores E s m \<longleftrightarrow>
    (\<forall>t. gpr t ''rsp'' = gpr s ''rsp'' - 48 \<and> pkru t = pkru s \<and>
      (\<forall>a. uint (gpr s ''rsp'') - 48 \<le> a \<and> a < uint (gpr s ''rsp'') \<longrightarrow> mem t a = m a) \<longrightarrow>
      exec E (emit_epilogue X86) t =
        Some (t\<lparr>gpr := (\<lambda>r. if r \<in> set (''rsp'' # ''rbp'' # x86_preserved_registers) then gpr s r else gpr t r)\<rparr>))"

lemma epilogue_restores_cong:
  assumes "epilogue_restores E s m" "\<And>a. uint (gpr s ''rsp'') - 48 \<le> a \<Longrightarrow> a < uint (gpr s ''rsp'') \<Longrightarrow> m' a = m a"
  shows "epilogue_restores E s m'"
  unfolding epilogue_restores_def
proof (intro allI impI, elim conjE)
  fix t :: machine
  assume t: "gpr t ''rsp'' = gpr s ''rsp'' - 48" "pkru t = pkru s"
    and "\<forall>a. uint (gpr s ''rsp'') - 48 \<le> a \<and> a < uint (gpr s ''rsp'') \<longrightarrow> mem t a = m' a"
  then have "\<forall>a. uint (gpr s ''rsp'') - 48 \<le> a \<and> a < uint (gpr s ''rsp'') \<longrightarrow> mem t a = m a"
    using assms(2) by simp
  then show "exec E (emit_epilogue X86) t =
      Some (t\<lparr>gpr := (\<lambda>r. if r \<in> set (''rsp'' # ''rbp'' # x86_preserved_registers) then gpr s r else gpr t r)\<rparr>)"
    by (intro assms(1) [unfolded epilogue_restores_def, THEN spec, THEN mp] conjI t)
qed

lemma exec_assert_intermediate:
  assumes "pkru s = PKRU c"
  shows "\<exists>g. exec E ([Assert_pkru (PKRU c)] @ x86_emit_intermediate_pkru c t ''rcx'' ''rdx'') s =
      Some (s\<lparr>gpr := g, pkru := mixed_PKRU c t\<rparr>) \<and> (\<forall>r. r \<notin> {''rax'', ''r10'', ''r11''} \<longrightarrow> g r = gpr s r)"
proof (cases "debug E")
  case True
  then have "exec E [Assert_pkru (PKRU c)] s = Some (s\<lparr>gpr := (gpr s)(''r10'' := gpr s ''rcx'',
      ''r11'' := gpr s ''rdx'', ''rax'' := ucast (PKRU c))\<rparr>)"
    using assms by (simp add: set_reg_def)
  then show ?thesis by (simp only: exec_append Option.bind.simps exec_intermediate_enter) (intro exI conjI, auto)
next
  case False
  then have "exec E [Assert_pkru (PKRU c)] s = Some s" by simp
  then show ?thesis by (simp only: exec_append Option.bind.simps exec_intermediate_enter) (intro exI conjI, auto)
qed

text \<open>Prologue, assertion, intermediate PKRU and switch to the target's stack.\<close>
lemma enter_switch:
  assumes mem: "gate_memory E c t (uint (gpr s ''rsp'')) (uint T) n room_c room_t" "48 \<le> room_c"
    and s: "pkru s = PKRU c" "read_bytes (mem s) (slot E t) 8 = unat (T :: u64)"
  shows "\<exists>s2. exec E (emit_prologue X86 @ [Assert_pkru (PKRU c)] @ x86_emit_intermediate_pkru c t ''rcx'' ''rdx'' @
        emit_switch_stacks c t X86) s = Some s2 \<and>
    pkru s2 = mixed_PKRU c t \<and> gpr s2 ''rsp'' = T \<and> xmm s2 = xmm s \<and>
    (\<forall>r. r \<notin> {''rsp'', ''rbp'', ''rax'', ''r10'', ''r11''} \<longrightarrow> gpr s2 r = gpr s r) \<and>
    read_bytes (mem s2) (slot E c) 8 = unat (gpr s ''rsp'' - 48) \<and> epilogue_restores E s (mem s2) \<and>
    (\<forall>a. (a < uint (gpr s ''rsp'') - 48 \<or> uint (gpr s ''rsp'') \<le> a) \<and> (a < slot E c \<or> slot E c + 8 \<le> a) \<longrightarrow>
       mem s2 a = mem s a)"
proof -
  let ?sp = "gpr s ''rsp''"
  note M = mem(1) [unfolded gate_memory_def]
  have frame: "owns E c (uint ?sp - 48) (uint ?sp)" using M mem(2) by (auto intro: owns_sub)
  have acc: "accessible E (pkru s) (uint ?sp - 48) (uint ?sp)" using owns_PKRU [OF frame] M s by simp
  obtain m where pro: "exec E (emit_prologue X86) s =
        Some (s\<lparr>gpr := (gpr s)(''rsp'' := ?sp - 48, ''rbp'' := ?sp - 8), mem := m\<rparr>)"
    and out: "\<forall>a. a < uint ?sp - 48 \<or> uint ?sp \<le> a \<longrightarrow> m a = mem s a" and epi: "epilogue_restores E s m"
    using exec_frame [OF acc] M mem(2) unfolding epilogue_restores_def by auto
  define s1 where "s1 = s\<lparr>gpr := (gpr s)(''rsp'' := ?sp - 48, ''rbp'' := ?sp - 8), mem := m\<rparr>"
  obtain s2 where s2: "exec E ([Assert_pkru (PKRU c)] @ x86_emit_intermediate_pkru c t ''rcx'' ''rdx'') s1 = Some s2"
    and p2: "pkru s2 = mixed_PKRU c t" "mem s2 = m" "xmm s2 = xmm s" "gpr s2 ''rsp'' = ?sp - 48"
    and r2: "\<forall>r. r \<notin> {''rsp'', ''rbp'', ''rax'', ''r10'', ''r11''} \<longrightarrow> gpr s2 r = gpr s r"
  proof -
    obtain g where g: "exec E ([Assert_pkru (PKRU c)] @ x86_emit_intermediate_pkru c t ''rcx'' ''rdx'') s1 =
        Some (s1\<lparr>gpr := g, pkru := mixed_PKRU c t\<rparr>)" "\<forall>r. r \<notin> {''rax'', ''r10'', ''r11''} \<longrightarrow> g r = gpr s1 r"
      using exec_assert_intermediate [of s1 c E t] s by (auto simp: s1_def)
    show thesis by (rule that [OF g(1)]) (use g(2) in \<open>simp_all add: s1_def\<close>)
  qed
  define m' where "m' = write_bytes m (slot E c) 8 (unat (?sp - 48))"
  have "read_bytes m' (slot E t) 8 = read_bytes m (slot E t) 8"
    using owns_disjoint [of E t "slot E t" "slot E t + 8" c "slot E c" "slot E c + 8"] M
    by (intro read_bytes_cong) (auto simp: m'_def write_bytes_outside)
  also have "\<dots> = unat T"
    using s(2) out owns_disjoint [of E t "slot E t" "slot E t + 8" c "uint ?sp - 48" "uint ?sp"] frame M
    by (subst read_bytes_cong [of _ 8 m "mem s"]) auto
  finally have T: "read_bytes m' (slot E t) 8 = unat T" .
  have "accessible E (pkru s2) (slot E c) (slot E c + 8)" "accessible E (pkru s2) (slot E t) (slot E t + 8)"
    using M p2 by (auto intro: owns_mixed)
  from exec_switch_stacks [OF this] have sw: "exec E (emit_switch_stacks c t X86) s2 =
      Some (s2\<lparr>gpr := (gpr s2)(''r11'' := tpoff E t, ''rsp'' := T), mem := m'\<rparr>)"
    by (simp add: p2 m'_def T [unfolded m'_def])
  have "m' a = m a" if "uint ?sp - 48 \<le> a" "a < uint ?sp" for a
    using that M mem(2) by (auto simp: m'_def write_bytes_outside)
  then have epi': "epilogue_restores E s m'" using epi by (intro epilogue_restores_cong [of _ _ m m'])
  have ex: "exec E (emit_prologue X86 @ [Assert_pkru (PKRU c)] @ x86_emit_intermediate_pkru c t ''rcx'' ''rdx'' @
        emit_switch_stacks c t X86) s = Some (s2\<lparr>gpr := (gpr s2)(''r11'' := tpoff E t, ''rsp'' := T), mem := m'\<rparr>)"
    using s2 sw by (simp only: exec_append pro [folded s1_def] Option.bind.simps append_assoc [symmetric])
  have out': "m' a = mem s a" if "a < uint ?sp - 48 \<or> uint ?sp \<le> a" "a < slot E c \<or> slot E c + 8 \<le> a" for a
    using that out [rule_format, OF that(1)] by (simp add: m'_def write_bytes_outside)
  show ?thesis
    by (rule exI, rule conjI [OF ex]) (use p2 r2 epi' out' in \<open>simp add: m'_def\<close>)
qed

lemma owns_apart:
  assumes "owns E k lo hi" "owns E k' lo' hi'" "k \<noteq> k'" "lo \<le> hi" "lo' \<le> hi'" "hi - lo = hi' - lo'"
  shows "hi' \<le> lo \<or> hi \<le> lo'"
proof (rule ccontr)
  assume "\<not> ?thesis"
  then have "lo \<le> max lo lo'" "max lo lo' < hi" "lo' \<le> max lo lo'" "max lo lo' < hi'" using assms(4-6) by auto
  then have "key_of E (max lo lo') = k" "key_of E (max lo lo') = k'" using assms(1,2) unfolding owns_def by blast+
  then show False using assms(3) by simp
qed

text \<open>Alignment and the copies of the stack arguments, on the target's stack.\<close>
lemma enter_push:
  assumes mem: "gate_memory E c t S (uint T) n room_c room_t" "int (stack_alignment l) + 8 * int n \<le> room_t"
    and s: "pkru s = mixed_PKRU c t" "gpr s ''rsp'' = T"
    and F: "read_bytes (mem s) (slot E c) 8 = unat (F :: u64)" "uint F = S - 48" and l: "layout_ok l n"
  shows "\<exists>s'. exec E (gate_push l c) s = Some s' \<and> pkru s' = mixed_PKRU c t \<and> xmm s' = xmm s \<and>
    gpr s' ''rsp'' = T - word_of_nat (stack_alignment l + 8 * n) \<and>
    (\<forall>r. r \<notin> {''rax'', ''r12'', ''rsp''} \<longrightarrow> gpr s' r = gpr s r) \<and>
    (\<forall>a. a < uint T - int (stack_alignment l) - 8 * int n \<or> uint T \<le> a \<longrightarrow> mem s' a = mem s a) \<and>
    (\<forall>j < n. read_bytes (mem s') (uint T - int (stack_alignment l) - 8 * int n + 8 * int j) 8 =
       read_bytes (mem s) (S + 8 + 8 * int j) 8)"
proof -
  let ?al = "stack_alignment l"
  note M = mem(1) [unfolded gate_memory_def]
  define s1 where "s1 = s\<lparr>gpr := (gpr s)(''rsp'' := T - word_of_nat ?al)\<rparr>"
  have al: "?al = 0 \<or> ?al = 8" using layout_alignment [OF l] .
  have s1: "exec E (if ?al \<noteq> 0 then [Subq 8 ''rsp''] else []) s = Some s1"
    using al s by (auto simp: s1_def set_reg_def fun_upd_idem)
  have p1: "pkru s1 = mixed_PKRU c t" "mem s1 = mem s" "gpr s1 ''rsp'' = T - word_of_nat ?al" "xmm s1 = xmm s"
    "\<forall>r. r \<noteq> ''rsp'' \<longrightarrow> gpr s1 r = gpr s r"
    using s by (simp_all add: s1_def)
  have u: "uint (T - word_of_nat ?al) = uint T - int ?al" using M mem(2) by (intro uint_minus_nat) auto
  let ?lo = "uint T - int ?al - 8 * int n" and ?hi = "uint T - int ?al"
  have t_part: "owns E t ?lo ?hi" and c_part: "owns E c (S + 8) (S + 8 + 8 * int n)"
    using M mem(2) by (auto intro: owns_sub)
  have F56: "uint F + 56 = S + 8" using F(2) by simp
  have src: "accessible E (pkru s1) (uint F + 56) (uint F + 56 + 8 * int n)"
    unfolding F56 p1(1) using owns_mixed [OF c_part, of c t] M by simp
  have apart: "uint F + 56 + 8 * int n \<le> ?lo \<or> ?hi \<le> uint F + 56"
    using owns_apart [OF t_part c_part] M F(2) by auto
  have acc: "accessible E (pkru s1) ?lo ?hi" "accessible E (pkru s1) (slot E c) (slot E c + 8)"
    using M p1 t_part by (auto intro: owns_mixed)
  have "\<exists>s'. exec E (x86_copy_stack_args l c) s1 = Some s' \<and>
    (\<forall>r. r \<notin> {''rax'', ''r12'', ''rsp''} \<longrightarrow> gpr s' r = gpr s1 r) \<and> xmm s' = xmm s1 \<and> pkru s' = pkru s1 \<and>
    gpr s' ''rsp'' = gpr s1 ''rsp'' - 8 * word_of_nat n \<and>
    (\<forall>a. a < uint (gpr s1 ''rsp'') - 8 * int n \<or> uint (gpr s1 ''rsp'') \<le> a \<longrightarrow> mem s' a = mem s1 a) \<and>
    (\<forall>j < n. read_bytes (mem s') (uint (gpr s1 ''rsp'') - 8 * int n + 8 * int j) 8 =
       read_bytes (mem s1) (uint F + 56 + 8 * int j) 8)"
    by (rule exec_copy_stack_args [OF acc(1) _ _ _ acc(2) _ src apart])
      (use M mem(2) p1 u F l in \<open>auto simp: layout_ok_def\<close>)
  then obtain s' where s': "exec E (x86_copy_stack_args l c) s1 = Some s'"
    and r: "\<forall>r. r \<notin> {''rax'', ''r12'', ''rsp''} \<longrightarrow> gpr s' r = gpr s1 r"
    and x: "xmm s' = xmm s1" "pkru s' = pkru s1" "gpr s' ''rsp'' = gpr s1 ''rsp'' - 8 * word_of_nat n"
    and out: "\<forall>a. a < ?lo \<or> ?hi \<le> a \<longrightarrow> mem s' a = mem s1 a"
    and vals: "\<forall>j < n. read_bytes (mem s') (?lo + 8 * int j) 8 = read_bytes (mem s1) (uint F + 56 + 8 * int j) 8"
    unfolding p1(3) u by (elim exE conjE)
  have "exec E (gate_push l c) s = Some s'" by (simp only: gate_push_def exec_append s1 Option.bind.simps s')
  then show ?thesis
    using p1 r x out vals [unfolded F56] by (intro exI [of _ s'] conjI) (auto simp: diff_diff_eq)
qed

lemma exec_append_Some: "exec E xs s = Some t \<Longrightarrow> exec E (xs @ ys) s = exec E ys t"
  by simp

lemma kept_direct: "kept locs False = reg_locs locs"
  by (simp add: kept_def)

lemma restored_scrub:
  "gpr (restored ls s (libia2_scrub_registers (s\<lparr>mem := m\<rparr>))) r =
    (if r = ''rsp'' \<or> r \<in> gp_regs ls then gpr s r else if r \<in> set scrubbed_registers then 0 else gpr s r)"
  "xmm (restored ls s (libia2_scrub_registers (s\<lparr>mem := m\<rparr>))) r =
    (if r \<in> xmm_regs ls then xmm s r else if r \<in> set vzeroall_registers then 0 else xmm s r)"
  "mem (restored ls s (libia2_scrub_registers (s\<lparr>mem := m\<rparr>))) = m"
  "pkru (restored ls s (libia2_scrub_registers (s\<lparr>mem := m\<rparr>))) = pkru s"
  by (auto simp: restored_def libia2_scrub_registers_def)

text \<open>Scrubbing with the registers of \<open>locs\<close> kept, for protected and for shared callers alike.\<close>
lemma scrub_step:
  assumes "accessible E (pkru s) lo hi" "0 \<le> lo" "lo \<le> uint (gpr s ''rsp'') - int (span (reg_locs locs)) - 8"
    "uint (gpr s ''rsp'') \<le> hi" "scrub_locs_ok (kept locs False)"
  shows "\<exists>s'. exec E (emit_scrub_regs pkey locs False X86) s = Some s' \<and> pkru s' = pkru s \<and>
    gpr s' ''rsp'' = gpr s ''rsp'' \<and>
    (\<forall>r \<in> gp_regs (reg_locs locs). gpr s' r = gpr s r) \<and> (\<forall>r \<in> xmm_regs (reg_locs locs). xmm s' r = xmm s r) \<and>
    (pkey \<noteq> 0 \<longrightarrow> (\<forall>r \<in> set scrubbed_registers - gp_regs (reg_locs locs). gpr s' r = 0) \<and>
       (\<forall>r \<in> set vzeroall_registers - xmm_regs (reg_locs locs). xmm s' r = 0)) \<and>
    (\<forall>a. a < lo \<or> uint (gpr s ''rsp'') \<le> a \<longrightarrow> mem s' a = mem s a)"
proof (cases "pkey = 0")
  case True
  then show ?thesis by (simp add: emit_scrub_regs_def)
next
  case False
  let ?ls = "reg_locs locs"
  obtain m where ex: "exec E (emit_scrub_regs pkey locs False X86) s =
      Some (restored ?ls s (libia2_scrub_registers (s\<lparr>mem := m\<rparr>)))"
    and out: "\<forall>a. a < uint (gpr s ''rsp'') - int (span ?ls) - 8 \<or> uint (gpr s ''rsp'') \<le> a \<longrightarrow> m a = mem s a"
    using exec_scrub [OF False assms(1,2) _ assms(4,5)] assms(3) unfolding kept_direct by blast
  have "''rsp'' \<notin> set scrubbed_registers" by (simp add: scrubbed_registers_def)
  with out assms(3) show ?thesis
    by - (rule exI, rule conjI [OF ex], auto simp: restored_scrub)
qed

lemma gate_enter_state:
  assumes mem: "gate_memory E c t (uint (gpr s ''rsp'')) (uint T) n room_c room_t" "48 \<le> room_c"
      "int (stack_alignment l) + 8 * int n + int (span (reg_locs args)) + 8 \<le> room_t"
    and s: "pkru s = PKRU c" "read_bytes (mem s) (slot E t) 8 = unat (T :: u64)"
    and g: "plain_target ctx sig f" "kind \<noteq> IndirectCallsite" "layout_ok l n" "param_locs_ok args"
      "gate_enter ctx sig (Some f) kind c t X86 args None l = Some code"
  shows "\<exists>s'. exec E code s = Some s' \<and> pkru s' = PKRU t \<and>
    gpr s' ''rsp'' = T - word_of_nat (stack_alignment l + 8 * n) \<and>
    (\<forall>r \<in> gp_regs (reg_locs args). gpr s' r = gpr s r) \<and> (\<forall>r \<in> xmm_regs (reg_locs args). xmm s' r = xmm s r) \<and>
    gpr s' ''rax'' = ucast (PKRU t) \<and> gpr s' ''r10'' = gpr s' ''rcx'' \<and> gpr s' ''r11'' = gpr s' ''rdx'' \<and>
    (c \<noteq> 0 \<longrightarrow> (\<forall>r \<in> set scrubbed_registers - gp_regs (reg_locs args) - {''rax'', ''r10'', ''r11''}. gpr s' r = 0) \<and>
       (\<forall>r \<in> set vzeroall_registers - xmm_regs (reg_locs args). xmm s' r = 0)) \<and>
    (\<forall>j < n. read_bytes (mem s') (uint (gpr s' ''rsp'') + 8 * int j) 8 =
       read_bytes (mem s) (uint (gpr s ''rsp'') + 8 + 8 * int j) 8) \<and>
    read_bytes (mem s') (slot E c) 8 = unat (gpr s ''rsp'' - 48) \<and> epilogue_restores E s (mem s') \<and>
    (\<forall>a. (a < uint (gpr s ''rsp'') - 48 \<or> uint (gpr s ''rsp'') \<le> a) \<and> (a < slot E c \<or> slot E c + 8 \<le> a) \<and>
       (a < uint T - room_t \<or> uint T \<le> a) \<longrightarrow> mem s' a = mem s a)"
proof -
  let ?sp = "gpr s ''rsp''" and ?al = "stack_alignment l"
  note M = mem(1) [unfolded gate_memory_def]
  obtain set_pkru where set_pkru: "emit_set_pkru False t X86 None = Some set_pkru"
    and code: "code = (emit_prologue X86 @ [Assert_pkru (PKRU c)] @ x86_emit_intermediate_pkru c t ''rcx'' ''rdx'' @
      emit_switch_stacks c t X86) @ gate_push l c @ emit_scrub_regs c args False X86 @ set_pkru"
    using plain_enter_code [OF g(1-3,5)] by (auto simp: gate_push_def)
  obtain s2 where e2: "exec E (emit_prologue X86 @ [Assert_pkru (PKRU c)] @ x86_emit_intermediate_pkru c t ''rcx'' ''rdx'' @
        emit_switch_stacks c t X86) s = Some s2"
    and p2: "pkru s2 = mixed_PKRU c t" "gpr s2 ''rsp'' = T" "xmm s2 = xmm s"
    and r2: "\<forall>r. r \<notin> {''rsp'', ''rbp'', ''rax'', ''r10'', ''r11''} \<longrightarrow> gpr s2 r = gpr s r"
    and F2: "read_bytes (mem s2) (slot E c) 8 = unat (?sp - 48)" and epi: "epilogue_restores E s (mem s2)"
    and out2: "\<forall>a. (a < uint ?sp - 48 \<or> uint ?sp \<le> a) \<and> (a < slot E c \<or> slot E c + 8 \<le> a) \<longrightarrow> mem s2 a = mem s a"
    using enter_switch [OF mem(1,2) s] by (elim exE conjE)
  have uF: "uint (?sp - 48) = uint ?sp - 48" using uint_minus_nat [of 48 ?sp] M mem(2) by simp
  have room: "int ?al + 8 * int n \<le> room_t" using mem(3) by simp
  obtain s3 where e3: "exec E (gate_push l c) s2 = Some s3"
    and p3: "pkru s3 = mixed_PKRU c t" "xmm s3 = xmm s2" "gpr s3 ''rsp'' = T - word_of_nat (?al + 8 * n)"
    and r3: "\<forall>r. r \<notin> {''rax'', ''r12'', ''rsp''} \<longrightarrow> gpr s3 r = gpr s2 r"
    and out3: "\<forall>a. a < uint T - int ?al - 8 * int n \<or> uint T \<le> a \<longrightarrow> mem s3 a = mem s2 a"
    and v3: "\<forall>j < n. read_bytes (mem s3) (uint T - int ?al - 8 * int n + 8 * int j) 8 =
       read_bytes (mem s2) (uint ?sp + 8 + 8 * int j) 8"
    using enter_push [OF mem(1) room p2(1,2) F2 uF g(3)] by (elim exE conjE)
  have u3: "uint (gpr s3 ''rsp'') = uint T - int ?al - 8 * int n"
    unfolding p3(3) using uint_minus_nat [of "?al + 8 * n" T] M room by simp
  have t_own: "owns E t (uint T - room_t) (uint T)" using M by simp
  then have acc: "accessible E (pkru s3) (uint T - room_t) (uint T)" using M p3 by (auto intro: owns_mixed)
  obtain s4 where e4: "exec E (emit_scrub_regs c args False X86) s3 = Some s4"
    and p4: "pkru s4 = pkru s3" "gpr s4 ''rsp'' = gpr s3 ''rsp''"
    and k4: "\<forall>r \<in> gp_regs (reg_locs args). gpr s4 r = gpr s3 r" "\<forall>r \<in> xmm_regs (reg_locs args). xmm s4 r = xmm s3 r"
    and z4: "c \<noteq> 0 \<longrightarrow> (\<forall>r \<in> set scrubbed_registers - gp_regs (reg_locs args). gpr s4 r = 0) \<and>
       (\<forall>r \<in> set vzeroall_registers - xmm_regs (reg_locs args). xmm s4 r = 0)"
    and out4: "\<forall>a. a < uint T - room_t \<or> uint (gpr s3 ''rsp'') \<le> a \<longrightarrow> mem s4 a = mem s3 a"
    using scrub_step [OF acc _ _ _ param_locs_regs(3) [OF g(4)], of c] M mem(3) u3 by auto
  define s5 where "s5 = s4\<lparr>gpr := (gpr s4)(''r10'' := gpr s4 ''rcx'', ''r11'' := gpr s4 ''rdx'', ''rax'' := ucast (PKRU t)),
            pkru := PKRU t\<rparr>"
  have ex: "exec E code s = Some s5"
    by (simp only: code exec_append_Some [OF e2] exec_append_Some [OF e3] exec_append_Some [OF e4]
        exec_set_pkru [OF set_pkru] s5_def)
  have args: "r \<notin> {''rsp'', ''rbp'', ''rax'', ''r10'', ''r11'', ''r12''}" if "r \<in> gp_regs (reg_locs args)" for r
    using that param_locs_regs(1) [OF g(4)] by (auto simp: x86_int_param_reg_order_def)
  have c_mem: "mem s5 a = mem s2 a" if "key_of E a = c" for a
  proof -
    have "\<not> (uint T - room_t \<le> a \<and> a < uint T)" using t_own that M unfolding owns_def by blast
    then have a: "a < uint T - room_t \<or> uint T \<le> a" by linarith
    then have "mem s4 a = mem s3 a" using u3 by (intro out4 [rule_format]) auto
    also have "\<dots> = mem s2 a" using a room by (intro out3 [rule_format]) auto
    finally show ?thesis by (simp add: s5_def)
  qed
  show ?thesis
  proof (intro exI [of _ s5] conjI ex)
    show "read_bytes (mem s5) (slot E c) 8 = unat (?sp - 48)"
      using F2 c_mem M by (subst read_bytes_cong [of _ 8 _ "mem s2"]) (auto simp: owns_def)
    show "epilogue_restores E s (mem s5)"
      using epi by (rule epilogue_restores_cong) (use M mem(2) c_mem in \<open>auto simp: owns_def\<close>)
    show "\<forall>j < n. read_bytes (mem s5) (uint (gpr s5 ''rsp'') + 8 * int j) 8 = read_bytes (mem s) (uint ?sp + 8 + 8 * int j) 8"
    proof (intro allI impI)
      fix j assume j: "j < n"
      have "read_bytes (mem s5) (uint (gpr s5 ''rsp'') + 8 * int j) 8 = read_bytes (mem s3) (uint (gpr s3 ''rsp'') + 8 * int j) 8"
        using out4 p4 by (simp add: s5_def) (rule read_bytes_cong, simp)
      also have "\<dots> = read_bytes (mem s2) (uint ?sp + 8 + 8 * int j) 8" using v3 j u3 by simp
      also have "\<dots> = read_bytes (mem s) (uint ?sp + 8 + 8 * int j) 8"
        using j M by (intro read_bytes_cong out2 [rule_format]) auto
      finally show "read_bytes (mem s5) (uint (gpr s5 ''rsp'') + 8 * int j) 8 = read_bytes (mem s) (uint ?sp + 8 + 8 * int j) 8" .
    qed
    show "\<forall>a. (a < uint ?sp - 48 \<or> uint ?sp \<le> a) \<and> (a < slot E c \<or> slot E c + 8 \<le> a) \<and>
       (a < uint T - room_t \<or> uint T \<le> a) \<longrightarrow> mem s5 a = mem s a"
      using out2 out3 out4 u3 room by (auto simp: s5_def)
  qed (use p3 p4 k4 z4 r2 r3 p2 args in \<open>auto simp: s5_def\<close>)
qed

section \<open>Leaving\<close>

lemma plain_leave_code:
  assumes "plain_target ctx sig f" "layout_ok l n" "gate_leave ctx (Some f) c t X86 rets l = Some code"
  shows "\<exists>set_return. emit_set_return_pkru c X86 = Some set_return \<and>
    code = x86_emit_intermediate_pkru c t ''rax'' ''rdx'' @
      emit_free_stack_space (stack_arg_size l + stack_arg_padding l + stack_alignment l) X86 @
      emit_switch_stacks t c X86 @ emit_scrub_regs t rets False X86 @ set_return @ emit_epilogue X86 @ emit_return"
  using assms by (auto simp: gate_leave_def plain_target_def emit_post_conditions_def emit_copy_stack_returns_def
      layout_ok_def split: bind_splits)

lemma exec_free_stack: "\<exists>v. exec E (emit_free_stack_space k X86) s = Some (s\<lparr>gpr := (gpr s)(''rsp'' := v)\<rparr>)"
  by (cases "k = 0") (auto simp: emit_free_stack_space_def set_reg_def intro: exI [of _ "gpr s ''rsp''"])

lemma exec_return:
  assumes "accessible E (pkru s) (uint (gpr s ''rsp'')) (uint (gpr s ''rsp'') + 8)"
  shows "exec E emit_return s = Some (s\<lparr>gpr := (gpr s)(''rsp'' := gpr s ''rsp'' + 8)\<rparr>)"
  using exec_pop64 [OF assms] by (simp add: emit_return_def)

text \<open>From the return of the target to the switch back to the caller's stack.\<close>
lemma leave_switch:
  assumes mem: "gate_memory E c t S (uint T) n room_c room_t"
    and F: "read_bytes (mem u) (slot E c) 8 = unat (F :: u64)"
  shows "\<exists>s2. exec E (x86_emit_intermediate_pkru c t ''rax'' ''rdx'' @ emit_free_stack_space k X86 @
        emit_switch_stacks t c X86) u = Some s2 \<and>
    pkru s2 = mixed_PKRU c t \<and> gpr s2 ''rsp'' = F \<and> xmm s2 = xmm u \<and>
    gpr s2 ''rax'' = gpr u ''rax'' \<and> gpr s2 ''rdx'' = gpr u ''rdx'' \<and>
    (\<forall>a. a < slot E t \<or> slot E t + 8 \<le> a \<longrightarrow> mem s2 a = mem u a)"
proof -
  note M = mem [unfolded gate_memory_def]
  define s1 where "s1 = u\<lparr>gpr := (gpr u)(''r10'' := gpr u ''rax'', ''r11'' := gpr u ''rdx'', ''rcx'' := 0), pkru := mixed_PKRU c t\<rparr>"
  obtain v where v: "exec E (emit_free_stack_space k X86) s1 = Some (s1\<lparr>gpr := (gpr s1)(''rsp'' := v)\<rparr>)"
    using exec_free_stack by blast
  define s2 where "s2 = s1\<lparr>gpr := (gpr s1)(''rsp'' := v)\<rparr>"
  define m where "m = write_bytes (mem u) (slot E t) 8 (unat v)"
  have p2: "pkru s2 = mixed_PKRU c t" "mem s2 = mem u" "gpr s2 ''rsp'' = v" "xmm s2 = xmm u"
    by (simp_all add: s2_def s1_def)
  have "accessible E (pkru s2) (slot E t) (slot E t + 8)" "accessible E (pkru s2) (slot E c) (slot E c + 8)"
    using M p2 by (auto intro: owns_mixed)
  moreover have "read_bytes m (slot E c) 8 = unat F"
    using F M owns_disjoint [of E c "slot E c" "slot E c + 8" t "slot E t" "slot E t + 8"]
    by (subst read_bytes_cong [of _ 8 m "mem u"]) (auto simp: m_def write_bytes_outside)
  ultimately have "exec E (emit_switch_stacks t c X86) s2 =
      Some (s2\<lparr>gpr := (gpr s2)(''r11'' := tpoff E c, ''rsp'' := F), mem := m\<rparr>)"
    using exec_switch_stacks [of E s2 t c m] by (simp add: p2 m_def)
  then have ex: "exec E (x86_emit_intermediate_pkru c t ''rax'' ''rdx'' @ emit_free_stack_space k X86 @ emit_switch_stacks t c X86) u =
      Some (s2\<lparr>gpr := (gpr s2)(''r11'' := tpoff E c, ''rsp'' := F), mem := m\<rparr>)"
    using v by (simp only: exec_append exec_intermediate_leave Option.bind.simps s1_def [symmetric] s2_def [symmetric])
  show ?thesis by (rule exI, rule conjI [OF ex]) (simp add: s2_def s1_def m_def write_bytes_outside)
qed

lemma gate_leave_state:
  assumes mem: "gate_memory E c t (uint (gpr s ''rsp'')) (uint T) n room_c room_t"
      "56 + int (span (reg_locs rets)) \<le> room_c" and s: "pkru s = PKRU c"
    and u: "read_bytes (mem u) (slot E c) 8 = unat (gpr s ''rsp'' - 48)" "epilogue_restores E s (mem u)"
    and g: "plain_target ctx sig f" "layout_ok l n" "return_locs_ok rets"
      "gate_leave ctx (Some f) c t X86 rets l = Some code"
  shows "\<exists>s'. exec E code u = Some s' \<and> pkru s' = PKRU c \<and> gpr s' ''rsp'' = gpr s ''rsp'' + 8 \<and>
    (\<forall>r \<in> set (''rbp'' # x86_preserved_registers). gpr s' r = gpr s r) \<and>
    (\<forall>r \<in> gp_regs (reg_locs rets). gpr s' r = gpr u r) \<and> (\<forall>r \<in> xmm_regs (reg_locs rets). xmm s' r = xmm u r) \<and>
    (t \<noteq> 0 \<longrightarrow> (\<forall>r \<in> set x86_int_param_reg_order - gp_regs (reg_locs rets). gpr s' r = 0) \<and>
       (\<forall>r \<in> set vzeroall_registers - xmm_regs (reg_locs rets). xmm s' r = 0)) \<and>
    (\<forall>a. (a < uint (gpr s ''rsp'') - room_c \<or> uint (gpr s ''rsp'') - 48 \<le> a) \<and> (a < slot E t \<or> slot E t + 8 \<le> a) \<longrightarrow>
       mem s' a = mem u a)"
proof -
  let ?sp = "gpr s ''rsp''"
  note M = mem(1) [unfolded gate_memory_def]
  obtain set_return where set_return: "emit_set_return_pkru c X86 = Some set_return"
    and code: "code = (x86_emit_intermediate_pkru c t ''rax'' ''rdx'' @
      emit_free_stack_space (stack_arg_size l + stack_arg_padding l + stack_alignment l) X86 @
      emit_switch_stacks t c X86) @ emit_scrub_regs t rets False X86 @ set_return @ emit_epilogue X86 @ emit_return"
    using plain_leave_code [OF g(1,2,4)] by auto
  obtain s2 where e2: "exec E (x86_emit_intermediate_pkru c t ''rax'' ''rdx'' @
      emit_free_stack_space (stack_arg_size l + stack_arg_padding l + stack_alignment l) X86 @
      emit_switch_stacks t c X86) u = Some s2"
    and p2: "pkru s2 = mixed_PKRU c t" "gpr s2 ''rsp'' = ?sp - 48" "xmm s2 = xmm u"
      "gpr s2 ''rax'' = gpr u ''rax''" "gpr s2 ''rdx'' = gpr u ''rdx''"
    and out2: "\<forall>a. a < slot E t \<or> slot E t + 8 \<le> a \<longrightarrow> mem s2 a = mem u a"
    using leave_switch [OF mem(1) u(1), of "stack_arg_size l + stack_arg_padding l + stack_alignment l"]
    by (elim exE conjE)
  have uF: "uint (?sp - 48) = uint ?sp - 48" using uint_minus_nat [of 48 ?sp] M mem(2) by simp
  have c_own: "owns E c (uint ?sp - room_c) (uint ?sp + 8)" using M by (auto intro: owns_sub)
  then have acc: "accessible E (pkru s2) (uint ?sp - room_c) (uint ?sp + 8)" using M p2 by (auto intro: owns_mixed)
  obtain s3 where e3: "exec E (emit_scrub_regs t rets False X86) s2 = Some s3"
    and p3: "pkru s3 = pkru s2" "gpr s3 ''rsp'' = gpr s2 ''rsp''"
    and k3: "\<forall>r \<in> gp_regs (reg_locs rets). gpr s3 r = gpr s2 r" "\<forall>r \<in> xmm_regs (reg_locs rets). xmm s3 r = xmm s2 r"
    and z3: "t \<noteq> 0 \<longrightarrow> (\<forall>r \<in> set scrubbed_registers - gp_regs (reg_locs rets). gpr s3 r = 0) \<and>
       (\<forall>r \<in> set vzeroall_registers - xmm_regs (reg_locs rets). xmm s3 r = 0)"
    and out3: "\<forall>a. a < uint ?sp - room_c \<or> uint (gpr s2 ''rsp'') \<le> a \<longrightarrow> mem s3 a = mem s2 a"
    using scrub_step [OF acc _ _ _ return_locs_regs(3) [OF g(3)], of t] M mem(2) p2 uF by auto
  define s4 where "s4 = s3\<lparr>gpr := (gpr s3)(''r10'' := gpr s3 ''rax'', ''r11'' := gpr s3 ''rdx'', ''rcx'' := 0), pkru := PKRU c\<rparr>"
  have e4: "exec E set_return s3 = Some s4" by (simp only: s4_def exec_set_return_pkru [OF set_return])
  have p4: "gpr s4 ''rsp'' = ?sp - 48" "pkru s4 = pkru s" "mem s4 = mem s3" using p2 p3 s by (simp_all add: s4_def)
  have frame: "mem s4 a = mem u a" if "uint ?sp - 48 \<le> a" "a < uint ?sp + 8" for a
  proof -
    have "a < slot E t \<or> slot E t + 8 \<le> a"
      using owns_disjoint [OF c_own, of t "slot E t" "slot E t + 8" a] M mem(2) that by auto
    then have "mem s2 a = mem u a" by (rule out2 [rule_format])
    then show ?thesis using out3 that p2 uF by (simp add: p4)
  qed
  define s5 where "s5 = s4\<lparr>gpr := (\<lambda>r. if r \<in> set (''rsp'' # ''rbp'' # x86_preserved_registers) then gpr s r else gpr s4 r)\<rparr>"
  have e5: "exec E (emit_epilogue X86) s4 = Some s5"
    unfolding s5_def using u(2) [unfolded epilogue_restores_def, THEN spec, of s4, THEN mp] p4 frame by simp
  have p5: "gpr s5 ''rsp'' = ?sp" "pkru s5 = PKRU c" by (simp_all add: s5_def p4 s)
  have e6: "exec E emit_return s5 = Some (s5\<lparr>gpr := (gpr s5)(''rsp'' := ?sp + 8)\<rparr>)"
    using exec_return [of E s5] owns_PKRU [of E c "uint ?sp" "uint ?sp + 8"] c_own M by (auto simp: p5 owns_def)
  have ex: "exec E code u = Some (s5\<lparr>gpr := (gpr s5)(''rsp'' := ?sp + 8)\<rparr>)"
    by (simp only: code exec_append_Some [OF e2] exec_append_Some [OF e3] exec_append_Some [OF e4]
        exec_append_Some [OF e5] e6)
  have params: "r \<in> set scrubbed_registers \<and> r \<notin> set (''rsp'' # ''rbp'' # ''r10'' # ''r11'' # x86_preserved_registers)"
    if "r \<in> set x86_int_param_reg_order" for r
    using that by (auto simp: x86_int_param_reg_order_def scrubbed_registers_def x86_preserved_registers_def)
  have rets: "r \<notin> set (''rsp'' # ''rbp'' # ''rcx'' # ''r10'' # ''r11'' # x86_preserved_registers) \<and> (r = ''rax'' \<or> r = ''rdx'')"
    if "r \<in> gp_regs (reg_locs rets)" for r
    using that return_locs_regs(1) [OF g(3)] by (auto simp: x86_preserved_registers_def)
  show ?thesis
  proof (rule exI, intro conjI, rule ex)
    show "\<forall>r \<in> gp_regs (reg_locs rets). gpr (s5\<lparr>gpr := (gpr s5)(''rsp'' := ?sp + 8)\<rparr>) r = gpr u r"
      using rets k3(1) p2 by (auto simp: s5_def s4_def)
    show "t \<noteq> 0 \<longrightarrow> (\<forall>r \<in> set x86_int_param_reg_order - gp_regs (reg_locs rets).
        gpr (s5\<lparr>gpr := (gpr s5)(''rsp'' := ?sp + 8)\<rparr>) r = 0) \<and>
       (\<forall>r \<in> set vzeroall_registers - xmm_regs (reg_locs rets). xmm (s5\<lparr>gpr := (gpr s5)(''rsp'' := ?sp + 8)\<rparr>) r = 0)"
    proof (intro impI conjI ballI)
      fix r assume t: "t \<noteq> 0" and r: "r \<in> set x86_int_param_reg_order - gp_regs (reg_locs rets)"
      then have "gpr s3 r = 0" using z3 params [of r] by blast
      then show "gpr (s5\<lparr>gpr := (gpr s5)(''rsp'' := ?sp + 8)\<rparr>) r = 0" using params [of r] r by (simp add: s5_def s4_def)
    next
      fix r assume "t \<noteq> 0" "r \<in> set vzeroall_registers - xmm_regs (reg_locs rets)"
      then have "xmm s3 r = 0" using z3 by blast
      then show "xmm (s5\<lparr>gpr := (gpr s5)(''rsp'' := ?sp + 8)\<rparr>) r = 0" by (simp add: s5_def s4_def)
    qed
    show "\<forall>a. (a < uint ?sp - room_c \<or> uint ?sp - 48 \<le> a) \<and> (a < slot E t \<or> slot E t + 8 \<le> a) \<longrightarrow>
       mem (s5\<lparr>gpr := (gpr s5)(''rsp'' := ?sp + 8)\<rparr>) a = mem u a"
      using out2 out3 p2 uF by (auto simp: s5_def p4)
  qed (use k3 p2 in \<open>auto simp: s5_def s4_def x86_preserved_registers_def\<close>)
qed

end
