(* ===== verification/Abi_Laws.thy ===== *)
theory Abi_Laws
  imports Call_Gate
begin

text \<open>
  Properties of the allocation of parameters and return values on x86-64:
  which registers are used, where stack arguments go, and that the results
  meet what the proofs about call gates ask for.
\<close>

section \<open>Slots handed to the allocation\<close>

definition fresh_loc :: "ArgLocation \<Rightarrow> bool" where
  "fresh_loc l \<longleftrightarrow> \<not> onStack l \<and> \<not> allocated l \<and> loc_reg l = None"

definition fresh_sig :: "AbiSignature \<Rightarrow> bool" where
  "fresh_sig sig \<longleftrightarrow> list_all fresh_loc (abi_args sig) \<and> list_all fresh_loc (abi_ret sig)"

lemma classify_fresh: "classifyScalarType ty = Some l \<Longrightarrow> fresh_loc l"
  by (auto simp: classifyScalarType_def fresh_loc_def Register_def split: scalar_type.splits)

lemma classify_all_fresh: "classify_all ts = Some ls \<Longrightarrow> list_all fresh_loc ls"
  by (induction ts arbitrary: ls) (auto split: bind_splits dest: classify_fresh)

lemma slots_fresh: "abiSlotsForArg sz al info = Some ls \<Longrightarrow> list_all fresh_loc ls"
  by (auto simp: abiSlotsForArg_def direct_slots_def Indirect_def fresh_loc_def [of "\<lparr>onStack = False, indirectOnStack = True, allocated = False,
        loc_kind = Integral, loc_size = sz, loc_align = al, loc_reg = None, loc_offset = 0\<rparr>"]
      split: abi_arg_info.splits coerce_type.splits bind_splits if_splits
      dest: classify_fresh classify_all_fresh)
    (auto simp: list_all_iff dest: classify_fresh)

lemma args_fresh: "slots_for_args as = Some ls \<Longrightarrow> list_all fresh_loc ls"
  by (induction as arbitrary: ls) (auto split: bind_splits dest: slots_fresh)

lemma determine_fresh: "determineAbiSignature ret args = Some sig \<Longrightarrow> fresh_sig sig"
  by (auto simp: determineAbiSignature_def fresh_sig_def split: bind_splits dest: slots_fresh args_fresh)

section \<open>Parameter registers\<close>

definition gp_names :: "ArgLocation list \<Rightarrow> string list" where
  "gp_names ls = map reg_name (filter (\<lambda>l. \<not> is_128bit_float l) (reg_locs ls))"

definition xmm_names :: "ArgLocation list \<Rightarrow> string list" where
  "xmm_names ls = map reg_name (filter is_128bit_float (reg_locs ls))"

lemma names_append [simp]: "gp_names (xs @ ys) = gp_names xs @ gp_names ys" "xmm_names (xs @ ys) = xmm_names xs @ xmm_names ys"
  by (simp_all add: gp_names_def xmm_names_def reg_locs_def)

text \<open>The registers handed out are the first \<open>ints_used\<close> and \<open>floats_used\<close> of the tables.\<close>
definition regs_in_order :: "string list \<Rightarrow> alloc_state \<Rightarrow> bool" where
  "regs_in_order ints st \<longleftrightarrow> ints_used st \<le> length ints \<and> gp_names (al_args st) = take (ints_used st) ints \<and>
     floats_used st \<le> length x86_float_reg_order \<and> xmm_names (al_args st) = take (floats_used st) x86_float_reg_order"

lemma names_reg:
  assumes "allocate_reg r l = Some a" "\<not> onStack l"
  shows "gp_names [a] = (if is_128bit_reg r then [] else [r])" "xmm_names [a] = (if is_128bit_reg r then [r] else [])"
  using assms
  by (auto simp: allocate_reg_def gp_names_def xmm_names_def reg_locs_def reg_name_def as_str_def is_128bit_float_def
      split: if_splits)

lemma names_stack: "onStack a \<Longrightarrow> gp_names [a] = []" "onStack a \<Longrightarrow> xmm_names [a] = []"
  by (simp_all add: gp_names_def xmm_names_def reg_locs_def)

lemma int_param_not_128: "r \<in> set x86_int_param_reg_order \<Longrightarrow> \<not> is_128bit_reg r"
  by (auto simp: x86_int_param_reg_order_def is_128bit_reg_def)

lemma float_param_128: "r \<in> set x86_float_reg_order \<Longrightarrow> is_128bit_reg r"
  by (auto simp: x86_float_reg_order_def is_128bit_reg_def)

lemma push_int_reg:
  assumes "regs_in_order ints st" "\<forall>r \<in> set ints. \<not> is_128bit_reg r" "ints_used st < length ints"
    "allocate_reg (ints ! ints_used st) l = Some a" "\<not> onStack l"
  shows "regs_in_order ints ((push_arg a st)\<lparr>ints_used := ints_used st + 1\<rparr>)"
proof -
  have "\<not> is_128bit_reg (ints ! ints_used st)" using assms(2,3) by simp
  then have "gp_names [a] = [ints ! ints_used st]" "xmm_names [a] = []" using names_reg [OF assms(4,5)] by simp_all
  then show ?thesis using assms(1,3) by (simp add: regs_in_order_def push_arg_def take_Suc_conv_app_nth)
qed

lemma push_float_reg:
  assumes "regs_in_order ints st" "floats_used st < length x86_float_reg_order"
    "allocate_reg (x86_float_reg_order ! floats_used st) l = Some a" "\<not> onStack l"
  shows "regs_in_order ints ((push_arg a st)\<lparr>floats_used := floats_used st + 1\<rparr>)"
proof -
  have "is_128bit_reg (x86_float_reg_order ! floats_used st)" using assms(2) by (simp add: float_param_128)
  then have "gp_names [a] = []" "xmm_names [a] = [x86_float_reg_order ! floats_used st]"
    using names_reg [OF assms(3,4)] by simp_all
  then show ?thesis using assms(1,2) by (simp add: regs_in_order_def push_arg_def take_Suc_conv_app_nth)
qed

lemma push_stack_slot:
  assumes "regs_in_order ints st" "onStack a"
  shows "regs_in_order ints ((push_arg a st)\<lparr>stack_offset := k\<rparr>)"
  using assms by (simp add: regs_in_order_def push_arg_def names_stack)

lemma stack_slot: "allocate_stack k l = Some a \<Longrightarrow> onStack a"
  by (auto simp: allocate_stack_def split: if_splits)

lemma int_params: "\<forall>r \<in> set x86_int_param_reg_order. \<not> is_128bit_reg r"
  using int_param_not_128 by blast

lemma alloc_integral_order:
  assumes st: "regs_in_order x86_int_param_reg_order st" and l: "\<not> onStack l"
    and a: "alloc_integral X86 l st = Some st'"
  shows "regs_in_order x86_int_param_reg_order st'"
proof -
  let ?o = x86_int_param_reg_order and ?n = "ints_used st"
  have R: "\<not> onStack (Register k z)" for k z by (simp add: Register_def)
  consider (reg) x where "?n < length ?o" "allocate_reg (?o ! ?n) l = Some x"
      "st' = (push_arg x st)\<lparr>ints_used := ?n + 1\<rparr>"
    | (pair) x y where "?n + 1 < length ?o" "allocate_reg (?o ! ?n) (Register Integral 8) = Some x"
      "allocate_reg (?o ! (?n + 1)) (Register Integral 8) = Some y"
      "st' = (push_arg y (push_arg x st))\<lparr>ints_used := ?n + 2\<rparr>"
    | (stack) x where "allocate_stack (stack_offset st) l = Some x"
      "st' = (push_arg x st)\<lparr>stack_offset := stack_offset st + 8\<rparr>"
    using a by (auto simp: alloc_integral_def int_param_regs_def Let_def split: if_splits bind_splits)
  then show ?thesis
  proof cases
    case reg
    then show ?thesis using push_int_reg [OF st int_params _ reg(2) l] by simp
  next
    case pair
    let ?st = "(push_arg x st)\<lparr>ints_used := ?n + 1\<rparr>"
    have "regs_in_order ?o ?st" using pair push_int_reg [OF st int_params _ pair(2) R] by simp
    from push_int_reg [OF this int_params] pair(1,3) R
    have "regs_in_order ?o ((push_arg y ?st)\<lparr>ints_used := ints_used ?st + 1\<rparr>)" by simp
    then show ?thesis using pair(4) by (simp add: push_arg_def)
  next
    case stack
    then show ?thesis using push_stack_slot [OF st stack_slot] by simp
  qed
qed

lemma alloc_float_order:
  assumes "regs_in_order ints st" "\<not> onStack l" "alloc_float X86 l st = Some st'"
  shows "regs_in_order ints st'"
  using assms push_float_reg [OF assms(1) _ _ assms(2)] push_stack_slot [OF assms(1) stack_slot]
  by (auto simp: alloc_float_def float_regs_def Let_def split: if_splits bind_splits)

lemma alloc_memory_order:
  assumes "regs_in_order ints st" "alloc_memory l st = Some st'"
  shows "regs_in_order ints st'"
  using assms push_stack_slot [OF assms(1) stack_slot]
  by (auto simp: alloc_memory_def Let_def split: if_splits bind_splits)

lemma alloc_arg_order:
  assumes "regs_in_order x86_int_param_reg_order st" "fresh_loc l" "alloc_arg X86 l st = Some st'"
  shows "regs_in_order x86_int_param_reg_order st'"
proof (cases "indirectOnStack l")
  case True
  then have "alloc_memory (Stack (size_of l) (loc_align l)) st = Some st'"
    using assms(3) by (simp add: alloc_arg_def Stack_def)
  then show ?thesis by (rule alloc_memory_order [OF assms(1)])
next
  case False
  then show ?thesis using assms alloc_integral_order [OF assms(1)] alloc_float_order [OF assms(1)] alloc_memory_order [OF assms(1)]
    by (auto simp: alloc_arg_def fresh_loc_def split: Kind.splits)
qed

lemma alloc_args_order:
  assumes "regs_in_order x86_int_param_reg_order st" "list_all fresh_loc ls" "alloc_args X86 ls st = Some st'"
  shows "regs_in_order x86_int_param_reg_order st'"
  using assms by (induction ls arbitrary: st) (auto split: bind_splits intro: alloc_arg_order)

lemma alloc_init_order:
  assumes "alloc_init func X86 = Some st"
  shows "regs_in_order x86_int_param_reg_order st"
proof -
  let ?st = "\<lparr> al_args = [], ints_used = 0, floats_used = 0, stack_offset = 0 \<rparr>"
  have "regs_in_order x86_int_param_reg_order ?st"
    by (simp add: regs_in_order_def gp_names_def xmm_names_def reg_locs_def)
  from push_int_reg [OF this int_params] this show ?thesis using assms
    by (auto simp: alloc_init_def int_param_regs_def Register_def Let_def x86_int_param_reg_order_def
        split: if_splits bind_splits)
qed

lemma params_in_order:
  assumes "allocate_param_locations func X86 = Some (args, n)" "fresh_sig func"
  shows "\<exists>i f. gp_names args = take i x86_int_param_reg_order \<and> xmm_names args = take f x86_float_reg_order"
  using assms alloc_args_order [OF alloc_init_order]
  by (auto simp: allocate_param_locations_def fresh_sig_def regs_in_order_def split: bind_splits)

lemma params_locs_ok:
  assumes "allocate_param_locations func X86 = Some (args, n)" "fresh_sig func"
  shows "param_locs_ok args"
proof -
  obtain i f where o: "gp_names args = take i x86_int_param_reg_order" "xmm_names args = take f x86_float_reg_order"
    using params_in_order [OF assms] by blast
  have "reg_name l \<in> set x86_int_param_reg_order" if "l \<in> set (reg_locs args)" "\<not> is_128bit_float l" for l
    using that arg_cong [OF o(1), of set] set_take_subset [of i x86_int_param_reg_order] by (auto simp: gp_names_def)
  moreover have "reg_name l \<in> set x86_float_reg_order" if "l \<in> set (reg_locs args)" "is_128bit_float l" for l
    using that arg_cong [OF o(2), of set] set_take_subset [of f x86_float_reg_order] by (auto simp: xmm_names_def)
  ultimately show ?thesis by (simp add: param_locs_ok_def)
qed

section \<open>Return registers and layout\<close>

lemma return_locs_append [simp]: "return_locs_ok (xs @ ys) \<longleftrightarrow> return_locs_ok xs \<and> return_locs_ok ys"
  by (auto simp: return_locs_ok_def reg_locs_def)

lemma return_locs_pair: "return_locs_ok [x, y] \<longleftrightarrow> return_locs_ok [x] \<and> return_locs_ok [y]"
  using return_locs_append [of "[x]" "[y]"] by simp

lemma int_ret_not_128: "r \<in> set x86_int_ret_reg_order \<Longrightarrow> \<not> is_128bit_reg r"
  by (auto simp: x86_int_ret_reg_order_def is_128bit_reg_def)

lemma return_locs_reg:
  assumes "allocate_reg r l = Some a" "r \<in> set x86_int_ret_reg_order \<or> r \<in> set x86_float_reg_order"
  shows "return_locs_ok [a]" "return_locs_ok [a\<lparr>indirectOnStack := b\<rparr>]"
proof -
  have r: "if is_128bit_reg r then r \<in> set x86_float_reg_order else r \<in> set x86_int_ret_reg_order"
    using assms(2) int_ret_not_128 float_param_128 by fastforce
  have a: "a = l\<lparr>allocated := True, loc_reg := Some r\<rparr>" using assms(1) by (simp add: allocate_reg_def split: if_splits)
  show "return_locs_ok [a]" "return_locs_ok [a\<lparr>indirectOnStack := b\<rparr>]"
    using r by (simp_all add: a return_locs_ok_def reg_locs_def reg_name_def as_str_def is_128bit_float_def)
qed

lemma ret_float_ok: "return_locs_ok (al_args st) \<Longrightarrow> ret_float X86 l st = Some st' \<Longrightarrow> return_locs_ok (al_args st')"
  by (auto simp: ret_float_def float_regs_def push_arg_def split: if_splits bind_splits intro!: return_locs_reg)

lemma ret_arg_ok:
  assumes "return_locs_ok (al_args st)" "ret_arg X86 l st = Some st'"
  shows "return_locs_ok (al_args st')"
proof -
  have nth: "n < length x86_int_ret_reg_order \<Longrightarrow> x86_int_ret_reg_order ! n \<in> set x86_int_ret_reg_order" for n by simp
  show ?thesis using assms
    by (auto simp: ret_arg_def int_ret_regs_def push_arg_def Let_def set_indirect_on_stack_def
        split: Kind.splits if_splits bind_splits
        intro!: return_locs_reg nth elim!: ret_float_ok [rotated])
      (auto simp: x86_int_ret_reg_order_def return_locs_pair intro!: return_locs_reg)
qed

lemma returns_locs_ok: "allocate_return_locations func X86 = Some rets \<Longrightarrow> return_locs_ok rets"
proof -
  have "ret_args X86 ls st = Some st' \<Longrightarrow> return_locs_ok (al_args st) \<Longrightarrow> return_locs_ok (al_args st')" for ls st st'
    by (induction ls arbitrary: st) (auto split: bind_splits intro: ret_arg_ok)
  then show "allocate_return_locations func X86 = Some rets \<Longrightarrow> return_locs_ok rets"
    by (fastforce simp: allocate_return_locations_def return_locs_ok_def reg_locs_def)
qed

lemma indirect_size_none: "\<not> list_ex indirectOnStack args \<Longrightarrow> indirect_size k args = 0"
  by (induction args) auto

lemma round_to_8: "k + (if k mod 8 \<noteq> 0 then 8 - k mod 8 else 0) = 8 * ((k + 7) div 8)" for k :: nat
proof (cases "k mod 8 = 0")
  case True
  then obtain q where "k = 8 * q" by blast
  then show ?thesis by simp
next
  case False
  define q r where "q = k div 8" and "r = k mod 8"
  have k: "k = 8 * q + r" "0 < r" "r < 8" using False by (simp_all add: q_def r_def)
  then have k7: "k + 7 = (r - 1) + 8 * (q + 1)" and r1: "(r - 1) div 8 = 0" by simp_all
  have "(k + 7) div 8 = (q + 1) + (r - 1) div 8" unfolding k7 by (rule div_mult_self2) simp
  then have "(k + 7) div 8 = q + 1" using r1 by simp
  then show ?thesis using k False by (simp add: r_def [symmetric])
qed

lemma compute_layout_ok:
  assumes "compute_layout k k args rets X86 = Some l" "stack_return_bytes rets = 0"
  shows "layout_ok l ((k + 7) div 8)"
proof -
  define pad where "pad = (if k mod 8 \<noteq> 0 then 8 - k mod 8 else 0)"
  have pad: "k + pad = 8 * ((k + 7) div 8)" unfolding pad_def by (rule round_to_8)
  have small: "pad < 8" by (simp add: pad_def)
  have none: "\<not> list_ex indirectOnStack args"
    using assms(1) by (rule contrapos_pn) (simp only: compute_layout_def Let_def simp_thms if_True option.distinct)
  have l: "l = \<lparr> stack_return_size = 0, stack_return_padding = 0, indirect_arg_size = 0, indirect_arg_padding = 0,
      stack_alignment = (k + pad + 8) mod 16, stack_arg_size = k, stack_arg_padding = pad, wrapper_stack_arg_size = k \<rparr>"
    using assms(1) unfolding compute_layout_def Let_def pad_def [symmetric] assms(2) indirect_size_none [OF none]
    by (simp only: none less_irrefl simp_thms if_True if_False mod_0 add_0 add_0_right option.inject)
  show ?thesis using small by (simp add: l layout_ok_def pad)
qed

end
