(* ===== verification/Gate_Safety.thy ===== *)
theory Gate_Safety
  imports Abi_Laws
begin

text \<open>
  The guarantees of a whole generated wrapper on x86-64, from the call of the
  wrapper to its return, for an arbitrary target.
\<close>

section \<open>Splitting the wrapper at the call\<close>

text \<open>A wrapper for a named target that returns in registers, with its locations and layout.\<close>
definition register_wrapper ::
  "Context \<Rightarrow> FnSignature \<Rightarrow> string \<Rightarrow> string \<Rightarrow> WrapperKind \<Rightarrow> nat \<Rightarrow> nat \<Rightarrow> instr list \<Rightarrow>
   ArgLocation list \<Rightarrow> nat \<Rightarrow> ArgLocation list \<Rightarrow> bool" where
  "register_wrapper ctx sig name f kind c t code args k rets \<longleftrightarrow>
    emit_asm_wrapper ctx sig None name (Some f) kind c t X86 = Some code \<and>
    kind \<noteq> IndirectCallsite \<and> plain_target ctx sig f \<and> f \<noteq> ''__libia2_scrub_registers'' \<and> fresh_sig (abi sig) \<and>
    allocate_param_locations (abi sig) X86 = Some (args, k) \<and>
    allocate_return_locations (abi sig) X86 = Some rets \<and> stack_return_bytes rets = 0"

lemma wrapper_split:
  assumes "register_wrapper ctx sig name f kind c t code args k rets"
  shows "\<exists>l enter leave. layout_ok l ((k + 7) div 8) \<and>
    gate_enter ctx sig (Some f) kind c t X86 args None l = Some enter \<and>
    gate_leave ctx (Some f) c t X86 rets l = Some leave \<and>
    (\<forall>E s. exec E code s = exec E (enter @ [Call f] @ leave) s)"
proof -
  note W = assms [unfolded register_wrapper_def]
  from W obtain l body where l: "compute_layout k k args rets X86 = Some l"
    and body: "gate_body ctx sig (Some f) kind c t X86 args None rets l = Some body"
    and code: "code = [Comment (''Wrapper for '' @ sig_string (abi sig) (Some f) @ '':''), Directive ''.text'',
          Directive ((if kind \<noteq> PointerToStatic then ''.global '' else ''.local '') @ name),
          Directive (''.type '' @ name @ '', @function''), Label name] @ body @
         [Directive (''.size '' @ name @ '', .-'' @ name), Directive ''.previous'']"
    by (auto simp: emit_asm_wrapper_def split: if_splits bind_splits)
  from body obtain enter leave where e: "gate_enter ctx sig (Some f) kind c t X86 args None l = Some enter"
    and le: "gate_leave ctx (Some f) c t X86 rets l = Some leave"
    and b: "body = enter @ [Comment ''Call wrapped function'', Call f] @ leave"
    by (auto simp: gate_body_def emit_fn_call_def emit_direct_call_def split: bind_splits)
  have run: "exec E code s = exec E (enter @ [Call f] @ leave) s" for E s
  proof -
    have "exec E [Directive x, Directive y] = Some" for x y by (simp add: fun_eq_iff)
    then have "exec E code s = exec E body s" by (simp add: code exec_append_fun del: exec.simps(2)) simp
    then show ?thesis by (simp add: b exec_append_fun exec_Cons_fun)
  qed
  have "layout_ok l ((k + 7) div 8)" using compute_layout_ok [OF l] W by simp
  then show ?thesis by (intro exI conjI allI, rule_tac [2] e, rule_tac [2] le) (simp_all only: run)
qed

text \<open>
  The state in which the target starts: \<open>s1\<close>, given the state \<open>s\<close> on entry of the
  wrapper and the stack pointer \<open>T\<close> saved for the target.
\<close>
definition target_entry :: "machine_env \<Rightarrow> nat \<Rightarrow> nat \<Rightarrow> ArgLocation list \<Rightarrow> nat \<Rightarrow> u64 \<Rightarrow> machine \<Rightarrow> machine \<Rightarrow> bool" where
  "target_entry E c t args n T s s1 \<longleftrightarrow>
    pkru s1 = PKRU t \<and>
    (uint T mod 16 = 8 \<longrightarrow> (uint (gpr s1 ''rsp'') + 8) mod 16 = 0) \<and>
    (\<forall>r \<in> gp_regs (reg_locs args). gpr s1 r = gpr s r) \<and> (\<forall>r \<in> xmm_regs (reg_locs args). xmm s1 r = xmm s r) \<and>
    (\<forall>j < n. read_bytes (mem s1) (uint (gpr s1 ''rsp'') + 8 + 8 * int j) 8 =
       read_bytes (mem s) (uint (gpr s ''rsp'') + 8 + 8 * int j) 8) \<and>
    gpr s1 ''rax'' = ucast (PKRU t) \<and> gpr s1 ''r10'' = gpr s1 ''rcx'' \<and> gpr s1 ''r11'' = gpr s1 ''rdx'' \<and>
    (c \<noteq> 0 \<longrightarrow> (\<forall>r \<in> set scrubbed_registers - gp_regs (reg_locs args) - {''rax'', ''r10'', ''r11''}. gpr s1 r = 0) \<and>
       (\<forall>r \<in> set vzeroall_registers - xmm_regs (reg_locs args). xmm s1 r = 0))"

definition gate_room :: "ArgLocation list \<Rightarrow> nat \<Rightarrow> int" where
  "gate_room args n = 8 * int n + int (span (reg_locs args)) + 24"

lemma call_alignment:
  assumes "layout_ok l n" "uint T mod 16 = 8"
  shows "(uint (T :: u64) - int (stack_alignment l) - 8 * int n) mod 16 = 0"
proof -
  have "int (stack_alignment l) = (8 * int n + 8) mod 16" using assms(1) by (simp add: layout_ok_def zmod_int)
  then show ?thesis using assms(2) by presburger
qed

lemma wrapper_runs:
  assumes W: "register_wrapper ctx sig name f kind c t code args k rets" and n: "n = (k + 7) div 8"
    and mem: "gate_memory E c t (uint (gpr s ''rsp'')) (uint T) n room_c room_t" "48 \<le> room_c" "gate_room args n \<le> room_t"
    and s: "pkru s = PKRU c" "read_bytes (mem s) (slot E t) 8 = unat (T :: u64)"
  shows "\<exists>l leave s1. layout_ok l n \<and> gate_leave ctx (Some f) c t X86 rets l = Some leave \<and>
    exec E code s = Option.bind (callee E f s1) (exec E leave) \<and> target_entry E c t args n T s s1 \<and>
    read_bytes (mem s1) (slot E c) 8 = unat (gpr s ''rsp'' - 48) \<and> epilogue_restores E s (mem s1) \<and>
    (\<forall>a. (a < uint (gpr s ''rsp'') - 48 \<or> uint (gpr s ''rsp'') \<le> a) \<and> (a < slot E c \<or> slot E c + 8 \<le> a) \<and>
       (a < uint T - room_t \<or> uint T \<le> a) \<longrightarrow> mem s1 a = mem s a)"
proof -
  obtain l enter leave where l: "layout_ok l n" and e: "gate_enter ctx sig (Some f) kind c t X86 args None l = Some enter"
    and le: "gate_leave ctx (Some f) c t X86 rets l = Some leave"
    and run: "\<And>E s. exec E code s = exec E (enter @ [Call f] @ leave) s"
    using wrapper_split [OF W] n by blast
  note W' = W [unfolded register_wrapper_def] and M = mem(1) [unfolded gate_memory_def]
  let ?al = "stack_alignment l" and ?sp = "gpr s ''rsp''"
  have al: "?al \<le> 8" using layout_alignment [OF l] by auto
  then have room: "int ?al + 8 * int n + int (span (reg_locs args)) + 8 \<le> room_t" "int ?al + 8 * int n + 8 \<le> room_t"
    using mem(3) by (simp_all add: gate_room_def)
  have ok: "param_locs_ok args" using params_locs_ok W' by blast
  obtain s2 where ex: "exec E enter s = Some s2" and p: "pkru s2 = PKRU t"
      "gpr s2 ''rsp'' = T - word_of_nat (?al + 8 * n)"
    and k2: "\<forall>r \<in> gp_regs (reg_locs args). gpr s2 r = gpr s r" "\<forall>r \<in> xmm_regs (reg_locs args). xmm s2 r = xmm s r"
    and c2: "gpr s2 ''rax'' = ucast (PKRU t)" "gpr s2 ''r10'' = gpr s2 ''rcx''" "gpr s2 ''r11'' = gpr s2 ''rdx''"
    and z2: "c \<noteq> 0 \<longrightarrow> (\<forall>r \<in> set scrubbed_registers - gp_regs (reg_locs args) - {''rax'', ''r10'', ''r11''}. gpr s2 r = 0) \<and>
       (\<forall>r \<in> set vzeroall_registers - xmm_regs (reg_locs args). xmm s2 r = 0)"
    and v2: "\<forall>j < n. read_bytes (mem s2) (uint (gpr s2 ''rsp'') + 8 * int j) 8 = read_bytes (mem s) (uint ?sp + 8 + 8 * int j) 8"
    and F2: "read_bytes (mem s2) (slot E c) 8 = unat (?sp - 48)" and epi: "epilogue_restores E s (mem s2)"
    and out2: "\<forall>a. (a < uint ?sp - 48 \<or> uint ?sp \<le> a) \<and> (a < slot E c \<or> slot E c + 8 \<le> a) \<and>
       (a < uint T - room_t \<or> uint T \<le> a) \<longrightarrow> mem s2 a = mem s a"
    using gate_enter_state [OF mem(1,2) room(1) s _ _ l ok e] W' by auto
  have u2: "uint (gpr s2 ''rsp'') = uint T - int ?al - 8 * int n"
    unfolding p(2) using uint_minus_nat [of "?al + 8 * n" T] M room(2) by simp
  define s1 where "s1 = s2\<lparr>gpr := (gpr s2)(''rsp'' := gpr s2 ''rsp'' - 8),
    mem := write_bytes (mem s2) (uint (gpr s2 ''rsp'') - 8) 8 (unat (ret_addr E))\<rparr>"
  have t_own: "owns E t (uint T - room_t) (uint T)" using M by simp
  then have "accessible E (pkru s2) (uint T - room_t) (uint T)" using owns_PKRU M p by simp
  then have "push64 E (ret_addr E) s2 = Some s1"
    unfolding s1_def using M room(2) u2 by (intro exec_push64) auto
  then have call: "exec E code s = Option.bind (callee E f s1) (exec E leave)"
    using W' by (simp add: run ex)
  have u1: "uint (gpr s1 ''rsp'') = uint (gpr s2 ''rsp'') - 8"
    unfolding s1_def using M room(2) u2 by (simp add: uint_minus_8)
  have above: "mem s1 a = mem s2 a" if "a < uint (gpr s2 ''rsp'') - 8 \<or> uint (gpr s2 ''rsp'') \<le> a" for a
    using that by (auto simp: s1_def write_bytes_outside)
  have c_mem: "mem s1 a = mem s2 a" if "key_of E a = c" for a
  proof (rule above, rule ccontr)
    assume "\<not> (a < uint (gpr s2 ''rsp'') - 8 \<or> uint (gpr s2 ''rsp'') \<le> a)"
    then have "uint T - room_t \<le> a" "a < uint T" using u2 room(2) by auto
    then show False using t_own that M by (auto simp: owns_def)
  qed
  have te: "target_entry E c t args n T s s1"
  proof -
    have al16: "(uint (gpr s1 ''rsp'') + 8) mod 16 = 0" if "uint T mod 16 = 8"
      using call_alignment [OF l that] u1 u2 by simp
    have stk: "read_bytes (mem s1) (uint (gpr s1 ''rsp'') + 8 + 8 * int j) 8 =
        read_bytes (mem s2) (uint (gpr s2 ''rsp'') + 8 * int j) 8" for j
    proof -
      have "uint (gpr s1 ''rsp'') + 8 + 8 * int j = uint (gpr s2 ''rsp'') + 8 * int j" using u1 by simp
      then show ?thesis by (simp only:) (rule read_bytes_cong, rule above, simp)
    qed
    have rsp: "''rsp'' \<notin> gp_regs (reg_locs args)" "''rsp'' \<notin> set scrubbed_registers"
      using param_locs_regs(1) [OF ok] by (auto simp: x86_int_param_reg_order_def scrubbed_registers_def)
    have g1: "gpr s1 r = gpr s2 r" if "r \<noteq> ''rsp''" for r using that by (simp add: s1_def)
    have x1: "xmm s1 = xmm s2" "pkru s1 = pkru s2" by (simp_all add: s1_def)
    show ?thesis unfolding target_entry_def x1
    proof (intro conjI impI)
      show "\<forall>r \<in> gp_regs (reg_locs args). gpr s1 r = gpr s r" using k2(1) rsp(1) g1 by metis
      show "\<forall>r \<in> set scrubbed_registers - gp_regs (reg_locs args) - {''rax'', ''r10'', ''r11''}. gpr s1 r = 0" if "c \<noteq> 0"
        using z2 that rsp(2) g1 by (metis DiffD1)
      show "\<forall>r \<in> set vzeroall_registers - xmm_regs (reg_locs args). xmm s2 r = 0" if "c \<noteq> 0" using z2 that by blast
      show "\<forall>j < n. read_bytes (mem s1) (uint (gpr s1 ''rsp'') + 8 + 8 * int j) 8 = read_bytes (mem s) (uint ?sp + 8 + 8 * int j) 8"
        using stk v2 by simp
    qed (use p(1) k2(2) c2 g1 al16 in \<open>simp_all\<close>)
  qed
  have "read_bytes (mem s1) (slot E c) 8 = unat (?sp - 48)"
    using F2 c_mem M by (subst read_bytes_cong [of _ 8 _ "mem s2"]) (auto simp: owns_def)
  moreover have "epilogue_restores E s (mem s1)"
    using epi by (rule epilogue_restores_cong) (use M mem(2) c_mem in \<open>auto simp: owns_def\<close>)
  moreover have "mem s1 a = mem s a" if "(a < uint ?sp - 48 \<or> uint ?sp \<le> a) \<and> (a < slot E c \<or> slot E c + 8 \<le> a) \<and>
       (a < uint T - room_t \<or> uint T \<le> a)" for a
    using out2 [rule_format, OF that] above [of a] that u2 room(2) by auto
  ultimately show ?thesis using l le call te by (intro exI conjI allI impI) assumption+
qed

section \<open>What the target sees\<close>

text \<open>A small machine: compartment 1 owns the second 64 KiB block, compartment 2 the third.\<close>
definition sample_env :: "(string \<Rightarrow> machine \<Rightarrow> machine option) \<Rightarrow> machine_env" where
  "sample_env call = \<lparr> key_of = (\<lambda>a. if 0x10000 \<le> a \<and> a < 0x20000 then 1 else if 0x20000 \<le> a \<and> a < 0x30000 then 2 else 0),
     fs_base = 0, tpoff = (\<lambda>p. if p = 1 then 0x10000 else 0x20000), debug = True, ret_addr = 0,
     callee = call, callee_reg = (\<lambda>_ _. None) \<rparr>"

definition sample_state :: machine where
  "sample_state = \<lparr> gpr = (\<lambda>r. if r = ''rsp'' then 0x18000 else if r = ''rbx'' then 7 else if r = ''rdi'' then 5 else 9),
     xmm = (\<lambda>_. 3), mem = write_bytes (\<lambda>_. 0) 0x20000 8 (unat (0x28008 :: u64)), pkru = PKRU 1 \<rparr>"

definition sample_ctx :: Context where
  "sample_ctx = \<lparr> ctx_constructors = [], ctx_destructors = [], ctx_has_structors = (\<lambda>_. False),
     pre_condition_funcs = [], post_condition_funcs = [] \<rparr>"

definition sample_sig :: FnSignature where
  "sample_sig = \<lparr> abi = \<lparr> abi_args = [Register Integral 4], abi_ret = [Register Integral 4] \<rparr>, api_args = [0] \<rparr>"

definition int_in :: "string \<Rightarrow> ArgLocation" where
  "int_in r = (Register Integral 4)\<lparr>allocated := True, loc_reg := Some r\<rparr>"

lemma sample_locs:
  "allocate_param_locations (abi sample_sig) X86 = Some ([int_in ''rdi''], 0)"
  "allocate_return_locations (abi sample_sig) X86 = Some [int_in ''rax'']"
  by (simp_all add: sample_sig_def allocate_param_locations_def allocate_return_locations_def alloc_init_def memory_return_slots_def
      alloc_arg_def alloc_integral_def ret_arg_def int_param_regs_def int_ret_regs_def x86_int_param_reg_order_def
      x86_int_ret_reg_order_def Register_def int_in_def allocate_reg_def push_arg_def size_of_def is_128bit_float_def Let_def)

lemma sample_reg_locs: "reg_locs [int_in r] = [int_in r]" "loc_span (int_in ''rdi'') = 8" "loc_span (int_in ''rax'') = 8"
  "reg_name (int_in r) = r" "\<not> is_128bit_float (int_in ''rdi'')" "\<not> is_128bit_float (int_in ''rax'')"
  by (simp_all add: reg_locs_def int_in_def Register_def loc_span_def is_128bit_float_def is_128bit_reg_def
      reg_name_def as_str_def)

lemma sample_wrapper:
  "\<exists>code. register_wrapper sample_ctx sample_sig ''w'' ''f'' Direct 1 2 code [int_in ''rdi''] 0 [int_in ''rax'']"
proof -
  have plain: "plain_target sample_ctx sample_sig ''f''" "fresh_sig (abi sample_sig)" "stack_return_bytes [int_in ''rax''] = 0"
    by (simp_all add: plain_target_def sample_ctx_def registry_checks_def conditions_for_def sample_sig_def fresh_sig_def
        fresh_loc_def Register_def stack_return_bytes_def int_in_def)
  have lay: "compute_layout 0 0 [int_in ''rdi''] [int_in ''rax''] X86 \<noteq> None"
    by (simp add: compute_layout_def Let_def int_in_def Register_def)
  then obtain l where l: "compute_layout 0 0 [int_in ''rdi''] [int_in ''rax''] X86 = Some l" by blast
  then have "layout_ok l 0" using compute_layout_ok [OF l] plain(3) by simp
  then have "emit_copy_args [int_in ''rdi''] None l 1 X86 \<noteq> None"
    using layout_alignment [of l 0] by (auto simp: emit_copy_args_def copy_wrapper_args_def)
  then have "gate_body sample_ctx sample_sig (Some ''f'') Direct 1 2 X86 [int_in ''rdi''] None [int_in ''rax''] l \<noteq> None"
    by (auto simp: gate_body_def gate_enter_def gate_leave_def emit_set_pkru_def emit_set_return_pkru_def emit_fn_call_def Let_def)
  then have "emit_asm_wrapper sample_ctx sample_sig None ''w'' (Some ''f'') Direct 1 2 X86 \<noteq> None"
    by (auto simp: emit_asm_wrapper_def sample_locs l)
  then show ?thesis using plain sample_locs by (auto simp: register_wrapper_def)
qed

lemma sample_memory: "gate_memory (sample_env call) 1 2 (uint (gpr sample_state ''rsp'')) (uint (0x28008 :: u64)) 0 0x1000 0x1000"
  by (simp add: gate_memory_def owns_def slot_def sample_env_def sample_state_def)

lemma sample_pkru: "pkru sample_state = PKRU 1"
  by (simp add: sample_state_def)

lemma sample_slot: "read_bytes (mem sample_state) (slot (sample_env call) 2) 8 = unat (0x28008 :: u64)"
  using read_write_word [of "\<lambda>_. 0" "0x20000" "0x28008"] by (simp add: slot_def sample_env_def sample_state_def)



section \<open>What the caller gets back\<close>

text \<open>
  The target returns, and without the caller's key it cannot have written to memory
  of a third compartment or of the caller; registers and its own memory are arbitrary.
\<close>
definition confined_target :: "machine_env \<Rightarrow> nat \<Rightarrow> string \<Rightarrow> bool" where
  "confined_target E t f \<longleftrightarrow> (\<forall>s1. pkru s1 = PKRU t \<longrightarrow>
     (\<exists>s2. callee E f s1 = Some s2 \<and> (\<forall>a. key_of E a \<noteq> 0 \<and> key_of E a \<noteq> t \<longrightarrow> mem s2 a = mem s1 a)))"



end
