(* ===== verification/Gate_Returns.thy ===== *)
theory Gate_Returns
  imports Gate_Safety
begin

text \<open>
  The moves that gates use for values in memory, and what it means for
  values returned in memory.
\<close>

section \<open>Copying memory\<close>

lemma read_bytes_digit: "k < w \<Longrightarrow> word_of_nat (read_bytes m b w div 256 ^ k) = m (b + int k)"
proof (induction w arbitrary: b k)
  case (Suc w)
  have lt: "unat (m b) < 256" using unsigned_less [of "m b"] by (simp add: order_less_le_trans)
  show ?case
  proof (cases k)
    case 0
    have "(256 :: u8) = 0" by simp
    then have "256 * x = 0 * x" for x :: u8 by (rule arg_cong)
    then show ?thesis using 0 by simp
  next
    case (Suc j)
    have "(unat (m b) + 256 * read_bytes m (b + 1) w) div 256 ^ Suc j = read_bytes m (b + 1) w div 256 ^ j"
      using lt by (simp add: div_mult2_eq)
    then show ?thesis using Suc.IH [of j "b + 1"] Suc.prems Suc by (simp add: algebra_simps)
  qed
qed simp

lemma write_read_bytes:
  "write_bytes m a w (read_bytes m b w) x = (if a \<le> x \<and> x < a + int w then m (b + (x - a)) else m x)"
  using read_bytes_digit [of "nat (x - a)" w m b] by (auto simp: write_bytes_def)

text \<open>The moves cover \<open>lo\<close> to \<open>hi\<close> without gaps, in widths of at most eight bytes.\<close>
fun contiguous :: "nat \<Rightarrow> nat \<Rightarrow> (nat \<times> nat) list \<Rightarrow> bool" where
  "contiguous lo hi [] \<longleftrightarrow> lo = hi"
| "contiguous lo hi ((w, i) # ms) \<longleftrightarrow> i = lo \<and> w \<in> {1, 2, 4, 8} \<and> contiguous (lo + w) hi ms"

lemma contiguous_append: "contiguous lo mid xs \<Longrightarrow> contiguous mid hi ys \<Longrightarrow> contiguous lo hi (xs @ ys)"
  by (induction lo mid xs rule: contiguous.induct) auto

lemma contiguous_le: "contiguous lo hi ms \<Longrightarrow> lo \<le> hi"
  by (induction lo hi ms rule: contiguous.induct) auto

lemma contiguous_eights: "contiguous 0 (8 * q) (map (\<lambda>k. (8, 8 * k)) [0..<q])"
proof (induction q)
  case (Suc q)
  have "contiguous (8 * q) (8 * Suc q) [(8, 8 * q)]" by simp
  from contiguous_append [OF Suc this] show ?case by simp
qed simp

lemma memcpy_moves_contiguous: "contiguous 0 n (memcpy_moves n)"
proof -
  define q r where "q = n div 8" and "r = n mod 8"
  have n: "n = 8 * q + r" "r < 8" by (simp_all add: q_def r_def)
  have e: "contiguous 0 (8 * q) (map (\<lambda>k. (8, 8 * k)) [0..<q])" by (rule contiguous_eights)
  have "contiguous (8 * q) n
      ((if 4 \<le> r then [(4, 8 * q)] else []) @
       (if (if 4 \<le> r then 4 else 0) + 2 \<le> r then [(2, 8 * q + (if 4 \<le> r then 4 else 0))] else []) @
       (if (if (if 4 \<le> r then 4 else 0) + 2 \<le> r then (if 4 \<le> r then 4 else 0) + 2 else (if 4 \<le> r then 4 else 0)) < r
        then [(1, 8 * q + (if (if 4 \<le> r then 4 else 0) + 2 \<le> r then (if 4 \<le> r then 4 else 0) + 2 else (if 4 \<le> r then 4 else 0)))] else []))"
    using n by auto
  from contiguous_append [OF e this] show ?thesis
    unfolding memcpy_moves_def Let_def q_def [symmetric] using n(1) by (auto simp: add.commute split: if_splits)
qed

lemma load_store:
  assumes "w \<in> {1, 2, 4, 8}" "r \<noteq> src" "r \<noteq> dst" "r \<noteq> ''rsp''"
    and "accessible E (pkru s) (addr s src off) (addr s src off + int w)"
    and "accessible E (pkru s) (addr s dst i) (addr s dst i + int w)"
  shows "\<exists>v. exec E [Load w off src r, Store w r i dst] s =
    Some (s\<lparr>gpr := (gpr s)(r := v), mem := write_bytes (mem s) (addr s dst i) w (read_bytes (mem s) (addr s src off) w)\<rparr>)"
proof -
  define x where "x = read_bytes (mem s) (addr s src off) w"
  define v :: u64 where "v = (if w \<ge> 4 then word_of_nat x else word_of_nat (unat (gpr s r) div 256 ^ w * 256 ^ w + x))"
  have x: "x < 256 ^ w" unfolding x_def by (rule read_bytes_bound)
  have "256 ^ w dvd (2 ^ 64 :: nat)" using assms(1) by (auto simp: power_mult [of 2 8, simplified, symmetric] intro!: le_imp_power_dvd)
  then have "unat (word_of_nat y :: u64) mod 256 ^ w = y mod 256 ^ w" for y
    by (simp add: unsigned_of_nat take_bit_eq_mod mod_mod_cancel)
  then have v: "unat v mod 256 ^ w = x" using x by (simp add: v_def del: of_nat_add of_nat_mult)
  have "load E s (addr s src off) w = Some x" using load_accessible [OF assms(5)] by (simp add: x_def)
  then have "exec1 E (Load w off src r) s = Some (s\<lparr>gpr := (gpr s)(r := v)\<rparr>)" by (simp add: v_def set_reg_def)
  moreover have "exec1 E (Store w r i dst) (s\<lparr>gpr := (gpr s)(r := v)\<rparr>) =
      Some (s\<lparr>gpr := (gpr s)(r := v), mem := write_bytes (mem s) (addr s dst i) w x\<rparr>)"
    using store_accessible [of E "s\<lparr>gpr := (gpr s)(r := v)\<rparr>" _ _ "addr s dst i" w] assms(3,6) v by (simp add: addr_def)
  ultimately show ?thesis by (intro exI [of _ v]) (simp add: x_def)
qed

lemma exec_moves:
  assumes "contiguous lo hi ms" "r \<noteq> src" "r \<noteq> dst" "r \<noteq> ''rsp''"
    and "accessible E (pkru s) (addr s src off + int lo) (addr s src off + int hi)"
    and "accessible E (pkru s) (addr s dst 0 + int lo) (addr s dst 0 + int hi)"
    and "addr s src off + int hi \<le> addr s dst 0 + int lo \<or> addr s dst 0 + int hi \<le> addr s src off + int lo"
  shows "\<exists>v m. exec E (concat (map (\<lambda>(w, i). [Load w (i + off) src r, Store w r i dst]) ms)) s =
      Some (s\<lparr>gpr := (gpr s)(r := v), mem := m\<rparr>) \<and>
    (\<forall>a. m a = (if addr s dst 0 + int lo \<le> a \<and> a < addr s dst 0 + int hi
               then mem s (addr s src off + (a - addr s dst 0)) else mem s a))"
  using assms
proof (induction lo hi ms arbitrary: s rule: contiguous.induct)
  case (1 lo hi)
  then show ?case by (intro exI [of _ "gpr s r"] exI [of _ "mem s"]) (auto simp: fun_upd_triv)
next
  case (2 lo hi w i ms)
  let ?S = "addr s src off" and ?D = "addr s dst 0"
  have i: "i = lo" "w \<in> {1, 2, 4, 8}" "contiguous (lo + w) hi ms" using 2(2) by auto
  have le: "lo + w \<le> hi" using contiguous_le [OF i(3)] .
  have a: "addr s src (i + off) = ?S + int lo" "addr s dst i = ?D + int lo" by (simp_all add: addr_def i)
  have acc: "accessible E (pkru s) (addr s src (i + off)) (addr s src (i + off) + int w)"
    "accessible E (pkru s) (addr s dst i) (addr s dst i + int w)"
    unfolding a using 2(6,7) le by (auto elim: accessible_sub)
  define m where "m = write_bytes (mem s) (?D + int lo) w (read_bytes (mem s) (?S + int lo) w)"
  obtain v where step: "exec E [Load w (i + off) src r, Store w r i dst] s = Some (s\<lparr>gpr := (gpr s)(r := v), mem := m\<rparr>)"
    using load_store [OF i(2) 2(3-5) acc] unfolding a m_def by blast
  define s' where "s' = s\<lparr>gpr := (gpr s)(r := v), mem := m\<rparr>"
  have s': "addr s' src off = ?S" "addr s' dst 0 = ?D" "pkru s' = pkru s" "mem s' = m"
    using 2(3,4) by (simp_all add: s'_def addr_def)
  have acc': "accessible E (pkru s') (addr s' src off + int (lo + w)) (addr s' src off + int hi)"
    "accessible E (pkru s') (addr s' dst 0 + int (lo + w)) (addr s' dst 0 + int hi)"
    "addr s' src off + int hi \<le> addr s' dst 0 + int (lo + w) \<or> addr s' dst 0 + int hi \<le> addr s' src off + int (lo + w)"
    unfolding s' using 2(6-8) by (auto elim: accessible_sub)
  obtain v' m' where rest: "exec E (concat (map (\<lambda>(w, i). [Load w (i + off) src r, Store w r i dst]) ms)) s' =
      Some (s'\<lparr>gpr := (gpr s')(r := v'), mem := m'\<rparr>)"
    and m': "\<forall>a. m' a = (if ?D + int (lo + w) \<le> a \<and> a < ?D + int hi then m (?S + (a - ?D)) else m a)"
    using 2(1) [OF i(3) 2(3-5) acc'] unfolding s' by (elim exE conjE)
  have "m' a = (if ?D + int lo \<le> a \<and> a < ?D + int hi then mem s (?S + (a - ?D)) else mem s a)" for a
    using m' 2(8) le by (auto simp: m_def write_read_bytes algebra_simps)
  moreover have "exec E (concat (map (\<lambda>(w, i). [Load w (i + off) src r, Store w r i dst]) ((w, i) # ms))) s =
      Some (s\<lparr>gpr := (gpr s)(r := v'), mem := m'\<rparr>)"
    using rest by (simp only: list.map concat.simps prod.case exec_append_Some [OF step] s'_def [symmetric]) (simp add: s'_def)
  ultimately show ?case by blast
qed

lemma exec_memcpy:
  assumes "r \<noteq> src" "r \<noteq> dst" "r \<noteq> ''rsp''"
    and "accessible E (pkru s) (addr s src off) (addr s src off + int n)"
    and "accessible E (pkru s) (addr s dst 0) (addr s dst 0 + int n)"
    and "addr s src off + int n \<le> addr s dst 0 \<or> addr s dst 0 + int n \<le> addr s src off"
  shows "\<exists>v. exec E (emit_memcpy n dst src r off X86) s = Some (s\<lparr>gpr := (gpr s)(r := v),
    mem := (\<lambda>a. if addr s dst 0 \<le> a \<and> a < addr s dst 0 + int n then mem s (addr s src off + (a - addr s dst 0)) else mem s a)\<rparr>)"
proof -
  obtain v m where ex: "exec E (concat (map (\<lambda>(w, i). [Load w (i + off) src r, Store w r i dst]) (memcpy_moves n))) s =
      Some (s\<lparr>gpr := (gpr s)(r := v), mem := m\<rparr>)"
    and m: "\<forall>a. m a = (if addr s dst 0 \<le> a \<and> a < addr s dst 0 + int n then mem s (addr s src off + (a - addr s dst 0)) else mem s a)"
  proof -
    have "accessible E (pkru s) (addr s src off + int 0) (addr s src off + int n)"
      "accessible E (pkru s) (addr s dst 0 + int 0) (addr s dst 0 + int n)"
      "addr s src off + int n \<le> addr s dst 0 + int 0 \<or> addr s dst 0 + int n \<le> addr s src off + int 0"
      using assms(4-6) by simp_all
    from exec_moves [OF memcpy_moves_contiguous assms(1-3) this] show thesis
      by (elim exE conjE) (rule that, assumption, simp)
  qed
  have "emit_memcpy n dst src r off X86 = Comment ''Copy'' #
      concat (map (\<lambda>(w, i). [Load w (i + off) src r, Store w r i dst]) (memcpy_moves n))"
    by (simp add: emit_memcpy_def)
  moreover have "m = (\<lambda>a. if addr s dst 0 \<le> a \<and> a < addr s dst 0 + int n then mem s (addr s src off + (a - addr s dst 0)) else mem s a)"
    using m by (simp add: fun_eq_iff)
  ultimately show ?thesis using ex by (simp only: exec_comment) blast
qed

text \<open>
  C23. The copy code of the gates moves exactly the bytes asked for: for disjoint
  accessible regions and any length, the destination then holds the source, and
  no other byte and no register but the scratch one changes.
\<close>
theorem memcpy_copies:
  assumes "r \<noteq> src" "r \<noteq> dst" "r \<noteq> ''rsp''"
    and "accessible E (pkru s) (addr s src off) (addr s src off + int n)"
    and "accessible E (pkru s) (addr s dst 0) (addr s dst 0 + int n)"
    and "addr s src off + int n \<le> addr s dst 0 \<or> addr s dst 0 + int n \<le> addr s src off"
  shows "\<exists>v. exec E (emit_memcpy n dst src r off X86) s = Some (s\<lparr>gpr := (gpr s)(r := v),
    mem := (\<lambda>a. if addr s dst 0 \<le> a \<and> a < addr s dst 0 + int n then mem s (addr s src off + (a - addr s dst 0)) else mem s a)\<rparr>)"
  using exec_memcpy [OF assms] .

theorem memcpy_copies_witness:
  "\<exists>v. exec (sample_env (\<lambda>_ _. None)) (emit_memcpy 15 ''rsp'' ''rdi'' ''r10'' 0x10100 X86) sample_state =
    Some (sample_state\<lparr>gpr := (gpr sample_state)(''r10'' := v),
      mem := (\<lambda>a. if 0x18000 \<le> a \<and> a < 0x1800f then mem sample_state (0x10105 + (a - 0x18000)) else mem sample_state a)\<rparr>)"
proof -
  have acc: "accessible (sample_env (\<lambda>_ _. None)) (pkru sample_state) lo hi" if "0x10000 \<le> lo" "hi \<le> 0x20000" for lo hi
    using that by (auto simp: accessible_def sample_env_def sample_state_def pkru_may_iff)
  have a: "addr sample_state ''rsp'' 0 = 0x18000" "addr sample_state ''rdi'' 0x10100 = 0x10105"
    by (simp_all add: addr_def sample_state_def)
  show ?thesis
    using memcpy_copies [of "''r10''" "''rdi''" "''rsp''" "sample_env (\<lambda>_ _. None)" sample_state "0x10100" 15, unfolded a] acc
    by simp
qed

section \<open>Returns in memory\<close>

text \<open>
  C37. The address a returned structure is copied to is not protected: with the
  intermediate PKRU value in force, the gate takes it from the slot on the
  target's stack, memory that the target owns and may have overwritten, so the
  copy goes to whatever address of the caller's memory the target left there.
\<close>
theorem return_pointer_under_target_control:
  assumes "stack_return_size l = n" "0 < n" "c < 16" "t < 16" "c \<noteq> t" "pkru u = mixed_PKRU c t"
    and "owns E t (uint (gpr u ''rsp'')) (uint (gpr u ''rsp'') + 8 + int n)" "uint (gpr u ''rsp'') + 8 < 2 ^ 64"
    and "read_bytes (mem u) (uint (gpr u ''rsp'')) 8 = unat (p :: u64)" "owns E c (uint p) (uint p + int n)"
  shows "\<exists>u'. exec E (emit_copy_stack_returns l X86) u = Some u' \<and>
    (\<forall>i < n. mem u' (uint p + int i) = mem u (uint (gpr u ''rsp'') + 8 + int i))"
proof -
  let ?R = "uint (gpr u ''rsp'')"
  have acc: "accessible E (pkru u) ?R (?R + 8 + int n)" "accessible E (pkru u) (uint p) (uint p + int n)"
    using owns_mixed [OF assms(7), of c t] owns_mixed [OF assms(10), of c t] assms by simp_all
  define s where "s = u\<lparr>gpr := (gpr u)(''rsp'' := gpr u ''rsp'' + 8, ''rax'' := p)\<rparr>"
  have pop: "exec E [Popq ''rax''] u = Some s"
    using exec_pop64 [OF acc(1)] assms(9) by (simp add: s_def set_reg_def)
  have "uint (gpr u ''rsp'' + 8) = ?R + 8" using uint_plus_8 [of "gpr u ''rsp''"] assms(8) by simp
  then have a: "addr s ''rsp'' 0 = ?R + 8" "addr s ''rax'' 0 = uint p" "pkru s = pkru u" "mem s = mem u"
    by (simp_all add: addr_def s_def)
  have t: "owns E t (?R + 8) (?R + 8 + int n)" using assms(7) by (rule owns_sub) simp_all
  have disj: "?R + 8 + int n \<le> uint p \<or> uint p + int n \<le> ?R + 8"
    using owns_apart [OF t assms(10)] assms(5) by auto
  have acc': "accessible E (pkru s) (addr s ''rsp'' 0) (addr s ''rsp'' 0 + int n)"
    "accessible E (pkru s) (addr s ''rax'' 0) (addr s ''rax'' 0 + int n)"
    unfolding a using acc by (auto elim: accessible_sub)
  obtain v where cp: "exec E (emit_memcpy n ''rax'' ''rsp'' ''r10'' 0 X86) s = Some (s\<lparr>gpr := (gpr s)(''r10'' := v),
      mem := (\<lambda>a. if addr s ''rax'' 0 \<le> a \<and> a < addr s ''rax'' 0 + int n
                 then mem s (addr s ''rsp'' 0 + (a - addr s ''rax'' 0)) else mem s a)\<rparr>)"
    using exec_memcpy [OF _ _ _ acc', of "''r10''"] disj unfolding a by auto
  have code: "emit_copy_stack_returns l X86 = [Popq ''rax''] @ (Comment ''Copy the return value to the caller's stack'' #
      emit_memcpy n ''rax'' ''rsp'' ''r10'' 0 X86 @ [Addq (n + stack_return_padding l) ''rsp''])"
    using assms(1,2) by (simp add: emit_copy_stack_returns_def)
  show ?thesis unfolding code exec_append_Some [OF pop] exec_comment exec_append_Some [OF cp]
    by (simp add: set_reg_def a)
qed

theorem return_pointer_under_target_control_witness:
  "\<exists>u'. exec (sample_env (\<lambda>_ _. None))
      (emit_copy_stack_returns \<lparr> stack_return_size = 24, stack_return_padding = 0, indirect_arg_size = 0, indirect_arg_padding = 0,
         stack_alignment = 0, stack_arg_size = 0, stack_arg_padding = 0, wrapper_stack_arg_size = 0 \<rparr> X86)
      (sample_state\<lparr>gpr := (gpr sample_state)(''rsp'' := 0x27000), pkru := mixed_PKRU 1 2,
         mem := write_bytes (\<lambda>a. 0xaa) 0x27000 8 (unat (0x1f000 :: u64))\<rparr>) = Some u' \<and>
    mem u' 0x1f000 = 0xaa"
proof -
  let ?l = "\<lparr> stack_return_size = 24, stack_return_padding = 0, indirect_arg_size = 0, indirect_arg_padding = 0,
         stack_alignment = 0, stack_arg_size = 0, stack_arg_padding = 0, wrapper_stack_arg_size = 0 \<rparr>"
  let ?u = "sample_state\<lparr>gpr := (gpr sample_state)(''rsp'' := 0x27000), pkru := mixed_PKRU 1 2,
         mem := write_bytes (\<lambda>a. 0xaa) 0x27000 8 (unat (0x1f000 :: u64))\<rparr>"
  have "\<exists>u'. exec (sample_env (\<lambda>_ _. None)) (emit_copy_stack_returns ?l X86) ?u = Some u' \<and>
      (\<forall>i < 24. mem u' (uint (0x1f000 :: u64) + int i) = mem ?u (uint (gpr ?u ''rsp'') + 8 + int i))"
    using read_write_word [of "\<lambda>a. 0xaa" "0x27000" "0x1f000"]
    by (intro return_pointer_under_target_control [of _ _ 1 2]) (simp_all add: owns_def sample_env_def)
  then obtain u' where "exec (sample_env (\<lambda>_ _. None)) (emit_copy_stack_returns ?l X86) ?u = Some u'"
    and "mem u' (uint (0x1f000 :: u64) + int 0) = mem ?u (uint (gpr ?u ''rsp'') + 8 + int 0)"
    by (metis zero_less_numeral)
  then show ?thesis by (simp add: write_bytes_outside)
qed

end
