(* ===== verification/Abi_Claims.thy ===== *)
theory Abi_Claims
  imports Abi_Laws
begin

text \<open>
  The parameter allocation against the System V calling convention: registers
  in the prescribed order, stack arguments at the prescribed offsets for slots
  of full width, and the inputs for which the code departs from it.
\<close>

section \<open>Registers\<close>

lemma take_length_take: "xs = take i ys \<Longrightarrow> xs = take (length xs) ys"
  by (cases "i \<le> length ys") (simp_all add: min_def)


definition scalar_arg :: "scalar_type \<Rightarrow> lowered_arg" where
  "scalar_arg ty = \<lparr> arg_size = 8, arg_align = 8, arg_info = abi_arg_info.Direct (ScalarTy ty) True \<rparr>"

definition void_ret :: lowered_arg where
  "void_ret = \<lparr> arg_size = 0, arg_align = 1, arg_info = Ignore \<rparr>"

lemmas abi_eval = allocate_param_locations_def allocate_return_locations_def alloc_init_def memory_return_slots_def alloc_arg_def
  alloc_integral_def alloc_float_def alloc_memory_def ret_arg_def ret_float_def int_param_regs_def int_ret_regs_def float_regs_def
  x86_int_param_reg_order_def x86_int_ret_reg_order_def x86_float_reg_order_def Register_def Stack_def Indirect_def
  allocate_reg_def allocate_stack_def push_arg_def size_of_def is_128bit_float_def is_128bit_reg_def round_up_def Let_def

text \<open>Evaluates the first step of a bind before looking at the rest.\<close>
lemma bind_first: "x = y \<Longrightarrow> Option.bind x f = Option.bind y f"
  by simp

lemmas slot_eval = determineAbiSignature_def scalar_arg_def void_ret_def abiSlotsForArg_def direct_slots_def classifyScalarType_def


section \<open>Stack arguments\<close>

text \<open>The convention: each argument at the next offset aligned to eight bytes or more, in whole eightbytes.\<close>
fun sysv_stack :: "nat \<Rightarrow> (nat \<times> nat) list \<Rightarrow> nat list \<times> nat" where
  "sysv_stack off [] = ([], off)"
| "sysv_stack off ((sz, al) # as) =
    (let o1 = round_up off (max 8 al); (os, e) = sysv_stack (o1 + round_up (max 1 sz) 8) as in (o1 # os, e))"

lemma sysv_stack_snoc:
  "sysv_stack off (as @ [(sz, al)]) =
    (let (os, e) = sysv_stack off as; o1 = round_up e (max 8 al) in (os @ [o1], o1 + round_up (max 1 sz) 8))"
  by (induction off as rule: sysv_stack.induct) (auto simp: Let_def split: prod.splits)

definition stack_locs :: "ArgLocation list \<Rightarrow> ArgLocation list" where
  "stack_locs = filter onStack"

definition follows_sysv :: "ArgLocation list \<Rightarrow> nat \<Rightarrow> bool" where
  "follows_sysv locs n \<longleftrightarrow>
     sysv_stack 0 (map (\<lambda>l. (size_of l, loc_align l)) (stack_locs locs)) = (map loc_offset (stack_locs locs), n) \<and> n mod 8 = 0"

text \<open>Slots of full width: integers of at most eight bytes, doubles, and memory with a power-of-two alignment.\<close>
definition full_width :: "ArgLocation \<Rightarrow> bool" where
  "full_width l \<longleftrightarrow>
     (if indirectOnStack l then 0 < loc_size l \<and> 0 < loc_align l \<and> (loc_align l dvd 8 \<or> 8 dvd loc_align l)
      else loc_size l \<le> 8 \<and> loc_align l \<le> 8 \<and> (loc_kind l = Float \<longrightarrow> loc_size l = 8) \<and> loc_kind l \<noteq> Memory)"

lemma round_up_mod: "round_up x al mod al = 0" if "0 < al"
proof (cases "x mod al = 0")
  case False
  then have "(x + (al - x mod al)) mod al = (x mod al + (al - x mod al)) mod al" by (simp only: mod_add_left_eq)
  then show ?thesis using False that by (simp add: round_up_def)
qed (simp add: round_up_def)

lemma round_up_id: "x mod al = 0 \<Longrightarrow> round_up x al = x"
  by (simp add: round_up_def)

lemma round_up_add: "x mod 8 = 0 \<Longrightarrow> round_up (x + y) 8 = x + round_up y 8"
  by (simp add: round_up_def mod_add_left_eq [symmetric, of x y 8] add.assoc)

lemma round_up_small: "0 < y \<Longrightarrow> y \<le> 8 \<Longrightarrow> round_up y 8 = 8"
  by (cases "y = 8") (simp_all add: round_up_def)

lemma follows_push_reg: "follows_sysv (al_args st) n \<Longrightarrow> \<not> onStack a \<Longrightarrow> follows_sysv (al_args (push_arg a st)) n"
  by (simp add: follows_sysv_def push_arg_def stack_locs_def)

lemma follows_push_stack:
  assumes "follows_sysv (al_args st) n" "onStack a" "loc_offset a = round_up n (max 8 (loc_align a))"
    "8 dvd max 8 (loc_align a)"
  shows "follows_sysv (al_args (push_arg a st)) (loc_offset a + round_up (max 1 (size_of a)) 8)"
proof -
  have "max 8 (loc_align a) dvd loc_offset a" unfolding assms(3) by (rule dvd_eq_mod_eq_0 [THEN iffD2, OF round_up_mod]) simp
  then have "8 dvd loc_offset a" using assms(4) by (rule dvd_trans [rotated])
  moreover have "8 dvd round_up (max 1 (size_of a)) 8" by (rule dvd_eq_mod_eq_0 [THEN iffD2, OF round_up_mod]) simp
  ultimately have "(loc_offset a + round_up (max 1 (size_of a)) 8) mod 8 = 0" by (simp add: dvd_eq_mod_eq_0 [symmetric])
  then show ?thesis using assms(1-3) by (simp add: follows_sysv_def push_arg_def stack_locs_def sysv_stack_snoc Let_def)
qed

lemma follows_scalar_slot:
  assumes st: "follows_sysv (al_args st) (stack_offset st)" and l: "full_width l" "\<not> indirectOnStack l" "fresh_loc l"
    and a: "allocate_stack (stack_offset st) l = Some a"
  shows "follows_sysv (al_args (push_arg a st)) (stack_offset st + 8)" "size_of a = loc_size l"
proof -
  have a': "a = l\<lparr>allocated := True, onStack := True, loc_offset := stack_offset st\<rparr>"
    using a by (simp add: allocate_stack_def split: if_splits)
  show sz: "size_of a = loc_size l" using l(3) by (simp add: a' size_of_def is_128bit_float_def fresh_loc_def)
  have al: "max 8 (loc_align a) = 8" using l by (simp add: a' full_width_def)
  have "stack_offset st mod 8 = 0" using st by (simp add: follows_sysv_def)
  then have "loc_offset a = round_up (stack_offset st) (max 8 (loc_align a))" unfolding al by (simp add: a' round_up_id)
  moreover have "round_up (max 1 (size_of a)) 8 = 8" unfolding sz using l by (intro round_up_small) (simp_all add: full_width_def)
  ultimately show "follows_sysv (al_args (push_arg a st)) (stack_offset st + 8)"
    using follows_push_stack [OF st, of a] al by (simp add: a')
qed

lemma follows_memory_slot:
  assumes st: "follows_sysv (al_args st) (stack_offset st)" and l: "full_width l" "indirectOnStack l" "fresh_loc l"
    and a: "alloc_memory (Stack (size_of l) (loc_align l)) st = Some st'"
  shows "follows_sysv (al_args st') (stack_offset st')"
proof -
  let ?al = "loc_align l" and ?off = "round_up (stack_offset st) (loc_align l)"
  have sz: "size_of l = loc_size l" using l(3) by (simp add: size_of_def is_128bit_float_def fresh_loc_def)
  obtain x where x: "allocate_stack ?off (Stack (loc_size l) ?al) = Some x"
    and st': "st' = (push_arg x st)\<lparr>stack_offset := round_up (?off + size_of x) 8\<rparr>"
    using a sz by (auto simp: alloc_memory_def Let_def Stack_def split: bind_splits)
  have x': "x = (Stack (loc_size l) ?al)\<lparr>allocated := True, onStack := True, loc_offset := ?off\<rparr>"
    using x by (simp add: allocate_stack_def split: if_splits)
  have sx: "size_of x = loc_size l" "loc_align x = ?al" "onStack x" "loc_offset x = ?off"
    by (simp_all add: x' Stack_def size_of_def is_128bit_float_def)
  have m8: "stack_offset st mod 8 = 0" using st by (simp add: follows_sysv_def)
  have off: "?off = round_up (stack_offset st) (max 8 ?al)" and al: "8 dvd max 8 ?al"
  proof -
    consider "?al dvd 8" | "8 dvd ?al" using l(1,2) by (auto simp: full_width_def)
    then have "?off = round_up (stack_offset st) (max 8 ?al) \<and> 8 dvd max 8 ?al"
    proof cases
      case 1
      then have "max 8 ?al = 8" using dvd_imp_le [of ?al 8] by simp
      moreover have "stack_offset st mod ?al = 0" using 1 m8 by (metis dvd_eq_mod_eq_0 dvd_trans)
      ultimately show ?thesis using m8 by (simp add: round_up_id)
    next
      case 2
      then have "max 8 ?al = ?al" using l(1,2) dvd_imp_le [of 8 ?al] by (simp add: full_width_def)
      then show ?thesis using 2 by simp
    qed
    then show "?off = round_up (stack_offset st) (max 8 ?al)" "8 dvd max 8 ?al" by simp_all
  qed
  have "8 dvd ?off" unfolding off
    using al by (rule dvd_trans) (simp add: dvd_eq_mod_eq_0 round_up_mod)
  then have "round_up (?off + loc_size l) 8 = ?off + round_up (max 1 (loc_size l)) 8"
    using l(1,2) by (simp add: round_up_add dvd_eq_mod_eq_0 full_width_def max_def)
  then show ?thesis
    using follows_push_stack [OF st sx(3)] off al by (simp add: st' sx push_arg_def)
qed

lemma follows_alloc_arg:
  assumes st: "follows_sysv (al_args st) (stack_offset st)" and l: "full_width l" "fresh_loc l"
    and a: "alloc_arg X86 l st = Some st'"
  shows "follows_sysv (al_args st') (stack_offset st')"
proof (cases "indirectOnStack l")
  case True
  then show ?thesis using follows_memory_slot [OF st l(1) True l(2)] a by (simp add: alloc_arg_def Stack_def)
next
  case False
  have on_reg: "\<not> onStack x" if "allocate_reg r l = Some x" for r x
    using that l(2) by (auto simp: allocate_reg_def fresh_loc_def split: if_splits)
  have sz: "size_of l \<le> 8" "loc_kind l = Float \<longrightarrow> size_of l = 8" using l False
    by (auto simp: full_width_def size_of_def is_128bit_float_def fresh_loc_def)
  consider (reg) r x where "allocate_reg r l = Some x" "al_args st' = al_args st @ [x]" "stack_offset st' = stack_offset st"
    | (stack) x where "allocate_stack (stack_offset st) l = Some x" "al_args st' = al_args st @ [x]"
      "stack_offset st' = stack_offset st + 8"
  proof (cases "loc_kind l")
    case Integral
    then show ?thesis using a False sz that
      by (auto simp: alloc_arg_def alloc_integral_def Let_def push_arg_def split: if_splits bind_splits)
  next
    case Float
    then show ?thesis using a False sz that follows_scalar_slot(2) [OF st l(1) False l(2)] l(1)
      by (auto simp: alloc_arg_def alloc_float_def full_width_def Let_def push_arg_def split: if_splits bind_splits)
  next
    case Memory
    then show ?thesis using l(1) False by (simp add: full_width_def)
  qed
  then show ?thesis
  proof cases
    case reg
    then show ?thesis using follows_push_reg [OF st on_reg [OF reg(1)]] by (simp add: push_arg_def)
  next
    case stack
    then show ?thesis using follows_scalar_slot(1) [OF st l(1) False l(2) stack(1)] by (simp add: push_arg_def)
  qed
qed

lemma follows_alloc_args:
  assumes "follows_sysv (al_args st) (stack_offset st)" "list_all full_width ls" "list_all fresh_loc ls"
    and "alloc_args X86 ls st = Some st'"
  shows "follows_sysv (al_args st') (stack_offset st')"
  using assms by (induction ls arbitrary: st) (auto split: bind_splits intro: follows_alloc_arg)

text \<open>
  C21. Stack arguments of full width follow the convention: the offsets and the total size the
  allocation computes are those of the reference, for every signature whose
  slots are integers of at most eight bytes, doubles, or structures in memory.
\<close>
theorem stack_arguments_follow_sysv:
  assumes "fresh_sig sig" "list_all full_width (abi_args sig)" "allocate_param_locations sig X86 = Some (locs, n)"
  shows "sysv_stack 0 (map (\<lambda>l. (size_of l, loc_align l)) (stack_locs locs)) = (map loc_offset (stack_locs locs), n)"
proof -
  obtain st st' where st: "alloc_init sig X86 = Some st" "alloc_args X86 (abi_args sig) st = Some st'" "locs = al_args st'" "n = stack_offset st'"
    using assms(3) by (auto simp: allocate_param_locations_def split: bind_splits)
  have "follows_sysv (al_args st) (stack_offset st)"
    using st(1) by (auto simp: alloc_init_def Let_def follows_sysv_def stack_locs_def allocate_reg_def Register_def push_arg_def split: if_splits)
  from follows_alloc_args [OF this assms(2) _ st(2)] assms(1) show ?thesis
    by (simp add: st fresh_sig_def follows_sysv_def)
qed

theorem stack_arguments_follow_sysv_witness:
  "\<exists>locs. allocate_param_locations \<lparr> abi_args = [Indirect 24 16, Indirect 3 1, Indirect 16 16], abi_ret = [] \<rparr> X86 = Some (locs, 48) \<and>
     map loc_offset (stack_locs locs) = [0, 24, 32]"
proof -
  let ?sig = "\<lparr> abi_args = [Indirect 24 16, Indirect 3 1, Indirect 16 16], abi_ret = [] \<rparr>"
  let ?locs = "map (\<lambda>(sz, al, off). (Stack sz al)\<lparr>allocated := True, onStack := True, loc_offset := off\<rparr>) [(24, 16, 0), (3, 1, 24), (16, 16, 32)]"
  have L: "allocate_param_locations ?sig X86 = Some (?locs, 48)" by (simp add: abi_eval cong: bind_first)
  have sl: "stack_locs ?locs = ?locs" by (simp add: stack_locs_def)
  have sz: "map (\<lambda>l. (size_of l, loc_align l)) ?locs = [(24, 16), (3, 1), (16, 16)]"
    by (simp add: Stack_def size_of_def is_128bit_float_def)
  have "fresh_sig ?sig" "list_all full_width (abi_args ?sig)"
    by (simp_all add: fresh_sig_def fresh_loc_def full_width_def Indirect_def)
  from stack_arguments_follow_sysv [OF this L]
  have "sysv_stack 0 [(24, 16), (3, 1), (16, 16)] = (map loc_offset ?locs, 48)" unfolding sl sz .
  then have "map loc_offset ?locs = [0, 24, 32]" by (simp add: round_up_def Let_def)
  then have "map loc_offset (stack_locs ?locs) = [0, 24, 32]" unfolding sl .
  then show ?thesis by (intro exI [of _ ?locs] conjI L)
qed

lemma replicate_eval: "replicate 10 x = [x, x, x, x, x, x, x, x, x, x]" "replicate 6 x = [x, x, x, x, x, x]"
  by (simp_all add: numeral_nat)

text \<open>
  Arguments on the stack that are not eight bytes wide are misplaced.  The ninth and
  tenth \<open>float\<close> get offsets 0 and 4 and eight bytes in total, where the convention
  gives each its own eightbyte, offsets 0 and 8 and sixteen bytes.  A 128-bit
  integer that no longer fits the registers reserves eight of its sixteen bytes, so
  the next stack argument overlaps its upper half.
\<close>
lemma stack_slots_misplaced:
  "(\<exists>locs. allocate_param_locations \<lparr> abi_args = replicate 10 (Register Float 4), abi_ret = [] \<rparr> X86 = Some (locs, 8) \<and>
     map loc_offset (stack_locs locs) = [0, 4] \<and>
     sysv_stack 0 (map (\<lambda>l. (size_of l, loc_align l)) (stack_locs locs)) = ([0, 8], 16)) \<and>
   (\<exists>locs. allocate_param_locations \<lparr> abi_args = replicate 6 (Register Integral 8) @ [Register Integral 16, Register Integral 8], abi_ret = [] \<rparr> X86 = Some (locs, 16) \<and>
     map (\<lambda>l. (loc_offset l, size_of l)) (stack_locs locs) = [(0, 16), (8, 8)])"
proof (rule conjI, goal_cases)
  case 1
  show ?case by (simp add: replicate_eval abi_eval stack_locs_def cong: bind_first)
next
  case 2
  show ?case by (simp add: replicate_eval abi_eval stack_locs_def cong: bind_first)
qed

text \<open>
  The case for a 128-bit integer return value lacks a \<open>break\<close>: besides rax and rdx
  the value is also given the vector register xmm0.
\<close>
lemma int128_return_claims_xmm0:
  "\<exists>locs. allocate_return_locations \<lparr> abi_args = [], abi_ret = [Register Integral 16] \<rparr> X86 = Some locs \<and>
     map loc_reg locs = [Some ''rax'', Some ''rdx'', Some ''xmm0'']"
  by (simp add: abi_eval cong: bind_first)

end
