(* ===== verification/Runtime_Gates.thy ===== *)
theory Runtime_Gates
  imports Gate_Safety
begin

text \<open>
  The transitions between compartments that libia2 itself contains as assembler
  text: the gate around \<open>__cxa_finalize\<close> (\<open>exit_callgates.c\<close>), the wrapper of \<open>main\<close>
  (\<open>main.c\<close>), \<open>exit\<close> (\<open>exit.c\<close>) and the switch of stacks at the start of a thread
  (\<open>threads.c\<close>), each as the list of its x86-64 instructions, run on the same machine
  as the generated wrappers.
\<close>

section \<open>The code\<close>

definition real_cxa_finalize :: string where
  "real_cxa_finalize = ''__real___cxa_finalize''"

text \<open>Up to the call; \<open>l\<close> is \<open>IA2_LIBC_COMPARTMENT\<close>.\<close>
definition cxa_finalize_enter :: "nat \<Rightarrow> instr list" where
  "cxa_finalize_enter l =
    [Label ''__wrap___cxa_finalize'',
     Pushq ''rbp'', Movq ''rsp'' ''rbp'', Pushq ''rbx'', Pushq ''r12'', Pushq ''r13'', Pushq ''r14'', Pushq ''r15'',
     Movq ''rdi'' ''r12'', Movq ''rsp'' ''r14'',
     Xorl ''rcx'', Xorl ''rdx'', Rdpkru, Movl ''rax'' ''r13'',
     Xorl ''rcx'', Xorl ''rdx'', Movl_imm (PKRU l) ''rax'', Wrpkru,
     Mov_gottpoff l ''r11'', Movq_from_fs ''r11'' ''r10'', Movq ''r10'' ''rsp'',
     Movq ''r12'' ''rdi'', Subq 8 ''rsp'']"

text \<open>After the call; \<open>dbg\<close> is whether \<open>IA2_DEBUG\<close> is defined.\<close>
definition cxa_finalize_leave :: "bool \<Rightarrow> instr list" where
  "cxa_finalize_leave dbg =
    [Addq 8 ''rsp'', Movq ''r14'' ''rsp'', Movl ''r13'' ''rax'', Xorl ''rcx'', Xorl ''rdx'', Wrpkru] @
    (if dbg then [Movq ''rcx'' ''r10'', Rdpkru, Cmpl_trap ''r13'' ''rax'', Movq ''r10'' ''rcx''] else []) @
    [Popq ''r15'', Popq ''r14'', Popq ''r13'', Popq ''r12'', Popq ''rbx'', Popq ''rbp'', Ret]"

definition wrap_cxa_finalize :: "nat \<Rightarrow> bool \<Rightarrow> instr list" where
  "wrap_cxa_finalize l dbg = cxa_finalize_enter l @ [Call real_cxa_finalize] @ cxa_finalize_leave dbg"

text \<open>\<open>main_sp\<close> is the address of the variable of that name, \<open>libc\<close> whether \<open>IA2_LIBC_COMPARTMENT\<close> is defined.\<close>
definition main_enter :: "u64 \<Rightarrow> instr list" where
  "main_enter main_sp =
    [Xorl ''rcx'', Movl ''rcx'' ''rdx'', Movl_imm (PKRU 1) ''rax'', Wrpkru,
     Store_abs ''rsp'' main_sp,
     Mov_gottpoff 1 ''r11'', Movq_from_fs ''r11'' ''rsp'',
     Subq 8 ''rsp'']"

definition main_leave :: "u64 \<Rightarrow> bool \<Rightarrow> instr list" where
  "main_leave main_sp libc =
    [Load_abs main_sp ''rsp'', Movq ''rax'' ''r10''] @
    (if libc then [] else [Xorl ''rcx'', Xorl ''rdx'', Movl_imm (PKRU 0) ''rax'', Wrpkru]) @
    [Movq ''r10'' ''rax'', Popq ''rbp'', Ret]"

definition wrap_main :: "u64 \<Rightarrow> bool \<Rightarrow> instr list" where
  "wrap_main main_sp libc =
    [Label ''__wrap_main'', Pushq ''rbp'', Movq ''rsp'' ''rbp'',
     Pushq ''rdi'', Pushq ''rsi'', Pushq ''rdx'', Subq 8 ''rsp'', Call ''ia2_start'', Addq 8 ''rsp'',
     Popq ''rdx'', Popq ''rsi'', Popq ''rdi''] @
    main_enter main_sp @ [Call ''__real_main''] @ main_leave main_sp libc"

definition exit_code :: "bool \<Rightarrow> instr list" where
  "exit_code libc =
    [Label ''exit'', Pushq ''rbp'', Movq ''rsp'' ''rbp'',
     Mov_gottpoff 0 ''r11'', Movq_from_fs ''r11'' ''rsp'',
     Xorl ''rcx'', Movl ''rcx'' ''rdx'', Movl_imm (PKRU (if libc then 1 else 0)) ''rax'', Wrpkru,
     Subq 8 ''rsp'', Call ''call_libc_exit'']"

definition exit_immediately :: "instr list" where
  "exit_immediately = [Label ''_exit'', Jmp ''exit'']"

text \<open>The inline assembler of \<open>ia2_thread_begin\<close> with the registers chosen for its three operands.\<close>
definition thread_switch :: "string \<Rightarrow> string \<Rightarrow> string \<Rightarrow> instr list" where
  "thread_switch fn data new_sp_addr =
    [Movq ''rsp'' ''rdi'', Load 8 0 new_sp_addr ''rsp'', Pushq ''rdi'', Pushq ''rbp'',
     Movq data ''rdi'', Movq ''rsp'' ''rbp'', Andq 0xfffffffffffffff0 ''rsp'',
     Call_reg fn,
     Movq ''rbp'' ''rsp'', Popq ''rbp'', Popq ''rsp'']"

section \<open>The exit gate\<close>

lemma exec_single: "exec E [i] s = exec1 E i s"
  by (cases "exec1 E i s") simp_all

lemma finalize_prologue:
  "cxa_finalize_enter l = [Label ''__wrap___cxa_finalize''] @ emit_prologue X86 @ drop 8 (cxa_finalize_enter l)"
  by (simp add: cxa_finalize_enter_def emit_prologue_def x86_preserved_registers_def)

lemma finalize_epilogue:
  "cxa_finalize_leave dbg = take (if dbg then 10 else 6) (cxa_finalize_leave dbg) @ emit_epilogue X86 @ [Ret]"
  by (simp add: cxa_finalize_leave_def emit_epilogue_def x86_preserved_registers_def)

text \<open>The state in which the target of the exit gate is called.\<close>
definition finalize_entry :: "machine_env \<Rightarrow> nat \<Rightarrow> u64 \<Rightarrow> machine \<Rightarrow> machine \<Rightarrow> bool" where
  "finalize_entry E l T s s1 \<longleftrightarrow>
    pkru s1 = PKRU l \<and> gpr s1 ''rsp'' = T - 16 \<and> gpr s1 ''rdi'' = gpr s ''rdi'' \<and>
    gpr s1 ''r13'' = ucast (pkru s) \<and> gpr s1 ''r14'' = gpr s ''rsp'' - 48"

lemma finalize_enter:
  assumes mem: "gate_memory E c l (uint (gpr s ''rsp'')) (uint T) 0 48 16" and pk: "pkru s = PKRU c"
    and sl: "read_bytes (mem s) (slot E l) 8 = unat T"
  shows "\<exists>s1. exec E (wrap_cxa_finalize l dbg) s =
      Option.bind (callee E real_cxa_finalize s1) (exec E (cxa_finalize_leave dbg)) \<and>
    finalize_entry E l T s s1 \<and> epilogue_restores E s (mem s1) \<and>
    (\<forall>a. key_of E a = c \<and> \<not> (uint (gpr s ''rsp'') - 48 \<le> a \<and> a < uint (gpr s ''rsp'')) \<longrightarrow> mem s1 a = mem s a)"
proof -
  let ?sp = "gpr s ''rsp''" and ?A = "slot E l"
  note M = mem [unfolded gate_memory_def]
  have frame: "owns E c (uint ?sp - 48) (uint ?sp)" using M by (auto intro: owns_sub)
  have acc: "accessible E (pkru s) (uint ?sp - 48) (uint ?sp)" using owns_PKRU [OF frame] M pk by simp
  obtain m where pro: "exec E (emit_prologue X86) s =
      Some (s\<lparr>gpr := (gpr s)(''rsp'' := ?sp - 48, ''rbp'' := ?sp - 8), mem := m\<rparr>)"
    and out: "\<forall>a. a < uint ?sp - 48 \<or> uint ?sp \<le> a \<longrightarrow> m a = mem s a" and epi: "epilogue_restores E s m"
    using exec_frame [OF acc] M unfolding epilogue_restores_def by fastforce
  define s0 where "s0 = s\<lparr>gpr := (gpr s)(''rsp'' := ?sp - 48, ''rbp'' := ?sp - 8), mem := m\<rparr>"
  have rd: "read_bytes m ?A 8 = unat T"
    using sl out owns_disjoint [of E l ?A "?A + 8" c "uint ?sp - 48" "uint ?sp"] frame M
    by (subst read_bytes_cong [of _ 8 m "mem s"]) auto
  have ld: "load E u (uint (fs_base E + tpoff E l)) 8 = Some (unat T)" if "mem u = m" "pkru u = PKRU l" for u
    using load_accessible [of E u ?A "?A + 8" ?A 8] owns_PKRU [of E l ?A "?A + 8"] M rd that by (simp add: slot_def)
  define g where "g = (gpr s)(''rbp'' := ?sp - 8, ''r12'' := gpr s ''rdi'', ''r14'' := ?sp - 48, ''rcx'' := 0,
    ''rdx'' := 0, ''r13'' := ucast (pkru s), ''rax'' := ucast (PKRU l), ''r11'' := tpoff E l, ''r10'' := T,
    ''rsp'' := T - 8)"
  have ent: "exec E (drop 8 (cxa_finalize_enter l)) s0 = Some (s0\<lparr>gpr := g, pkru := PKRU l\<rparr>)"
    by (simp add: cxa_finalize_enter_def set_reg_def s0_def g_def ld) (simp add: fun_eq_iff)
  have stk: "accessible E (PKRU l) (uint T - 16) (uint T)" "16 \<le> uint T" "uint (T - 8) = uint T - 8"
    using M owns_PKRU [of E l "uint T - 16" "uint T"] by (auto simp: uint_minus_8)
  define s1 where "s1 = s0\<lparr>gpr := g(''rsp'' := T - 16), pkru := PKRU l,
    mem := write_bytes m (uint T - 16) 8 (unat (ret_addr E))\<rparr>"
  have psh: "push64 E (ret_addr E) (s0\<lparr>gpr := g, pkru := PKRU l\<rparr>) = Some s1"
    using exec_push64 [of E "s0\<lparr>gpr := g, pkru := PKRU l\<rparr>" "uint T - 16" "uint T" "ret_addr E"] stk
    by (simp add: s1_def s0_def g_def)
  have enter: "exec E (cxa_finalize_enter l) s = Some (s0\<lparr>gpr := g, pkru := PKRU l\<rparr>)"
    by (subst finalize_prologue) (simp only: exec_append exec_single exec1.simps pro [folded s0_def] ent Option.bind.simps)
  have call: "exec1 E (Call real_cxa_finalize) (s0\<lparr>gpr := g, pkru := PKRU l\<rparr>) = callee E real_cxa_finalize s1"
    by (simp add: psh real_cxa_finalize_def)
  have run: "exec E (wrap_cxa_finalize l dbg) s =
      Option.bind (callee E real_cxa_finalize s1) (exec E (cxa_finalize_leave dbg))"
    by (simp only: wrap_cxa_finalize_def exec_append enter exec_single call Option.bind.simps)
  have keep: "mem s1 a = m a" if "key_of E a = c" for a
  proof -
    have "owns E l (uint T - 16) (uint T)" "c \<noteq> l" using M by simp_all
    then have "a < uint T - 16 \<or> uint T \<le> a" using that unfolding owns_def by (metis not_le)
    then show ?thesis by (auto simp: s1_def intro: write_bytes_outside)
  qed
  have "epilogue_restores E s (mem s1)" using epi
    by (rule epilogue_restores_cong) (use frame keep in \<open>auto simp: owns_def\<close>)
  moreover have "finalize_entry E l T s s1" by (simp add: finalize_entry_def s1_def g_def)
  moreover have "mem s1 a = mem s a" if "key_of E a = c \<and> \<not> (uint ?sp - 48 \<le> a \<and> a < uint ?sp)" for a
    using keep [of a] out that by auto
  ultimately show ?thesis using run by blast
qed

text \<open>After the call the stack pointer and PKRU come from \<open>r14\<close> and \<open>r13\<close>, in debug builds as well.\<close>
definition finalize_resumed :: "bool \<Rightarrow> machine \<Rightarrow> machine" where
  "finalize_resumed dbg s = s\<lparr>pkru := ucast (gpr s ''r13''), gpr :=
    (let g = (gpr s)(''rsp'' := gpr s ''r14'', ''rcx'' := 0, ''rdx'' := 0, ''rax'' := ucast (ucast (gpr s ''r13'') :: u32))
     in if dbg then g(''r10'' := 0) else g)\<rparr>"

lemma ucast_ucast_u32 [simp]: "ucast (ucast (v :: u32) :: u64) = v"
  by (rule ucast_up_ucast_id) (simp add: is_up)

lemma finalize_leave:
  "exec E (cxa_finalize_leave dbg) s = exec E (emit_epilogue X86 @ [Ret]) (finalize_resumed dbg s)"
proof -
  have "exec E (take (if dbg then 10 else 6) (cxa_finalize_leave dbg)) s = Some (finalize_resumed dbg s)"
    by (cases dbg) (simp_all add: cxa_finalize_leave_def finalize_resumed_def set_reg_def fun_eq_iff Let_def)
  then show ?thesis by (subst finalize_epilogue) (simp only: exec_append Option.bind.simps)
qed

lemma finalize_resumed_simps [simp]:
  "pkru (finalize_resumed dbg s) = ucast (gpr s ''r13'')" "gpr (finalize_resumed dbg s) ''rsp'' = gpr s ''r14''"
  "mem (finalize_resumed dbg s) = mem s"
  by (simp_all add: finalize_resumed_def Let_def)

lemma exec_pops:
  assumes "accessible E (pkru s) lo hi" "lo \<le> uint (gpr s ''rsp'')"
    "uint (gpr s ''rsp'') + 8 * int (length rs) \<le> hi" "hi < 2 ^ 64" "''rsp'' \<notin> set rs"
  shows "\<exists>g. exec E (map Popq rs) s = Some (s\<lparr>gpr := g\<rparr>) \<and> g ''rsp'' = gpr s ''rsp'' + 8 * word_of_nat (length rs)"
  using assms
proof (induction rs arbitrary: s)
  case Nil
  show ?case by (intro exI [of _ "gpr s"]) simp
next
  case (Cons r rs)
  let ?v = "word_of_nat (read_bytes (mem s) (uint (gpr s ''rsp'')) 8) :: u64"
  define s' where "s' = s\<lparr>gpr := (gpr s)(''rsp'' := gpr s ''rsp'' + 8, r := ?v)\<rparr>"
  have r: "r \<noteq> ''rsp''" using Cons.prems by auto
  have p: "exec1 E (Popq r) s = Some s'"
    using exec_pop64 [OF Cons.prems(1,2)] Cons.prems(3) by (simp add: s'_def set_reg_def)
  have sp: "gpr s' ''rsp'' = gpr s ''rsp'' + 8" using r by (simp add: s'_def)
  have u: "uint (gpr s' ''rsp'') = uint (gpr s ''rsp'') + 8"
    unfolding sp using Cons.prems(3,4) by (intro uint_plus_8) simp
  have "accessible E (pkru s') lo hi" "lo \<le> uint (gpr s' ''rsp'')"
    "uint (gpr s' ''rsp'') + 8 * int (length rs) \<le> hi" "hi < 2 ^ 64" "''rsp'' \<notin> set rs"
    using Cons.prems u by (auto simp: s'_def)
  from Cons.IH [OF this] obtain g where "exec E (map Popq rs) s' = Some (s'\<lparr>gpr := g\<rparr>)"
    "g ''rsp'' = gpr s' ''rsp'' + 8 * word_of_nat (length rs)" by (elim exE conjE)
  then show ?case using p sp by (intro exI [of _ g]) (simp add: s'_def algebra_simps)
qed

lemma epilogue_any:
  assumes "accessible E (pkru s) (uint (gpr s ''rsp'')) (uint (gpr s ''rsp'') + 56)" "uint (gpr s ''rsp'') + 56 < 2 ^ 64"
  shows "\<exists>g. exec E (emit_epilogue X86 @ [Ret]) s = Some (s\<lparr>gpr := g\<rparr>) \<and> g ''rsp'' = gpr s ''rsp'' + 56"
proof -
  let ?rs = "rev x86_preserved_registers @ [''rbp'']" and ?sp = "gpr s ''rsp''"
  have len: "length ?rs = 6" "''rsp'' \<notin> set ?rs" by (simp_all add: x86_preserved_registers_def)
  have e: "emit_epilogue X86 = map Popq ?rs" by (simp add: emit_epilogue_def)
  have "uint ?sp \<le> uint ?sp" "uint ?sp + 8 * int (length ?rs) \<le> uint ?sp + 56" unfolding len(1) by simp_all
  from exec_pops [OF assms(1) this assms(2) len(2)]
  obtain g where g: "exec E (map Popq ?rs) s = Some (s\<lparr>gpr := g\<rparr>)" "g ''rsp'' = ?sp + 8 * word_of_nat (length ?rs)"
    by (elim exE conjE)
  have g48: "g ''rsp'' = ?sp + 48" using g(2) unfolding len(1) by simp
  have u: "uint (?sp + 48) = uint ?sp + 48" using uint_plus_nat [of ?sp 48] assms(2) by simp
  have "pop64 E (s\<lparr>gpr := g\<rparr>) = Some (word_of_nat (read_bytes (mem s) (uint (g ''rsp'')) 8), s\<lparr>gpr := g(''rsp'' := g ''rsp'' + 8)\<rparr>)"
    using exec_pop64 [of E "s\<lparr>gpr := g\<rparr>" "uint ?sp" "uint ?sp + 56"] assms(1) by (simp add: g48 u)
  then have "exec E [Ret] (s\<lparr>gpr := g\<rparr>) = Some (s\<lparr>gpr := g(''rsp'' := ?sp + 56)\<rparr>)" by (simp add: g48 add.commute)
  then have "exec E (emit_epilogue X86 @ [Ret]) s = Some (s\<lparr>gpr := g(''rsp'' := ?sp + 56)\<rparr>)"
    unfolding e exec_append g(1) by (simp only: Option.bind.simps)
  then show ?thesis by (intro exI [of _ "g(''rsp'' := ?sp + 56)"]) simp
qed

text \<open>
  A target that keeps the calling convention and its own bounds: it returns with
  the callee-saved registers of the caller and leaves memory of other
  compartments alone.
\<close>
definition abiding_target :: "machine_env \<Rightarrow> nat \<Rightarrow> string \<Rightarrow> bool" where
  "abiding_target E t f \<longleftrightarrow> (\<forall>s1. pkru s1 = PKRU t \<longrightarrow>
     (\<exists>s2. callee E f s1 = Some s2 \<and> (\<forall>a. key_of E a \<noteq> 0 \<and> key_of E a \<noteq> t \<longrightarrow> mem s2 a = mem s1 a) \<and>
       (\<forall>r \<in> set x86_preserved_registers. gpr s2 r = gpr s1 r)))"

text \<open>
  C19. The exit gate and a well-behaved libc.  Called by a protected compartment, the
  gate enters \<open>__cxa_finalize\<close> with the argument of the caller, the PKRU value of the
  libc compartment and its stack; when that function keeps the calling convention
  and its bounds, the caller gets its PKRU value, stack pointer, callee-saved
  registers and memory back.
\<close>
theorem finalize_restores_caller:
  assumes mem: "gate_memory E c l (uint (gpr s ''rsp'')) (uint T) 0 48 16" and c: "c \<noteq> 0" "pkru s = PKRU c"
    and sl: "read_bytes (mem s) (slot E l) 8 = unat (T :: u64)" and f: "abiding_target E l real_cxa_finalize"
  shows "\<exists>s1 t. finalize_entry E l T s s1 \<and>
    exec E (wrap_cxa_finalize l dbg) s = Option.bind (callee E real_cxa_finalize s1) (exec E (cxa_finalize_leave dbg)) \<and>
    exec E (wrap_cxa_finalize l dbg) s = Some t \<and> pkru t = PKRU c \<and> gpr t ''rsp'' = gpr s ''rsp'' + 8 \<and>
    (\<forall>r \<in> set (''rbp'' # x86_preserved_registers). gpr t r = gpr s r) \<and>
    (\<forall>a. key_of E a = c \<and> \<not> (uint (gpr s ''rsp'') - 48 \<le> a \<and> a < uint (gpr s ''rsp'')) \<longrightarrow> mem t a = mem s a)"
proof -
  let ?sp = "gpr s ''rsp''"
  note M = mem [unfolded gate_memory_def]
  obtain s1 where run: "exec E (wrap_cxa_finalize l dbg) s =
      Option.bind (callee E real_cxa_finalize s1) (exec E (cxa_finalize_leave dbg))"
    and ent: "finalize_entry E l T s s1" and epi: "epilogue_restores E s (mem s1)"
    and out: "\<forall>a. key_of E a = c \<and> \<not> (uint ?sp - 48 \<le> a \<and> a < uint ?sp) \<longrightarrow> mem s1 a = mem s a"
    using finalize_enter [OF mem c(2) sl, of dbg] by (elim exE conjE)
  have p1: "pkru s1 = PKRU l" using ent by (simp add: finalize_entry_def)
  obtain s2 where s2: "callee E real_cxa_finalize s1 = Some s2"
    and m2: "\<forall>a. key_of E a \<noteq> 0 \<and> key_of E a \<noteq> l \<longrightarrow> mem s2 a = mem s1 a"
    and r2: "\<forall>r \<in> set x86_preserved_registers. gpr s2 r = gpr s1 r"
    using f [unfolded abiding_target_def, rule_format, OF p1] by (elim exE conjE)
  have mc: "mem s2 a = mem s1 a" if "key_of E a = c" for a using m2 that c(1) M by simp
  have own: "owns E c (uint ?sp - 48) (uint ?sp + 8)" using M by simp
  have g: "gpr s2 ''r13'' = ucast (PKRU c)" "gpr s2 ''r14'' = ?sp - 48"
    using r2 ent c(2) by (simp_all add: finalize_entry_def x86_preserved_registers_def)
  define u where "u = finalize_resumed dbg s2"
  have u: "pkru u = PKRU c" "gpr u ''rsp'' = ?sp - 48" "mem u = mem s2" by (simp_all add: u_def g)
  define t0 where "t0 = u\<lparr>gpr := (\<lambda>r. if r \<in> set (''rsp'' # ''rbp'' # x86_preserved_registers) then gpr s r else gpr u r)\<rparr>"
  have "\<forall>a. uint ?sp - 48 \<le> a \<and> a < uint ?sp \<longrightarrow> mem u a = mem s1 a" using own mc u(3) by (simp add: owns_def)
  then have e: "exec E (emit_epilogue X86) u = Some t0"
    unfolding t0_def using u c(2) by (intro epi [unfolded epilogue_restores_def, rule_format]) simp
  have t0: "pkru t0 = PKRU c" "gpr t0 ''rsp'' = ?sp" "mem t0 = mem s2" by (simp_all add: t0_def u)
  have "accessible E (pkru t0) (uint ?sp) (uint ?sp + 8)"
    using owns_PKRU [OF owns_sub [OF own]] M by (simp add: t0)
  then have r: "exec E [Ret] t0 = Some (t0\<lparr>gpr := (gpr t0)(''rsp'' := ?sp + 8)\<rparr>)"
    using exec_return [of E t0] by (simp add: t0 emit_return_def)
  define t where "t = t0\<lparr>gpr := (gpr t0)(''rsp'' := ?sp + 8)\<rparr>"
  have ex: "exec E (wrap_cxa_finalize l dbg) s = Some t"
    by (simp only: run s2 Option.bind.simps finalize_leave exec_append u_def [symmetric] e r t_def)
  have "gpr t r = gpr s r" if "r \<in> set (''rbp'' # x86_preserved_registers)" for r
    using that by (auto simp: t_def t0_def x86_preserved_registers_def)
  moreover have "mem t a = mem s a" if "key_of E a = c \<and> \<not> (uint ?sp - 48 \<le> a \<and> a < uint ?sp)" for a
    using that mc out by (simp add: t_def t0)
  ultimately show ?thesis using ent run ex t0 by (intro exI [of _ s1] exI [of _ t]) (simp add: t_def)
qed

text \<open>
  C38. The exit gate trusts its target with the caller's rights.  Let the target
  return with any values in the two callee-saved registers in which the gate keeps
  the caller's PKRU value and stack pointer.  Then the gate continues with exactly
  these: it loads the target's value into PKRU, passes its own debug check, and
  returns on the target's choice of stack.  In particular a target in the libc
  compartment can have every protection key opened, unlike the target of a
  generated wrapper.
\<close>
theorem finalize_trusts_target:
  assumes mem: "gate_memory E c l (uint (gpr s ''rsp'')) (uint T) 0 48 16" and pk: "pkru s = PKRU c"
    and sl: "read_bytes (mem s) (slot E l) 8 = unat (T :: u64)"
    and f: "\<And>s1. pkru s1 = PKRU l \<Longrightarrow> \<exists>s2. callee E real_cxa_finalize s1 = Some s2 \<and> gpr s2 ''r13'' = ucast v \<and> gpr s2 ''r14'' = P"
    and stk: "accessible E v (uint P) (uint P + 56)" "uint P + 56 < 2 ^ 64"
  shows "\<exists>t. exec E (wrap_cxa_finalize l dbg) s = Some t \<and> pkru t = v \<and> gpr t ''rsp'' = P + 56"
proof -
  obtain s1 where run: "exec E (wrap_cxa_finalize l dbg) s =
      Option.bind (callee E real_cxa_finalize s1) (exec E (cxa_finalize_leave dbg))"
    and ent: "finalize_entry E l T s s1"
    using finalize_enter [OF mem pk sl, of dbg] by (elim exE conjE)
  have "pkru s1 = PKRU l" using ent by (simp add: finalize_entry_def)
  from f [OF this] obtain s2 where s2: "callee E real_cxa_finalize s1 = Some s2"
    "gpr s2 ''r13'' = ucast v" "gpr s2 ''r14'' = P" by (elim exE conjE)
  obtain g where "exec E (emit_epilogue X86 @ [Ret]) (finalize_resumed dbg s2) = Some (finalize_resumed dbg s2\<lparr>gpr := g\<rparr>)"
    "g ''rsp'' = P + 56"
    using epilogue_any [of E "finalize_resumed dbg s2"] stk s2 by auto
  then show ?thesis
    by (intro exI [of _ "finalize_resumed dbg s2\<lparr>gpr := g\<rparr>"])
      (simp add: run s2 finalize_leave del: exec_append)
qed

text \<open>Compartment 2 calls the exit gate of the libc compartment 1.\<close>
definition exit_state :: machine where
  "exit_state = \<lparr> gpr = (\<lambda>r. if r = ''rsp'' then 0x28000 else if r = ''rbx'' then 7 else if r = ''rdi'' then 5 else 9),
     xmm = (\<lambda>_. 3), mem = write_bytes (\<lambda>_. 0) 0x10000 8 (unat (0x18008 :: u64)), pkru = PKRU 2 \<rparr>"

lemma exit_memory: "gate_memory (sample_env call) 2 1 (uint (gpr exit_state ''rsp'')) (uint (0x18008 :: u64)) 0 48 16"
  by (simp add: gate_memory_def owns_def slot_def sample_env_def exit_state_def)

lemma exit_slot: "read_bytes (mem exit_state) (slot (sample_env call) 1) 8 = unat (0x18008 :: u64)"
  using read_write_word [of "\<lambda>_. 0" "0x10000" "0x18008"] by (simp add: slot_def sample_env_def exit_state_def)

theorem finalize_restores_caller_witness:
  "\<exists>t. exec (sample_env (\<lambda>_ s. Some (s\<lparr>pkru := 0\<rparr>))) (wrap_cxa_finalize 1 True) exit_state = Some t \<and>
    pkru t = PKRU 2 \<and> gpr t ''rsp'' = 0x28008 \<and> gpr t ''rbx'' = 7"
proof -
  let ?E = "sample_env (\<lambda>_ s. Some (s\<lparr>pkru := 0\<rparr>))"
  have "abiding_target ?E 1 real_cxa_finalize" by (simp add: abiding_target_def sample_env_def)
  from finalize_restores_caller [OF exit_memory _ _ exit_slot this, of True]
  show ?thesis by (auto simp: exit_state_def x86_preserved_registers_def)
qed

theorem finalize_trusts_target_witness:
  "\<exists>t. exec (sample_env (\<lambda>_ s. Some (s\<lparr>gpr := (\<lambda>r. if r = ''r14'' then 0x24000 else 0)\<rparr>)))
      (wrap_cxa_finalize 1 True) exit_state = Some t \<and> pkru t = 0 \<and> gpr t ''rsp'' = 0x24038"
proof -
  let ?E = "sample_env (\<lambda>_ s. Some (s\<lparr>gpr := (\<lambda>r. if r = ''r14'' then 0x24000 else 0)\<rparr>))"
  have f: "\<exists>s2. callee ?E real_cxa_finalize s1 = Some s2 \<and> gpr s2 ''r13'' = ucast (0 :: u32) \<and> gpr s2 ''r14'' = 0x24000" for s1
    by (simp add: sample_env_def)
  have "accessible ?E 0 (uint (0x24000 :: u64)) (uint (0x24000 :: u64) + 56)"
    by (simp add: accessible_def pkru_may_read_def pkru_may_write_def)
  with finalize_trusts_target [OF exit_memory _ exit_slot f, of True]
  show ?thesis by (simp add: exit_state_def)
qed

section \<open>Leaving through \<open>exit\<close>\<close>

lemma exec_call:
  assumes "accessible E (pkru s) (uint (gpr s ''rsp'') - 8) (uint (gpr s ''rsp''))" "8 \<le> uint (gpr s ''rsp'')"
    "f \<noteq> ''__libia2_scrub_registers''"
  shows "exec1 E (Call f) s = callee E f (s\<lparr>gpr := (gpr s)(''rsp'' := gpr s ''rsp'' - 8),
    mem := write_bytes (mem s) (uint (gpr s ''rsp'') - 8) 8 (unat (ret_addr E))\<rparr>)"
  using exec_push64 [OF assms(1)] assms(2,3) by simp

text \<open>
  From any compartment, \<open>exit\<close> reaches libc on the shared stack with the PKRU value of the
  compartment that may run it and with the status it was given.
\<close>
lemma exit_reaches_libc:
  assumes stack: "accessible E (pkru s) (uint (gpr s ''rsp'') - 8) (uint (gpr s ''rsp''))" "8 \<le> uint (gpr s ''rsp'')"
    and shared: "owns E 0 (slot E 0) (slot E 0 + 8)" "pkru s = PKRU c" "c < 16"
    and apart: "slot E 0 + 8 \<le> uint (gpr s ''rsp'') - 8 \<or> uint (gpr s ''rsp'') \<le> slot E 0"
    and sp0: "read_bytes (mem s) (slot E 0) 8 = unat (T :: u64)" "16 \<le> uint T" "owns E 0 (uint T - 16) (uint T)"
  shows "\<exists>s1. exec E (exit_code libc) s = callee E ''call_libc_exit'' s1 \<and>
    pkru s1 = PKRU (if libc then 1 else 0) \<and> gpr s1 ''rsp'' = T - 16 \<and> gpr s1 ''rdi'' = gpr s ''rdi''"
proof -
  let ?sp = "gpr s ''rsp''" and ?p = "PKRU (if libc then 1 else 0)"
  define m where "m = write_bytes (mem s) (uint ?sp - 8) 8 (unat (gpr s ''rbp''))"
  have psh: "push64 E (gpr s ''rbp'') s = Some (s\<lparr>gpr := (gpr s)(''rsp'' := ?sp - 8), mem := m\<rparr>)"
    using exec_push64 [OF stack(1)] stack(2) by (simp add: m_def)
  have "accessible E (PKRU c) (slot E 0) (slot E 0 + 8)"
    using shared by (auto simp: accessible_def owns_def pkru_may_iff)
  then have ld: "load E u (uint (fs_base E + tpoff E 0)) 8 = Some (unat T)" if "mem u = m" "pkru u = PKRU c" for u
    using load_accessible [of E u "slot E 0" "slot E 0 + 8" "slot E 0" 8] that sp0(1) apart
    by (simp add: m_def read_write_outside slot_def)
  define s0 where "s0 = s\<lparr>gpr := (gpr s)(''rbp'' := ?sp - 8, ''r11'' := tpoff E 0, ''rcx'' := 0, ''rdx'' := 0,
    ''rax'' := ucast ?p, ''rsp'' := T - 8), mem := m, pkru := ?p\<rparr>"
  have body: "exec E (butlast (exit_code libc)) s = Some s0"
    by (simp add: exit_code_def psh ld shared(2) set_reg_def s0_def fun_eq_iff)
  have split: "exit_code libc = butlast (exit_code libc) @ [Call ''call_libc_exit'']"
    by (simp add: exit_code_def)
  have u: "uint (T - 8) = uint T - 8" using sp0(2) by (intro uint_minus_8) simp
  have "accessible E ?p (uint T - 16) (uint T - 8)"
    using sp0(3) by (auto simp: accessible_def owns_def pkru_may_iff)
  then have "exec1 E (Call ''call_libc_exit'') s0 = callee E ''call_libc_exit'' (s0\<lparr>gpr := (gpr s0)(''rsp'' := T - 16),
      mem := write_bytes (mem s0) (uint T - 16) 8 (unat (ret_addr E))\<rparr>)"
    using exec_call [of E s0 "''call_libc_exit''"] sp0(2) by (simp add: s0_def u)
  then have "exec E (exit_code libc) s = callee E ''call_libc_exit'' (s0\<lparr>gpr := (gpr s0)(''rsp'' := T - 16),
      mem := write_bytes (mem s0) (uint T - 16) 8 (unat (ret_addr E))\<rparr>)"
    by (subst split) (simp only: exec_append body Option.bind.simps exec_single)
  then show ?thesis
    by (intro exI [of _ "s0\<lparr>gpr := (gpr s0)(''rsp'' := T - 16),
      mem := write_bytes (mem s0) (uint T - 16) 8 (unat (ret_addr E))\<rparr>"]) (simp add: s0_def)
qed

section \<open>Running \<open>main\<close>\<close>

text \<open>
  From the end of start-up on: \<open>main\<close> runs with the PKRU value and on the stack of
  compartment 1; when it returns, its value is handed to libc on the stack libc
  had, with compartment 0 or, in builds with a libc compartment, compartment 1.
\<close>
lemma main_runs_in_compartment_1:
  assumes var: "owns E 1 (uint main_sp) (uint main_sp + 8)"
    and tls: "owns E 1 (slot E 1) (slot E 1 + 8)" "read_bytes (mem s) (slot E 1) 8 = unat (T :: u64)"
    and stack: "16 \<le> uint T" "owns E 1 (uint T - 16) (uint T)"
    and apart: "uint main_sp + 8 \<le> slot E 1 \<or> slot E 1 + 8 \<le> uint main_sp"
      "uint main_sp + 8 \<le> uint T - 16 \<or> uint T \<le> uint main_sp"
    and libc_stack: "owns E 0 (uint (gpr s ''rsp'')) (uint (gpr s ''rsp'') + 16)" "uint (gpr s ''rsp'') + 16 < 2 ^ 64"
    and f: "\<And>s1. pkru s1 = PKRU 1 \<Longrightarrow> \<exists>s2. callee E ''__real_main'' s1 = Some s2 \<and> pkru s2 = PKRU 1 \<and>
      (\<forall>a. uint main_sp \<le> a \<and> a < uint main_sp + 8 \<longrightarrow> mem s2 a = mem s1 a)"
  shows "\<exists>s1 s2 t. pkru s1 = PKRU 1 \<and> gpr s1 ''rsp'' = T - 16 \<and> (\<forall>r \<in> {''rdi'', ''rsi''}. gpr s1 r = gpr s r) \<and>
    callee E ''__real_main'' s1 = Some s2 \<and>
    exec E (main_enter main_sp @ [Call ''__real_main''] @ main_leave main_sp libc) s = Some t \<and>
    pkru t = PKRU (if libc then 1 else 0) \<and> gpr t ''rsp'' = gpr s ''rsp'' + 16 \<and> gpr t ''rax'' = gpr s2 ''rax''"
proof -
  let ?sp = "gpr s ''rsp''"
  define m where "m = write_bytes (mem s) (uint main_sp) 8 (unat ?sp)"
  have acc1: "accessible E (PKRU 1) lo hi" if "owns E 1 lo hi" for lo hi using owns_PKRU [OF that] by simp
  have st: "store E (uint main_sp) 8 (unat ?sp) u = Some (u\<lparr>mem := m\<rparr>)"
    if "pkru u = PKRU 1" "mem u = mem s" for u
    using store_accessible [of E u "uint main_sp" "uint main_sp + 8" "uint main_sp" 8] acc1 [OF var] that by (simp add: m_def)
  have ld: "load E u (uint (fs_base E + tpoff E 1)) 8 = Some (unat T)" if "pkru u = PKRU 1" "mem u = m" for u
    using load_accessible [of E u "slot E 1" "slot E 1 + 8" "slot E 1" 8] acc1 [OF tls(1)] that tls(2) apart(1)
    by (auto simp: m_def read_write_outside slot_def)
  define s0 where "s0 = s\<lparr>gpr := (gpr s)(''rcx'' := 0, ''rdx'' := 0, ''rax'' := ucast (PKRU 1), ''r11'' := tpoff E 1,
    ''rsp'' := T - 8), pkru := PKRU 1, mem := m\<rparr>"
  have ent: "exec E (main_enter main_sp) s = Some s0"
    by (simp add: main_enter_def set_reg_def st ld s0_def fun_eq_iff del: One_nat_def)
  have u: "uint (T - 8) = uint T - 8" using stack(1) by (intro uint_minus_8) simp
  define s1 where "s1 = s0\<lparr>gpr := (gpr s0)(''rsp'' := T - 16), mem := write_bytes m (uint T - 16) 8 (unat (ret_addr E))\<rparr>"
  have call: "exec1 E (Call ''__real_main'') s0 = callee E ''__real_main'' s1"
    using exec_call [of E s0 "''__real_main''"] acc1 [OF owns_sub [OF stack(2)]] stack(1) by (simp add: s0_def s1_def u)
  have p1: "pkru s1 = PKRU 1" by (simp add: s1_def s0_def)
  from f [OF this] obtain s2 where s2: "callee E ''__real_main'' s1 = Some s2" "pkru s2 = PKRU 1"
    and m2: "\<forall>a. uint main_sp \<le> a \<and> a < uint main_sp + 8 \<longrightarrow> mem s2 a = mem s1 a" by (elim exE conjE)
  have "read_bytes (mem s1) (uint main_sp) 8 = unat ?sp"
    using apart(2) by (auto simp: s1_def m_def read_write_outside)
  then have "read_bytes (mem s2) (uint main_sp) 8 = unat ?sp"
    using m2 by (subst read_bytes_cong [of _ 8 "mem s2" "mem s1"]) simp_all
  then have old_sp: "load E s2 (uint main_sp) 8 = Some (unat ?sp)"
    using load_accessible [of E s2 "uint main_sp" "uint main_sp + 8" "uint main_sp" 8] acc1 [OF var] s2(2) by simp
  let ?p = "PKRU (if libc then 1 else 0)"
  define v where "v = s2\<lparr>gpr := (if libc then (gpr s2)(''r10'' := gpr s2 ''rax'', ''rsp'' := ?sp)
     else (gpr s2)(''r10'' := gpr s2 ''rax'', ''rcx'' := 0, ''rdx'' := 0, ''rsp'' := ?sp)), pkru := ?p\<rparr>"
  have v: "gpr v ''rsp'' = ?sp" "pkru v = ?p" "gpr v ''rax'' = gpr s2 ''rax''" by (simp_all add: v_def)
  have lv: "exec E (take (if libc then 3 else 7) (main_leave main_sp libc)) s2 = Some v"
    using s2(2) by (cases libc) (simp_all add: main_leave_def set_reg_def old_sp v_def fun_eq_iff del: One_nat_def)
  have acc0: "accessible E ?p (uint ?sp) (uint ?sp + 16)"
    using libc_stack(1) by (auto simp: accessible_def owns_def pkru_may_iff)
  define w where "w = (word_of_nat (read_bytes (mem v) (uint ?sp) 8) :: u64)"
  define v1 where "v1 = v\<lparr>gpr := (gpr v)(''rsp'' := ?sp + 8, ''rbp'' := w)\<rparr>"
  have u8: "uint (?sp + 8) = uint ?sp + 8" using libc_stack(2) by (intro uint_plus_8) simp
  have v1: "gpr v1 ''rsp'' = ?sp + 8" "pkru v1 = ?p" and sp16: "?sp + 8 + 8 = ?sp + 16" by (simp_all add: v1_def v)
  have "exec E [Popq ''rbp''] v = Some v1"
    using exec_pop64 [of E v "uint ?sp" "uint ?sp + 16"] acc0 v by (simp add: v1_def w_def set_reg_def)
  moreover have "exec E [Ret] v1 = Some (v1\<lparr>gpr := (gpr v1)(''rsp'' := ?sp + 16)\<rparr>)"
    using exec_pop64 [of E v1 "uint ?sp" "uint ?sp + 16"] acc0 by (simp add: v1 u8 sp16)
  moreover have "main_leave main_sp libc = take (if libc then 3 else 7) (main_leave main_sp libc) @ [Popq ''rbp''] @ [Ret]"
    by (simp add: main_leave_def)
  ultimately have "exec E (main_leave main_sp libc) s2 = Some (v1\<lparr>gpr := (gpr v1)(''rsp'' := ?sp + 16)\<rparr>)"
    using lv by (metis exec_append Option.bind.simps(2))
  then have "exec E (main_enter main_sp @ [Call ''__real_main''] @ main_leave main_sp libc) s =
      Some (v1\<lparr>gpr := (gpr v1)(''rsp'' := ?sp + 16)\<rparr>)"
    by (simp only: exec_append ent exec_single call s2(1) Option.bind.simps)
  moreover have "gpr s1 r = gpr s r" if "r \<in> {''rdi'', ''rsi''}" for r using that by (auto simp: s1_def s0_def)
  ultimately show ?thesis using p1 s2(1) v
    by (intro exI [of _ s1] exI [of _ s2] exI [of _ "v1\<lparr>gpr := (gpr v1)(''rsp'' := ?sp + 16)\<rparr>"])
      (simp add: s1_def v1_def)
qed

section \<open>Starting a thread\<close>

lemma align16: "uint ((w :: u64) AND 0xfffffffffffffff0) = uint w div 16 * 16"
proof -
  have c: "(0xfffffffffffffff0 :: u64) = NOT (mask 4)" by (simp add: mask_eq_exp_minus_1)
  have "w AND 0xfffffffffffffff0 = push_bit 4 (drop_bit 4 w)"
    unfolding c by (rule bit_word_eqI) (auto simp: bit_simps)
  also have "\<dots> = w div 16 * 16" by (simp add: push_bit_eq_mult drop_bit_eq_div)
  finally have "w AND 0xfffffffffffffff0 = w div 16 * 16" .
  moreover have "uint (w div 16) * 16 < 2 ^ 64"
    using uint_bounded [of w] by (simp add: uint_div)
  moreover have "0 \<le> uint w div 16" by (simp add: pos_imp_zdiv_nonneg_iff)
  ultimately show ?thesis by (simp add: uint_word_ariths uint_div mod_pos_pos_trivial)
qed

text \<open>
  The function of the thread runs on the stack of its compartment, aligned and
  with its argument, and afterwards the two pointers of the thread's first stack
  are back, provided the function keeps the frame pointer and the two words saved
  above its frame.
\<close>
lemma thread_switch_returns:
  assumes regs: "fn \<notin> {''rdi'', ''rsp'', ''rbp''}" "data \<notin> {''rdi'', ''rsp'', ''rbp''}" "addr_reg \<notin> {''rdi'', ''rsp'', ''rbp''}"
    and slot: "accessible E (pkru s) (uint (gpr s addr_reg)) (uint (gpr s addr_reg) + 8)"
      "read_bytes (mem s) (uint (gpr s addr_reg)) 8 = unat (T :: u64)"
    and stack: "accessible E (pkru s) (uint T - 40) (uint T)" "40 \<le> uint T"
    and f: "\<And>s1. \<exists>s2. callee_reg E (gpr s fn) s1 = Some s2 \<and> pkru s2 = pkru s1 \<and> gpr s2 ''rbp'' = gpr s1 ''rbp'' \<and>
      (\<forall>a. uint T - 16 \<le> a \<and> a < uint T \<longrightarrow> mem s2 a = mem s1 a)"
  shows "\<exists>s1 s2 t. gpr s1 ''rdi'' = gpr s data \<and> (uint (gpr s1 ''rsp'') + 8) mod 16 = 0 \<and> pkru s1 = pkru s \<and>
    callee_reg E (gpr s fn) s1 = Some s2 \<and> exec E (thread_switch fn data addr_reg) s = Some t \<and>
    gpr t ''rsp'' = gpr s ''rsp'' \<and> gpr t ''rbp'' = gpr s ''rbp'' \<and> gpr t ''rax'' = gpr s2 ''rax'' \<and> pkru t = pkru s"
proof -
  let ?sp = "gpr s ''rsp''" and ?bp = "gpr s ''rbp''" and ?al = "(T - 16) AND 0xfffffffffffffff0"
  have u: "uint (T - 8) = uint T - 8" "uint (T - 16) = uint T - 16"
    using stack(2) by (simp_all add: uint_minus_8 uint_minus_16)
  have al: "uint ?al = (uint T - 16) div 16 * 16" by (simp add: align16 u)
  then have alb: "uint T - 32 < uint ?al" "uint ?al \<le> uint T - 16" "uint ?al mod 16 = 0" by simp_all
  have u8: "uint (?al - 8) = uint ?al - 8" using alb(1) stack(2) by (intro uint_minus_8) simp
  have ld: "load E u (uint (gpr s addr_reg)) 8 = Some (unat T)" if "pkru u = pkru s" "mem u = mem s" for u
    using load_accessible [of E u "uint (gpr s addr_reg)" "uint (gpr s addr_reg) + 8" "uint (gpr s addr_reg)" 8] slot that
    by simp
  define m1 where "m1 = write_bytes (mem s) (uint T - 8) 8 (unat ?sp)"
  define m2 where "m2 = write_bytes m1 (uint T - 16) 8 (unat ?bp)"
  define a1 where "a1 = s\<lparr>gpr := (gpr s)(''rdi'' := ?sp, ''rsp'' := T)\<rparr>"
  have a1: "exec E [Movq ''rsp'' ''rdi'', Load 8 0 addr_reg ''rsp''] s = Some a1"
    using regs(3) by (simp add: addr_def set_reg_def a1_def ld)
  have sp1: "gpr a1 ''rsp'' = T" "pkru a1 = pkru s" "mem a1 = mem s" by (simp_all add: a1_def)
  define a2 where "a2 = a1\<lparr>gpr := (gpr a1)(''rsp'' := T - 8), mem := m1\<rparr>"
  have p1: "exec E [Pushq ''rdi''] a1 = Some a2"
    using exec_push64 [of E a1 "uint T - 40" "uint T" ?sp] stack by (simp add: sp1 a2_def m1_def) (simp add: a1_def)
  define a3 where "a3 = a2\<lparr>gpr := (gpr a2)(''rsp'' := T - 16), mem := m2\<rparr>"
  have "gpr a2 ''rbp'' = ?bp" "gpr a2 ''rsp'' = T - 8" "pkru a2 = pkru s" "mem a2 = m1" by (simp_all add: a2_def a1_def)
  then have p2: "exec E [Pushq ''rbp''] a2 = Some a3"
    using exec_push64 [of E a2 "uint T - 40" "uint T" ?bp] stack by (simp add: u a3_def m2_def)
  define a4 where "a4 = a3\<lparr>gpr := (gpr a3)(''rdi'' := gpr s data, ''rbp'' := T - 16, ''rsp'' := ?al)\<rparr>"
  have p3: "exec E [Movq data ''rdi'', Movq ''rsp'' ''rbp'', Andq 0xfffffffffffffff0 ''rsp''] a3 = Some a4"
    using regs(2) by (simp add: set_reg_def a4_def) (simp add: a3_def a2_def a1_def fun_eq_iff)
  define s1 where "s1 = a4\<lparr>gpr := (gpr a4)(''rsp'' := ?al - 8), mem := write_bytes m2 (uint ?al - 8) 8 (unat (ret_addr E))\<rparr>"
  have a4: "gpr a4 ''rsp'' = ?al" "pkru a4 = pkru s" "mem a4 = m2" "gpr a4 fn = gpr s fn"
    using regs(1) by (simp_all add: a4_def a3_def a2_def a1_def)
  have p4: "exec E [Call_reg fn] a4 = callee_reg E (gpr s fn) s1"
    using exec_push64 [of E a4 "uint T - 40" "uint T" "ret_addr E"] stack alb unfolding exec_single
    by (simp add: a4 s1_def)
  obtain s2 where s2: "callee_reg E (gpr s fn) s1 = Some s2" "pkru s2 = pkru s1" "gpr s2 ''rbp'' = gpr s1 ''rbp''"
    and ms: "\<forall>a. uint T - 16 \<le> a \<and> a < uint T \<longrightarrow> mem s2 a = mem s1 a"
    using f [of s1] by (elim exE conjE)
  have s1: "gpr s1 ''rbp'' = T - 16" "pkru s1 = pkru s" "gpr s1 ''rdi'' = gpr s data" "gpr s1 ''rsp'' = ?al - 8"
    by (simp_all add: s1_def a4_def a3_def a2_def a1_def)
  have m: "mem s2 a = m2 a" if "uint T - 16 \<le> a" "a < uint T" for a
    using ms that alb by (simp add: s1_def write_bytes_outside)
  have r: "read_bytes (mem s2) (uint T - 16) 8 = unat ?bp" "read_bytes (mem s2) (uint T - 8) 8 = unat ?sp"
    using m by (subst read_bytes_cong [of _ 8 "mem s2" m2]; simp add: m2_def m1_def read_write_outside)+
  define t where "t = s2\<lparr>gpr := (gpr s2)(''rbp'' := ?bp, ''rsp'' := ?sp)\<rparr>"
  have p5: "exec E [Movq ''rbp'' ''rsp'', Popq ''rbp'', Popq ''rsp''] s2 = Some t"
  proof -
    define b where "b = s2\<lparr>gpr := (gpr s2)(''rsp'' := T - 16)\<rparr>"
    define b' where "b' = b\<lparr>gpr := (gpr b)(''rsp'' := T - 8, ''rbp'' := ?bp)\<rparr>"
    have acc: "accessible E (pkru s) (uint T - 16) (uint T)" using accessible_sub [OF stack(1)] by simp
    have "pop64 E b = Some (?bp, b\<lparr>gpr := (gpr b)(''rsp'' := T - 8)\<rparr>)"
      using exec_pop64 [of E b "uint T - 16" "uint T"] acc by (simp add: b_def u r s2 s1)
    then have q1: "exec1 E (Popq ''rbp'') b = Some b'" by (simp add: b'_def set_reg_def)
    have "pop64 E b' = Some (?sp, b'\<lparr>gpr := (gpr b')(''rsp'' := T)\<rparr>)"
      using exec_pop64 [of E b' "uint T - 16" "uint T"] acc by (simp add: b'_def b_def u r s2 s1)
    then have q2: "exec1 E (Popq ''rsp'') b' = Some t" by (simp add: b'_def b_def t_def set_reg_def fun_eq_iff)
    have "exec1 E (Movq ''rbp'' ''rsp'') s2 = Some b" by (simp add: b_def set_reg_def s2 s1)
    then show ?thesis using q1 q2 by simp
  qed
  have split: "thread_switch fn data addr_reg = [Movq ''rsp'' ''rdi'', Load 8 0 addr_reg ''rsp''] @ [Pushq ''rdi''] @
      [Pushq ''rbp''] @ [Movq data ''rdi'', Movq ''rsp'' ''rbp'', Andq 0xfffffffffffffff0 ''rsp''] @ [Call_reg fn] @
      [Movq ''rbp'' ''rsp'', Popq ''rbp'', Popq ''rsp'']"
    by (simp add: thread_switch_def)
  have "exec E (thread_switch fn data addr_reg) s = Some t"
    by (simp only: split exec_append a1 p1 p2 p3 p4 s2(1) p5 Option.bind.simps)
  moreover have "(uint (gpr s1 ''rsp'') + 8) mod 16 = 0" using alb(3) by (simp add: s1 u8)
  ultimately show ?thesis using s1 s2
    by (intro exI [of _ s1] exI [of _ s2] exI [of _ t]) (simp add: t_def)
qed

end
