(* ===== verification/Seccomp.thy ===== *)
theory Seccomp
  imports IA2_Prelude
begin

text \<open>
  The system call filters of the tracee (\<open>seccomp_filter.c\<close>, \<open>seccomp_filter.h\<close>):
  the classic BPF instructions the filters are written in with their
  interpreter, the three filter programs, and \<open>configure_seccomp\<close>.  The
  numbers \<open>__NR_*\<close> and the set of names the kernel headers define are
  arguments; so are the result of \<open>seccomp(2)\<close> and the rule by which the kernel
  combines the answers of several filters.
\<close>

unbundle bit_operations_syntax

section \<open>Classic BPF over \<open>struct seccomp_data\<close>\<close>

record seccomp_data =
  nr :: u32
  arch :: u32
  instruction_pointer :: u64
  args :: "nat \<Rightarrow> u64"

datatype sock_filter =
    LD_W_ABS nat
  | JEQ_K u32 nat nat
  | RET_K u32

definition off_nr :: nat where "off_nr = 0"

definition off_arg :: "nat \<Rightarrow> nat" where "off_arg i = 16 + 8 * i"

text \<open>The little-endian 32-bit word at an offset of the data.\<close>
definition data_word :: "seccomp_data \<Rightarrow> nat \<Rightarrow> u32" where
  "data_word d off =
    (if off = 0 then nr d
     else if off = 4 then arch d
     else if off = 8 then ucast (instruction_pointer d)
     else if off = 12 then ucast (drop_bit 32 (instruction_pointer d))
     else if off mod 8 = 0 then ucast (args d ((off - 16) div 8))
     else ucast (drop_bit 32 (args d ((off - 20) div 8))))"

text \<open>
  Jumps only go forward, so a program ends; running past its end has no result
  (the kernel refuses to load such a program).
\<close>
fun bpf_run :: "seccomp_data \<Rightarrow> u32 \<Rightarrow> sock_filter list \<Rightarrow> u32 option" where
  "bpf_run d a [] = None"
| "bpf_run d a (LD_W_ABS off # p) = bpf_run d (data_word d off) p"
| "bpf_run d a (JEQ_K k jt jf # p) = bpf_run d a (drop (if a = k then jt else jf) p)"
| "bpf_run d a (RET_K v # p) = Some v"

definition SECCOMP_RET_KILL_PROCESS :: u32 where "SECCOMP_RET_KILL_PROCESS = 0x80000000"

definition SECCOMP_RET_TRACE :: u32 where "SECCOMP_RET_TRACE = 0x7ff00000"

definition SECCOMP_RET_ALLOW :: u32 where "SECCOMP_RET_ALLOW = 0x7fff0000"

definition TCGETS :: u32 where "TCGETS = 0x5401"

definition O_RDONLY :: u32 where "O_RDONLY = 0"

lemmas seccomp_ret_defs = SECCOMP_RET_KILL_PROCESS_def SECCOMP_RET_TRACE_def SECCOMP_RET_ALLOW_def

section \<open>The filters\<close>

definition BPF_SYSCALL_POLICY :: "(string \<Rightarrow> u32) \<Rightarrow> string \<Rightarrow> u32 \<Rightarrow> sock_filter list" where
  "BPF_SYSCALL_POLICY NR name policy = [JEQ_K (NR name) 0 1, RET_K policy]"

definition forbid_seccomp_filter :: "(string \<Rightarrow> u32) \<Rightarrow> sock_filter list" where
  "forbid_seccomp_filter NR =
    [LD_W_ABS off_nr,
     JEQ_K (NR ''seccomp'') 0 1,
     RET_K SECCOMP_RET_KILL_PROCESS,
     RET_K SECCOMP_RET_ALLOW]"

text \<open>One line of the table, with or without an \<open>#ifdef __NR_name\<close> around it.\<close>
datatype policy_line = Always (line_name: string) (line_policy: u32) | IfDef (line_name: string) (line_policy: u32)

fun line_compiled :: "string set \<Rightarrow> policy_line \<Rightarrow> bool" where
  "line_compiled D (Always n p) = True"
| "line_compiled D (IfDef n p) = (n \<in> D)"

definition ia2_policy_lines :: "policy_line list" where
  "ia2_policy_lines =
  [Always ''seccomp'' SECCOMP_RET_ALLOW,
   Always ''mmap'' SECCOMP_RET_TRACE,
   Always ''mprotect'' SECCOMP_RET_TRACE,
   Always ''mremap'' SECCOMP_RET_TRACE,
   Always ''munmap'' SECCOMP_RET_TRACE,
   Always ''madvise'' SECCOMP_RET_TRACE,
   Always ''pkey_alloc'' SECCOMP_RET_ALLOW,
   Always ''pkey_mprotect'' SECCOMP_RET_TRACE,
   IfDef ''access'' SECCOMP_RET_ALLOW,
   IfDef ''open'' SECCOMP_RET_ALLOW,
   IfDef ''arch_prctl'' SECCOMP_RET_ALLOW,
   Always ''brk'' SECCOMP_RET_ALLOW,
   Always ''clone3'' SECCOMP_RET_ALLOW,
   Always ''close'' SECCOMP_RET_ALLOW,
   Always ''dup'' SECCOMP_RET_ALLOW,
   IfDef ''dup2'' SECCOMP_RET_ALLOW,
   Always ''pause'' SECCOMP_RET_ALLOW,
   Always ''execve'' SECCOMP_RET_ALLOW,
   Always ''exit_group'' SECCOMP_RET_ALLOW,
   Always ''fcntl'' SECCOMP_RET_ALLOW,
   Always ''fstat'' SECCOMP_RET_ALLOW,
   Always ''futex'' SECCOMP_RET_ALLOW,
   Always ''sysinfo'' SECCOMP_RET_ALLOW,
   Always ''getcwd'' SECCOMP_RET_ALLOW,
   Always ''lseek'' SECCOMP_RET_ALLOW,
   Always ''syslog'' SECCOMP_RET_ALLOW,
   IfDef ''getdents'' SECCOMP_RET_ALLOW,
   Always ''getdents64'' SECCOMP_RET_ALLOW,
   Always ''getegid'' SECCOMP_RET_ALLOW,
   Always ''geteuid'' SECCOMP_RET_ALLOW,
   Always ''getgid'' SECCOMP_RET_ALLOW,
   Always ''getuid'' SECCOMP_RET_ALLOW,
   Always ''getppid'' SECCOMP_RET_ALLOW,
   Always ''setpgid'' SECCOMP_RET_ALLOW,
   Always ''gettid'' SECCOMP_RET_ALLOW,
   Always ''getpid'' SECCOMP_RET_ALLOW,
   Always ''getrandom'' SECCOMP_RET_ALLOW,
   Always ''prctl'' SECCOMP_RET_ALLOW,
   Always ''faccessat2'' SECCOMP_RET_ALLOW,
   Always ''sched_getaffinity'' SECCOMP_RET_ALLOW,
   Always ''sched_setaffinity'' SECCOMP_RET_ALLOW,
   IfDef ''alarm'' SECCOMP_RET_ALLOW,
   Always ''statx'' SECCOMP_RET_ALLOW,
   Always ''newfstatat'' SECCOMP_RET_ALLOW,
   Always ''openat'' SECCOMP_RET_ALLOW,
   Always ''pread64'' SECCOMP_RET_ALLOW,
   Always ''prlimit64'' SECCOMP_RET_ALLOW,
   Always ''pwrite64'' SECCOMP_RET_ALLOW,
   Always ''read'' SECCOMP_RET_ALLOW,
   Always ''readv'' SECCOMP_RET_ALLOW,
   IfDef ''readlink'' SECCOMP_RET_ALLOW,
   Always ''readlinkat'' SECCOMP_RET_ALLOW,
   Always ''eventfd2'' SECCOMP_RET_ALLOW,
   Always ''epoll_create1'' SECCOMP_RET_ALLOW,
   Always ''epoll_ctl'' SECCOMP_RET_ALLOW,
   Always ''socket'' SECCOMP_RET_ALLOW,
   Always ''connect'' SECCOMP_RET_ALLOW,
   Always ''setsockopt'' SECCOMP_RET_ALLOW,
   Always ''bind'' SECCOMP_RET_ALLOW,
   Always ''listen'' SECCOMP_RET_ALLOW,
   Always ''accept4'' SECCOMP_RET_ALLOW,
   Always ''sendmsg'' SECCOMP_RET_ALLOW,
   Always ''recvmsg'' SECCOMP_RET_ALLOW,
   IfDef ''unlink'' SECCOMP_RET_ALLOW,
   Always ''ftruncate'' SECCOMP_RET_ALLOW,
   Always ''mincore'' SECCOMP_RET_ALLOW,
   Always ''clone'' SECCOMP_RET_ALLOW,
   Always ''wait4'' SECCOMP_RET_ALLOW,
   Always ''tgkill'' SECCOMP_RET_ALLOW,
   Always ''rseq'' SECCOMP_RET_ALLOW,
   Always ''rt_sigaction'' SECCOMP_RET_ALLOW,
   Always ''rt_sigprocmask'' SECCOMP_RET_ALLOW,
   Always ''set_robust_list'' SECCOMP_RET_ALLOW,
   Always ''set_tid_address'' SECCOMP_RET_ALLOW,
   Always ''write'' SECCOMP_RET_ALLOW,
   Always ''writev'' SECCOMP_RET_ALLOW,
   Always ''exit'' SECCOMP_RET_ALLOW,
   Always ''clock_nanosleep'' SECCOMP_RET_ALLOW,
   Always ''sigaltstack'' SECCOMP_RET_ALLOW,
   IfDef ''epoll_wait'' SECCOMP_RET_ALLOW,
   Always ''setsid'' SECCOMP_RET_ALLOW,
   Always ''pipe2'' SECCOMP_RET_ALLOW,
   IfDef ''poll'' SECCOMP_RET_ALLOW,
   Always ''waitid'' SECCOMP_RET_ALLOW,
   Always ''restart_syscall'' SECCOMP_RET_ALLOW,
   Always ''kill'' SECCOMP_RET_ALLOW]"

definition ia2_filter :: "(string \<Rightarrow> u32) \<Rightarrow> string set \<Rightarrow> sock_filter list" where
  "ia2_filter NR D =
    LD_W_ABS off_nr
    # concat (map (\<lambda>l. BPF_SYSCALL_POLICY NR (line_name l) (line_policy l))
        (filter (line_compiled D) ia2_policy_lines))
    @ [JEQ_K (NR ''ioctl'') 0 3,
       LD_W_ABS (off_arg 1),
       JEQ_K TCGETS 0 1,
       RET_K SECCOMP_RET_ALLOW,
       RET_K SECCOMP_RET_KILL_PROCESS]"

definition example_filter :: "(string \<Rightarrow> u32) \<Rightarrow> sock_filter list" where
  "example_filter NR =
    LD_W_ABS off_nr
    # BPF_SYSCALL_POLICY NR ''write'' SECCOMP_RET_ALLOW
    @ BPF_SYSCALL_POLICY NR ''seccomp'' SECCOMP_RET_ALLOW
    @ [JEQ_K (NR ''openat'') 0 3,
       LD_W_ABS (off_arg 1),
       JEQ_K O_RDONLY 0 1,
       RET_K SECCOMP_RET_ALLOW,
       RET_K SECCOMP_RET_KILL_PROCESS]"

section \<open>Installing the filters\<close>

datatype seccomp_flag = FILTER_FLAG_NEW_LISTENER | FILTER_FLAG_TSYNC

text \<open>
  The calling process with the filters installed so far, newest first.  A call
  the installed filters answer with \<open>KILL_PROCESS\<close> ends the process.  The
  argument \<open>d\<close> holds what the call shows the filters besides its number.
\<close>
datatype seccomp_outcome = Killed | Returned int "sock_filter list list"

type_synonym verdict_rule = "u32 list \<Rightarrow> u32"

text \<open>What the installed filters answer to a system call; without filters it runs.\<close>
definition seccomp_verdict :: "verdict_rule \<Rightarrow> sock_filter list list \<Rightarrow> seccomp_data \<Rightarrow> u32" where
  "seccomp_verdict combine fs d =
    (if fs = [] then SECCOMP_RET_ALLOW
     else combine (map (\<lambda>p. case bpf_run d 0 p of Some v \<Rightarrow> v | None \<Rightarrow> SECCOMP_RET_KILL_PROCESS) fs))"

definition seccomp ::
  "verdict_rule \<Rightarrow> (string \<Rightarrow> u32) \<Rightarrow> (seccomp_flag \<Rightarrow> sock_filter list \<Rightarrow> int) \<Rightarrow> seccomp_data \<Rightarrow>
   seccomp_flag \<Rightarrow> sock_filter list \<Rightarrow> sock_filter list list \<Rightarrow> seccomp_outcome"
where
  "seccomp combine NR sys d flags prog fs =
    (if seccomp_verdict combine fs (d\<lparr>nr := NR ''seccomp''\<rparr>) = SECCOMP_RET_KILL_PROCESS then Killed
     else let r = sys flags prog in Returned r (if r < 0 then fs else prog # fs))"

definition configure_seccomp ::
  "verdict_rule \<Rightarrow> (string \<Rightarrow> u32) \<Rightarrow> (seccomp_flag \<Rightarrow> sock_filter list \<Rightarrow> int) \<Rightarrow> seccomp_data \<Rightarrow>
   sock_filter list \<Rightarrow> sock_filter list list \<Rightarrow> seccomp_outcome"
where
  "configure_seccomp combine NR sys d prog fs =
    (case seccomp combine NR sys d FILTER_FLAG_NEW_LISTENER prog fs of
      Killed \<Rightarrow> Killed
    | Returned sc_unotify_fd fs1 \<Rightarrow>
        if sc_unotify_fd < 0 then Returned (-1) fs1
        else
          (case seccomp combine NR sys d FILTER_FLAG_TSYNC (forbid_seccomp_filter NR) fs1 of
            Killed \<Rightarrow> Killed
          | Returned sync_ret fs2 \<Rightarrow>
              if sync_ret < 0 then Returned (-1) fs2 else Returned sc_unotify_fd fs2))"

text \<open>
  The numbers of the x86-64 system call table, where every name of the filter is defined.
\<close>
definition x86_64_table :: "(string \<times> u32) list" where
  "x86_64_table =
  [(''seccomp'', 317), (''mmap'', 9), (''mprotect'', 10), (''mremap'', 25),
   (''munmap'', 11), (''madvise'', 28), (''pkey_alloc'', 330), (''pkey_mprotect'', 329),
   (''access'', 21), (''open'', 2), (''arch_prctl'', 158), (''brk'', 12),
   (''clone3'', 435), (''close'', 3), (''dup'', 32), (''dup2'', 33),
   (''pause'', 34), (''execve'', 59), (''exit_group'', 231), (''fcntl'', 72),
   (''fstat'', 5), (''futex'', 202), (''sysinfo'', 99), (''getcwd'', 79),
   (''lseek'', 8), (''syslog'', 103), (''getdents'', 78), (''getdents64'', 217),
   (''getegid'', 108), (''geteuid'', 107), (''getgid'', 104), (''getuid'', 102),
   (''getppid'', 110), (''setpgid'', 109), (''gettid'', 186), (''getpid'', 39),
   (''getrandom'', 318), (''prctl'', 157), (''faccessat2'', 439), (''sched_getaffinity'', 204),
   (''sched_setaffinity'', 203), (''alarm'', 37), (''statx'', 332), (''newfstatat'', 262),
   (''openat'', 257), (''pread64'', 17), (''prlimit64'', 302), (''pwrite64'', 18),
   (''read'', 0), (''readv'', 19), (''readlink'', 89), (''readlinkat'', 267),
   (''eventfd2'', 290), (''epoll_create1'', 291), (''epoll_ctl'', 233), (''socket'', 41),
   (''connect'', 42), (''setsockopt'', 54), (''bind'', 49), (''listen'', 50),
   (''accept4'', 288), (''sendmsg'', 46), (''recvmsg'', 47), (''unlink'', 87),
   (''ftruncate'', 77), (''mincore'', 27), (''clone'', 56), (''wait4'', 61),
   (''tgkill'', 234), (''rseq'', 334), (''rt_sigaction'', 13), (''rt_sigprocmask'', 14),
   (''set_robust_list'', 273), (''set_tid_address'', 218), (''write'', 1), (''writev'', 20),
   (''exit'', 60), (''clock_nanosleep'', 230), (''sigaltstack'', 131), (''epoll_wait'', 232),
   (''setsid'', 112), (''pipe2'', 293), (''poll'', 7), (''waitid'', 247),
   (''restart_syscall'', 219), (''kill'', 62), (''ioctl'', 16)]"

definition x86_64_NR :: "string \<Rightarrow> u32" where
  "x86_64_NR s = (case map_of x86_64_table s of Some n \<Rightarrow> n | None \<Rightarrow> - 1)"

section \<open>Running a table of policies\<close>

lemma bpf_run_policy [simp]:
  "bpf_run d a (BPF_SYSCALL_POLICY NR n v @ p) = (if a = NR n then Some v else bpf_run d a p)"
  by (simp add: BPF_SYSCALL_POLICY_def)

definition table_action :: "(string \<Rightarrow> u32) \<Rightarrow> policy_line list \<Rightarrow> u32 \<Rightarrow> u32 option" where
  "table_action NR ls a = map_option line_policy (List.find (\<lambda>l. NR (line_name l) = a) ls)"

lemma table_action_simps [simp]:
  "table_action NR [] a = None"
  "table_action NR (l # ls) a = (if NR (line_name l) = a then Some (line_policy l) else table_action NR ls a)"
  by (simp_all add: table_action_def)

lemma bpf_run_table:
  "bpf_run d a (concat (map (\<lambda>l. BPF_SYSCALL_POLICY NR (line_name l) (line_policy l)) ls) @ p) =
    (case table_action NR ls a of Some v \<Rightarrow> Some v | None \<Rightarrow> bpf_run d a p)"
  by (induction ls) auto

lemma table_action_None: "table_action NR ls a = None \<longleftrightarrow> a \<notin> (NR \<circ> line_name) ` set ls"
  by (induction ls) auto

lemma table_action_inj:
  assumes "inj_on NR (line_name ` set ls)" "distinct (map line_name ls)" "l \<in> set ls"
  shows "table_action NR ls (NR (line_name l)) = Some (line_policy l)"
  using assms
proof (induction ls)
  case (Cons k ls)
  show ?case
  proof (cases "l = k")
    case False
    then have l: "l \<in> set ls" using Cons.prems by simp
    then have "line_name k \<noteq> line_name l" using Cons.prems(2) by (auto simp: image_iff)
    then have "NR (line_name k) \<noteq> NR (line_name l)"
      using Cons.prems(1,3) by (auto dest!: inj_onD)
    then show ?thesis using Cons l by (simp add: inj_on_def)
  qed simp
qed simp

section \<open>The policy the filter decides\<close>

definition traced_calls :: "string list" where
  "traced_calls = [''mmap'', ''mprotect'', ''mremap'', ''munmap'', ''madvise'', ''pkey_mprotect'']"

definition compiled_lines :: "string set \<Rightarrow> policy_line list" where
  "compiled_lines D = filter (line_compiled D) ia2_policy_lines"

lemma set_compiled_lines: "set (compiled_lines D) \<subseteq> set ia2_policy_lines"
  by (auto simp: compiled_lines_def)

lemma ia2_lines_distinct: "distinct (map line_name ia2_policy_lines)"
  by (simp add: ia2_policy_lines_def)

lemma compiled_lines_distinct: "distinct (map line_name (compiled_lines D))"
  unfolding compiled_lines_def using ia2_lines_distinct by (rule distinct_map_filter)

lemma data_word_nr [simp]: "data_word d off_nr = nr d"
  by (simp add: data_word_def off_nr_def)

lemma data_word_arg [simp]: "data_word d (off_arg i) = ucast (args d i)"
  by (simp add: data_word_def off_arg_def)

lemma ia2_filter_run:
  "bpf_run d a (ia2_filter NR D) =
    Some (case table_action NR (compiled_lines D) (nr d) of
        Some v \<Rightarrow> v
      | None \<Rightarrow> if nr d = NR ''ioctl'' \<and> ucast (args d 1) = TCGETS
                then SECCOMP_RET_ALLOW else SECCOMP_RET_KILL_PROCESS)"
  by (simp add: ia2_filter_def compiled_lines_def bpf_run_table split: option.split)

lemma forbid_seccomp_run:
  "bpf_run d a (forbid_seccomp_filter NR) =
    Some (if nr d = NR ''seccomp'' then SECCOMP_RET_KILL_PROCESS else SECCOMP_RET_ALLOW)"
  by (simp add: forbid_seccomp_filter_def)

lemma traced_lines:
  "l \<in> set (compiled_lines D) \<Longrightarrow>
    line_policy l = (if line_name l \<in> set traced_calls then SECCOMP_RET_TRACE else SECCOMP_RET_ALLOW)"
proof -
  have "\<forall>l \<in> set ia2_policy_lines.
      line_policy l = (if line_name l \<in> set traced_calls then SECCOMP_RET_TRACE else SECCOMP_RET_ALLOW)"
    by (simp add: ia2_policy_lines_def traced_calls_def)
  then show "l \<in> set (compiled_lines D) \<Longrightarrow> ?thesis" using set_compiled_lines by blast
qed

lemma traced_compiled: "set traced_calls \<subseteq> line_name ` set (compiled_lines D)"
  by (simp add: traced_calls_def compiled_lines_def ia2_policy_lines_def)

lemma ioctl_not_compiled: "''ioctl'' \<notin> line_name ` set (compiled_lines D)"
proof -
  have "''ioctl'' \<notin> line_name ` set ia2_policy_lines" by (simp add: ia2_policy_lines_def)
  then show ?thesis using set_compiled_lines by blast
qed

text \<open>The names the filter tests, each line of the table and \<open>ioctl\<close>.\<close>
definition tested_names :: "string set \<Rightarrow> string set" where
  "tested_names D = insert ''ioctl'' (line_name ` set (compiled_lines D))"

text \<open>
  C13. The filter implements the coarse system call policy.  Let the headers
  give distinct numbers to the names the filter tests.  Then on every system
  call the program ends with a decision that depends on the number alone: each
  memory-management call is handed to the tracer, each other listed call is
  allowed, \<open>ioctl\<close> is allowed exactly with the request \<open>TCGETS\<close>, and every number that
  is not listed kills the process.
\<close>
theorem ia2_filter_decides_policy:
  assumes inj: "inj_on NR (tested_names D)"
  shows "(\<forall>s \<in> set traced_calls. nr d = NR s \<longrightarrow> bpf_run d 0 (ia2_filter NR D) = Some SECCOMP_RET_TRACE) \<and>
    (\<forall>s \<in> line_name ` set (compiled_lines D) - set traced_calls.
      nr d = NR s \<longrightarrow> bpf_run d 0 (ia2_filter NR D) = Some SECCOMP_RET_ALLOW) \<and>
    (nr d = NR ''ioctl'' \<longrightarrow> bpf_run d 0 (ia2_filter NR D) =
      Some (if ucast (args d 1) = TCGETS then SECCOMP_RET_ALLOW else SECCOMP_RET_KILL_PROCESS)) \<and>
    (nr d \<notin> NR ` tested_names D \<longrightarrow> bpf_run d 0 (ia2_filter NR D) = Some SECCOMP_RET_KILL_PROCESS)"
proof -
  have inj': "inj_on NR (line_name ` set (compiled_lines D))"
    using inj by (rule inj_on_subset) (auto simp: tested_names_def)
  have hit: "bpf_run d 0 (ia2_filter NR D) =
      Some (if s \<in> set traced_calls then SECCOMP_RET_TRACE else SECCOMP_RET_ALLOW)"
    if s: "s \<in> line_name ` set (compiled_lines D)" and n: "nr d = NR s" for s
  proof -
    obtain l where l: "l \<in> set (compiled_lines D)" "s = line_name l" using s by auto
    show ?thesis
      using table_action_inj [OF inj' compiled_lines_distinct l(1)] traced_lines [OF l(1)] n l(2)
      by (simp add: ia2_filter_run)
  qed
  have "NR ''ioctl'' \<notin> NR ` line_name ` set (compiled_lines D)"
    using inj ioctl_not_compiled by (auto simp: tested_names_def inj_on_insert)
  then have ioctl: "table_action NR (compiled_lines D) (NR ''ioctl'') = None"
    by (simp add: table_action_None image_comp)
  have other: "table_action NR (compiled_lines D) (nr d) = None" if "nr d \<notin> NR ` tested_names D"
    using that by (auto simp: table_action_None tested_names_def)
  show ?thesis
  proof (intro conjI ballI impI)
    fix s assume "s \<in> set traced_calls" "nr d = NR s"
    then show "bpf_run d 0 (ia2_filter NR D) = Some SECCOMP_RET_TRACE"
      using hit [of s] traced_compiled [of D] by auto
  qed (use hit in auto, simp_all add: ia2_filter_run ioctl other, simp add: tested_names_def)
qed

lemma x86_64_inj: "inj_on x86_64_NR (set (map fst x86_64_table))"
proof -
  have d: "distinct (map fst x86_64_table)" by (simp add: x86_64_table_def)
  have e: "distinct (map snd x86_64_table)" by (simp add: x86_64_table_def)
  have "map x86_64_NR (map fst x86_64_table) = map snd x86_64_table"
    using d by (auto simp: x86_64_NR_def comp_def)
  then show ?thesis using e by (metis distinct_map)
qed

lemma tested_in_table: "tested_names D \<subseteq> set (map fst x86_64_table)"
proof -
  have "insert ''ioctl'' (line_name ` set ia2_policy_lines) \<subseteq> set (map fst x86_64_table)"
    by (simp add: ia2_policy_lines_def x86_64_table_def)
  then show ?thesis using set_compiled_lines [of D] unfolding tested_names_def by blast
qed

theorem ia2_filter_decides_policy_witness:
  "bpf_run \<lparr>nr = 10, arch = 0xC000003E, instruction_pointer = 0, args = (\<lambda>_. 0)\<rparr> 0 (ia2_filter x86_64_NR UNIV)
    = Some SECCOMP_RET_TRACE"
proof -
  have "x86_64_NR ''mprotect'' = 10" by (simp add: x86_64_NR_def x86_64_table_def)
  then show ?thesis
    using ia2_filter_decides_policy [of x86_64_NR UNIV
        "\<lparr>nr = 10, arch = 0xC000003E, instruction_pointer = 0, args = (\<lambda>_. 0)\<rparr>"]
      inj_on_subset [OF x86_64_inj tested_in_table]
    by (simp add: traced_calls_def)
qed


text \<open>The answer of the first filter in the list, except that a kill prevails.\<close>
definition sample_rule :: verdict_rule where
  "sample_rule vs =
    (if SECCOMP_RET_KILL_PROCESS \<in> set vs then SECCOMP_RET_KILL_PROCESS
     else case filter (\<lambda>v. v \<noteq> SECCOMP_RET_ALLOW) vs of [] \<Rightarrow> SECCOMP_RET_ALLOW | v # _ \<Rightarrow> v)"


text \<open>
  C39. The filter never loads the architecture of the call, so a call made
  through the 32-bit interface is judged by the 64-bit meaning of its number.
  Number 219 is \<open>restart_syscall\<close> there and \<open>madvise\<close> in the 32-bit table
  (architecture value 0x40000003): the 32-bit \<open>madvise\<close> is allowed without being traced,
  although the policy hands \<open>madvise\<close> to the tracer.
\<close>
theorem filter_ignores_architecture:
  "bpf_run (d\<lparr>arch := a\<rparr>) 0 (ia2_filter NR D) = bpf_run d 0 (ia2_filter NR D) \<and>
   bpf_run \<lparr>nr = 219, arch = 0x40000003, instruction_pointer = ip, args = as\<rparr> 0 (ia2_filter x86_64_NR UNIV)
    = Some SECCOMP_RET_ALLOW \<and>
   bpf_run \<lparr>nr = x86_64_NR ''madvise'', arch = 0xC000003E, instruction_pointer = ip, args = as\<rparr> 0
    (ia2_filter x86_64_NR UNIV) = Some SECCOMP_RET_TRACE"
proof -
  have inj: "inj_on x86_64_NR (line_name ` set (compiled_lines UNIV))"
    by (rule inj_on_subset [OF x86_64_inj]) (use tested_in_table in \<open>auto simp: tested_names_def\<close>)
  have "Always ''restart_syscall'' SECCOMP_RET_ALLOW \<in> set (compiled_lines UNIV)"
    "Always ''madvise'' SECCOMP_RET_TRACE \<in> set (compiled_lines UNIV)"
    by (simp_all add: compiled_lines_def ia2_policy_lines_def)
  note this [THEN table_action_inj [OF inj compiled_lines_distinct]]
  moreover have "x86_64_NR ''restart_syscall'' = 219" by (simp add: x86_64_NR_def x86_64_table_def)
  ultimately show ?thesis by (auto simp: ia2_filter_run split: option.split)
qed

end
