(* ===== verification/Forbid_Paths.thy ===== *)
theory Forbid_Paths
  imports IA2_Prelude "HOL-Library.Sublist"
begin

text \<open>
  The file system sandbox of the tracee: string vectors (\<open>strv.c\<close>), the walk
  that allows everything but the forbidden paths (\<open>forbid_paths.c\<close>) and the set-up
  of the Landlock rule set (\<open>landlock.c\<close>, \<open>landlock_syscall.h\<close>).  The operating
  system is a record of the answers its calls give; \<open>nftw\<close> is modelled as the C
  library documents it for the flags in use, on a tree of files.
\<close>

unbundle bit_operations_syntax

section \<open>String vectors\<close>

text \<open>
  A \<open>char **\<close> is the list of the cells of its allocation, \<^term>\<open>None\<close> a \<open>NULL\<close>
  cell.  Reading a cell past the allocation is undefined; the outer option of a
  result is \<^term>\<open>None\<close> there.
\<close>
type_synonym strv = "string option list"

fun strvlen :: "strv \<Rightarrow> nat option" where
  "strvlen [] = None"
| "strvlen (None # v) = Some 0"
| "strvlen (Some s # v) = map_option Suc (strvlen v)"

text \<open>The strings that are freed, in order.\<close>
fun strvfree :: "strv \<Rightarrow> string list option" where
  "strvfree [] = None"
| "strvfree (None # v) = Some []"
| "strvfree (Some s # v) = map_option (Cons s) (strvfree v)"

text \<open>
  The result is an allocation of exactly \<open>len\<close> cells; \<open>beyond\<close> is what a reader that
  runs past them finds in memory, up to the first cell that cannot be read.
\<close>
definition strvmap :: "strv \<Rightarrow> (string \<Rightarrow> string option) \<Rightarrow> strv \<Rightarrow> strv option" where
  "strvmap v fn beyond =
    (case strvlen v of
      None \<Rightarrow> None
    | Some len \<Rightarrow> Some (map (\<lambda>i. case v ! i of Some s \<Rightarrow> fn s | None \<Rightarrow> None) [0..<len] @ beyond))"

section \<open>Landlock access rights\<close>

type_synonym access = u64

definition FS_EXECUTE :: access where "FS_EXECUTE = push_bit 0 1"
definition FS_WRITE_FILE :: access where "FS_WRITE_FILE = push_bit 1 1"
definition FS_READ_FILE :: access where "FS_READ_FILE = push_bit 2 1"
definition FS_READ_DIR :: access where "FS_READ_DIR = push_bit 3 1"
definition FS_REMOVE_DIR :: access where "FS_REMOVE_DIR = push_bit 4 1"
definition FS_REMOVE_FILE :: access where "FS_REMOVE_FILE = push_bit 5 1"
definition FS_MAKE_CHAR :: access where "FS_MAKE_CHAR = push_bit 6 1"
definition FS_MAKE_DIR :: access where "FS_MAKE_DIR = push_bit 7 1"
definition FS_MAKE_REG :: access where "FS_MAKE_REG = push_bit 8 1"
definition FS_MAKE_SOCK :: access where "FS_MAKE_SOCK = push_bit 9 1"
definition FS_MAKE_FIFO :: access where "FS_MAKE_FIFO = push_bit 10 1"
definition FS_MAKE_BLOCK :: access where "FS_MAKE_BLOCK = push_bit 11 1"
definition FS_MAKE_SYM :: access where "FS_MAKE_SYM = push_bit 12 1"
definition FS_REFER :: access where "FS_REFER = push_bit 13 1"
definition FS_TRUNCATE :: access where "FS_TRUNCATE = push_bit 14 1"

lemmas fs_bits = FS_EXECUTE_def FS_WRITE_FILE_def FS_READ_FILE_def FS_READ_DIR_def FS_REMOVE_DIR_def
  FS_REMOVE_FILE_def FS_MAKE_CHAR_def FS_MAKE_DIR_def FS_MAKE_REG_def FS_MAKE_SOCK_def FS_MAKE_FIFO_def
  FS_MAKE_BLOCK_def FS_MAKE_SYM_def FS_REFER_def FS_TRUNCATE_def

text \<open>The header on the build machine defines both optional rights.\<close>
definition LANDLOCK_ACCESS_FS_REFER_OR_0 :: access where
  "LANDLOCK_ACCESS_FS_REFER_OR_0 = FS_REFER"

definition LANDLOCK_ACCESS_FS_TRUNCATE_OR_0 :: access where
  "LANDLOCK_ACCESS_FS_TRUNCATE_OR_0 = FS_TRUNCATE"

definition ACCESS_FS_ROUGHLY_READ :: access where
  "ACCESS_FS_ROUGHLY_READ = FS_EXECUTE OR FS_READ_FILE OR FS_READ_DIR"

definition ACCESS_FS_ROUGHLY_WRITE :: access where
  "ACCESS_FS_ROUGHLY_WRITE =
    FS_WRITE_FILE OR FS_REMOVE_DIR OR FS_REMOVE_FILE OR FS_MAKE_CHAR OR FS_MAKE_DIR OR FS_MAKE_REG
    OR FS_MAKE_SOCK OR FS_MAKE_FIFO OR FS_MAKE_BLOCK OR FS_MAKE_SYM
    OR LANDLOCK_ACCESS_FS_REFER_OR_0 OR LANDLOCK_ACCESS_FS_TRUNCATE_OR_0"

definition ACCESS_FILE :: access where
  "ACCESS_FILE = FS_EXECUTE OR FS_WRITE_FILE OR FS_READ_FILE OR LANDLOCK_ACCESS_FS_TRUNCATE_OR_0"

definition LANDLOCK_ABI_LAST :: int where
  "LANDLOCK_ABI_LAST = 5"

section \<open>Allowing one path\<close>

datatype errno = ENOENT | OTHER_ERRNO

text \<open>
  The answers of the operating system: whether \<open>open\<close> of a path fails and with
  which error, what \<open>fstat\<close> says of the opened path (\<^term>\<open>None\<close> an error, otherwise
  whether it is a directory), and whether \<open>landlock_add_rule\<close> refuses a rule.
  \<open>fstat\<close> and \<open>landlock_add_rule\<close> on the descriptor -1 of a failed \<open>open\<close> fail.
  The last component is the memory after a vector that was just allocated.
\<close>
record os =
  open_error :: "string \<Rightarrow> errno option"
  fstat_dir :: "string \<Rightarrow> bool option"
  rule_refused :: "string \<Rightarrow> access \<Rightarrow> bool"
  realpath :: "string \<Rightarrow> string option"
  heap_beyond :: strv

type_synonym rules = "(string \<times> access) list"

definition fstat :: "os \<Rightarrow> string option \<Rightarrow> bool option" where
  "fstat S fd = (case fd of None \<Rightarrow> None | Some p \<Rightarrow> fstat_dir S p)"

definition allowed_access :: "bool \<Rightarrow> bool \<Rightarrow> access" where
  "allowed_access is_dir shallow =
    (let all = ACCESS_FS_ROUGHLY_READ OR ACCESS_FS_ROUGHLY_WRITE in
     if \<not> is_dir then all AND ACCESS_FILE
     else if shallow then FS_READ_DIR else all)"

definition allow_path :: "os \<Rightarrow> string \<Rightarrow> bool \<Rightarrow> rules \<Rightarrow> int \<times> rules" where
  "allow_path S path shallow rs =
    (let parent_fd = (case open_error S path of None \<Rightarrow> Some path | Some _ \<Rightarrow> None) in
     if parent_fd = None \<and> open_error S path \<noteq> Some ENOENT then (-1, rs)
     else case fstat S parent_fd of
       None \<Rightarrow> (-1, rs)
     | Some is_dir \<Rightarrow>
         let a = allowed_access is_dir shallow in
         if rule_refused S path a then (-1, rs) else (0, rs @ [(path, a)]))"

section \<open>Segment prefixes\<close>

fun skip_common :: "string \<Rightarrow> string \<Rightarrow> string \<times> string" where
  "skip_common (c # p) (d # q) = (if c = d then skip_common p q else (c # p, d # q))"
| "skip_common p q = (p, q)"

definition path_has_segment_prefix :: "string \<Rightarrow> string \<Rightarrow> bool" where
  "path_has_segment_prefix path pre =
    (if pre = ''/'' then True
     else case skip_common path pre of
       (p, q) \<Rightarrow> q = [] \<and> (p = [] \<or> hd p = CHR ''/''))"

section \<open>The callback of the walk\<close>

datatype typeflag = FTW_F | FTW_D | FTW_DNR | FTW_SL

datatype ftw_action = FTW_CONTINUE | FTW_SKIP_SUBTREE | FTW_STOP

record forbid_ctx =
  forbidden_paths :: strv
  ruleset :: rules
  error :: int

text \<open>
  The loop over the forbidden paths: does one lie beneath the visited path, and
  is one the visited path itself (which ends the loop)?
\<close>
fun scan_forbidden :: "string \<Rightarrow> strv \<Rightarrow> bool \<Rightarrow> (bool \<times> bool) option" where
  "scan_forbidden fpath [] contains = None"
| "scan_forbidden fpath (None # v) contains = Some (contains, False)"
| "scan_forbidden fpath (Some f # v) contains =
    (let contains' = (contains \<or> path_has_segment_prefix f fpath) in
     if f = fpath then Some (contains', True) else scan_forbidden fpath v contains')"

definition forbid_deep_or_shallow ::
  "os \<Rightarrow> string \<Rightarrow> typeflag \<Rightarrow> forbid_ctx \<Rightarrow> (ftw_action \<times> forbid_ctx) option"
where
  "forbid_deep_or_shallow S fpath flag ctx =
    (case scan_forbidden fpath (forbidden_paths ctx) False of
      None \<Rightarrow> None
    | Some (contains_forbidden_path, is_forbidden_path) \<Rightarrow>
        if is_forbidden_path then Some (FTW_SKIP_SUBTREE, ctx)
        else if flag = FTW_SL then Some (FTW_SKIP_SUBTREE, ctx)
        else if contains_forbidden_path then
          (case allow_path S fpath True (ruleset ctx) of
            (ret, rs) \<Rightarrow>
              if ret < 0 then Some (FTW_STOP, ctx\<lparr>ruleset := rs, error := ret\<rparr>)
              else Some (FTW_CONTINUE, ctx\<lparr>ruleset := rs\<rparr>))
        else
          (case allow_path S fpath False (ruleset ctx) of
            (ret, rs) \<Rightarrow>
              let in_proc = (take 6 fpath = ''/proc/'') in
              if ret < 0 \<and> \<not> in_proc then Some (FTW_STOP, ctx\<lparr>ruleset := rs, error := ret\<rparr>)
              else Some (if flag = FTW_D \<or> flag = FTW_DNR then FTW_SKIP_SUBTREE else FTW_CONTINUE,
                         ctx\<lparr>ruleset := rs\<rparr>)))"

section \<open>The walk\<close>

datatype fs_node = RegularFile | Symlink | Unreadable | Directory "(string \<times> fs_node) list"

fun node_flag :: "fs_node \<Rightarrow> typeflag" where
  "node_flag RegularFile = FTW_F"
| "node_flag Symlink = FTW_SL"
| "node_flag Unreadable = FTW_DNR"
| "node_flag (Directory es) = FTW_D"

definition child_path :: "string \<Rightarrow> string \<Rightarrow> string" where
  "child_path dir name = (if dir = ''/'' then dir @ name else dir @ ''/'' @ name)"

text \<open>
  \<open>nftw\<close> with \<open>FTW_PHYS | FTW_ACTIONRETVAL\<close>: a directory is reported before its
  entries, links are not followed.  The flag says whether the callback asked to
  stop.
\<close>
fun nftw :: "(string \<Rightarrow> typeflag \<Rightarrow> 's \<Rightarrow> (ftw_action \<times> 's) option) \<Rightarrow> string \<Rightarrow> fs_node \<Rightarrow> 's \<Rightarrow> (bool \<times> 's) option"
  and nftw_entries :: "(string \<Rightarrow> typeflag \<Rightarrow> 's \<Rightarrow> (ftw_action \<times> 's) option) \<Rightarrow> string \<Rightarrow> (string \<times> fs_node) list \<Rightarrow> 's \<Rightarrow> (bool \<times> 's) option"
where
  "nftw cb path n s =
    (case cb path (node_flag n) s of
      None \<Rightarrow> None
    | Some (FTW_STOP, s') \<Rightarrow> Some (True, s')
    | Some (FTW_SKIP_SUBTREE, s') \<Rightarrow> Some (False, s')
    | Some (FTW_CONTINUE, s') \<Rightarrow>
        (case n of Directory es \<Rightarrow> nftw_entries cb path es s' | _ \<Rightarrow> Some (False, s')))"
| "nftw_entries cb path [] s = Some (False, s)"
| "nftw_entries cb path ((name, n) # es) s =
    (case nftw cb (child_path path name) n s of
      None \<Rightarrow> None
    | Some (True, s') \<Rightarrow> Some (True, s')
    | Some (False, s') \<Rightarrow> nftw_entries cb path es s')"

definition forbid_paths :: "os \<Rightarrow> fs_node \<Rightarrow> strv \<Rightarrow> rules \<Rightarrow> (int \<times> rules) option" where
  "forbid_paths S t paths rs =
    (case strvmap paths (realpath S) (heap_beyond S) of
      None \<Rightarrow> None
    | Some real_paths \<Rightarrow>
        (case nftw (forbid_deep_or_shallow S) ''/'' t \<lparr>forbidden_paths = real_paths, ruleset = rs, error = 0\<rparr> of
          None \<Rightarrow> None
        | Some (_, ctx) \<Rightarrow>
            (case strvfree real_paths of None \<Rightarrow> None | Some _ \<Rightarrow> Some (error ctx, ruleset ctx))))"

section \<open>Setting up and applying the rule set\<close>

text \<open>The result is the return value and the rights the rule set will handle.\<close>
definition landlock_setup :: "int \<Rightarrow> int \<times> access" where
  "landlock_setup abi_ver =
    (let handled = ACCESS_FS_ROUGHLY_READ OR ACCESS_FS_ROUGHLY_WRITE in
     if abi_ver < 0 then (1, handled)
     else if abi_ver = 1 then
       (0, handled AND NOT LANDLOCK_ACCESS_FS_REFER_OR_0 AND NOT LANDLOCK_ACCESS_FS_TRUNCATE_OR_0)
     else if abi_ver = 2 then (0, handled AND NOT LANDLOCK_ACCESS_FS_TRUNCATE_OR_0)
     else (0, handled))"

text \<open>
  The results of \<open>landlock_create_ruleset\<close>, \<open>prctl(PR_SET_NO_NEW_PRIVS)\<close> and
  \<open>landlock_restrict_self\<close> are arguments.  The second component is the rule set in
  force afterwards, the third whether privileges can no longer be gained.
\<close>
definition landlock_apply_path_blacklist ::
  "os \<Rightarrow> fs_node \<Rightarrow> int \<Rightarrow> int \<Rightarrow> int \<Rightarrow> strv \<Rightarrow> (int \<times> rules option \<times> bool) option"
where
  "landlock_apply_path_blacklist S t create no_new_privs restrict paths =
    (if create < 0 then Some (1, None, False)
     else case forbid_paths S t paths [] of
       None \<Rightarrow> None
     | Some (ret, rs) \<Rightarrow>
         if ret < 0 then Some (1, None, False)
         else if no_new_privs \<noteq> 0 then Some (1, None, False)
         else if restrict \<noteq> 0 then Some (1, None, True)
         else Some (0, Some rs, True))"

end
