(* ===== verification/Sandbox_Laws.thy ===== *)
theory Sandbox_Laws
  imports Forbid_Paths
begin

text \<open>
  Correctness of the file system sandbox: segment prefixes against the prefix
  order on lists of segments, the rules the walk adds (nothing forbidden is
  granted, nothing else is withheld), and what the set-up code gets wrong.
\<close>

section \<open>Paths as lists of segments\<close>

fun render :: "string list \<Rightarrow> string" where
  "render [] = []"
| "render (s # ss) = CHR ''/'' # s @ render ss"

definition path_str :: "string list \<Rightarrow> string" where
  "path_str ss = (if ss = [] then ''/'' else render ss)"

definition seg_ok :: "string \<Rightarrow> bool" where
  "seg_ok s \<longleftrightarrow> s \<noteq> [] \<and> CHR ''/'' \<notin> set s"

definition at_slash :: "string \<Rightarrow> bool" where
  "at_slash s \<longleftrightarrow> s = [] \<or> hd s = CHR ''/''"

lemma at_slash_simps [simp]: "at_slash []" "at_slash (c # s) \<longleftrightarrow> c = CHR ''/''"
  by (simp_all add: at_slash_def)

lemma at_slash_render [simp]: "at_slash r \<Longrightarrow> at_slash (render ss @ r)"
  by (cases ss) simp_all

lemma skip_common_prefix: "skip_common (q @ p) q = (p, [])"
  by (induction q) (cases p, simp_all)

lemma skip_common_same: "skip_common q q = ([], [])"
  using skip_common_prefix [of q "[]"] by simp

lemma skip_common_done: "snd (skip_common p q) = [] \<Longrightarrow> \<exists>r. p = q @ r"
  by (induction p q rule: skip_common.induct) (auto split: if_splits)

lemma path_has_segment_prefix_iff:
  "path_has_segment_prefix p q \<longleftrightarrow> q = ''/'' \<or> (\<exists>r. p = q @ r \<and> at_slash r)"
proof (cases "q = ''/''")
  case False
  show ?thesis
  proof
    assume h: "path_has_segment_prefix p q"
    then have "snd (skip_common p q) = []"
      using False by (simp add: path_has_segment_prefix_def split: prod.splits)
    then obtain r where "p = q @ r" using skip_common_done by blast
    then show "q = ''/'' \<or> (\<exists>r. p = q @ r \<and> at_slash r)"
      using h False by (simp add: path_has_segment_prefix_def skip_common_prefix at_slash_def)
  next
    assume "q = ''/'' \<or> (\<exists>r. p = q @ r \<and> at_slash r)"
    then show "path_has_segment_prefix p q"
      using False by (auto simp: path_has_segment_prefix_def skip_common_prefix skip_common_same at_slash_def)
  qed
qed (simp add: path_has_segment_prefix_def)

lemma segment_split:
  assumes "s @ x = t @ y" "CHR ''/'' \<notin> set s" "CHR ''/'' \<notin> set t" "at_slash x" "at_slash y"
  shows "s = t \<and> x = y"
  using assms
proof (induction s arbitrary: t)
  case Nil
  then show ?case by (cases t) auto
next
  case (Cons c s)
  then show ?case by (cases t) auto
qed

lemma render_prefix:
  assumes "\<forall>s \<in> set p. seg_ok s" "\<forall>s \<in> set f. seg_ok s"
  shows "(\<exists>r. render f = render p @ r \<and> at_slash r) \<longleftrightarrow> prefix p f"
  using assms
proof (induction p arbitrary: f)
  case Nil
  then show ?case by (cases f) auto
next
  case (Cons s p)
  show ?case
  proof (cases f)
    case (Cons t f')
    have ok: "CHR ''/'' \<notin> set s" "CHR ''/'' \<notin> set t"
      using Cons.prems \<open>f = t # f'\<close> by (auto simp: seg_ok_def)
    have "render f = render (s # p) @ r \<and> at_slash r \<longleftrightarrow> s = t \<and> render f' = render p @ r \<and> at_slash r" for r
      using segment_split [of s "render p @ r" t "render f'"] ok at_slash_render [of "[]" f']
      by (auto simp: \<open>f = t # f'\<close>)
    then show ?thesis using Cons.IH [of f'] Cons.prems \<open>f = t # f'\<close> by auto
  qed simp
qed

lemma render_root: "\<forall>s \<in> set p. seg_ok s \<Longrightarrow> render p \<noteq> ''/''"
  by (cases p) (auto simp: seg_ok_def)

lemma segment_prefix_iff:
  assumes "\<forall>s \<in> set f. seg_ok s" "\<forall>s \<in> set p. seg_ok s"
  shows "path_has_segment_prefix (path_str f) (path_str p) \<longleftrightarrow> prefix p f"
proof -
  have "\<not> at_slash r" if "''/'' = render p @ r" "p \<noteq> []" for r
    using that assms(2) by (cases p) (auto simp: seg_ok_def)
  then show ?thesis
    using render_prefix [OF assms(2,1)] render_root [OF assms(2)]
    by (auto simp: path_has_segment_prefix_iff path_str_def)
qed

text \<open>
  The character loop of \<open>path_has_segment_prefix\<close> decides the prefix order on
  lists of path segments: for any two absolute paths in normal form, the second
  is an ancestor of the first or the same path exactly if the function returns
  true.  In particular \<open>/ab\<close> is not beneath \<open>/a\<close>, and everything is beneath the root.
\<close>
lemma segment_prefix_is_list_prefix:
  assumes "\<forall>s \<in> set f. seg_ok s" "\<forall>s \<in> set p. seg_ok s"
  shows "path_has_segment_prefix (path_str f) (path_str p) \<longleftrightarrow> prefix p f"
  using assms by (rule segment_prefix_iff)

lemma segment_prefix_is_list_prefix_witness:
  "\<not> path_has_segment_prefix ''/ab'' ''/a'' \<and> path_has_segment_prefix ''/a/b'' ''/a''"
  using segment_prefix_is_list_prefix [of "[''ab'']" "[''a'']"]
    segment_prefix_is_list_prefix [of "[''a'', ''b'']" "[''a'']"]
  by (simp add: seg_ok_def path_str_def)

section \<open>One visit\<close>

lemma scan_terminated:
  "scan_forbidden q (map Some ps @ None # w) c =
    (if q \<in> set ps then scan_forbidden q (map Some ps @ None # w) c
     else Some (c \<or> (\<exists>f \<in> set ps. path_has_segment_prefix f q), False))"
  by (induction ps arbitrary: c) (auto simp: Let_def)

lemma scan_forbidden_hit:
  "q \<in> set ps \<Longrightarrow> \<exists>c'. scan_forbidden q (map Some ps @ None # w) c = Some (c', True)"
  by (induction ps arbitrary: c) (auto simp: Let_def)

lemma allow_path_cases:
  assumes "allow_path S q sh rs = (r, rs')"
  obtains "r = -1" "rs' = rs"
  | d where "r = 0" "fstat_dir S q = Some d" "rs' = rs @ [(q, allowed_access d sh)]"
  using assms
  by (auto simp: allow_path_def fstat_def Let_def split: if_splits option.splits)

definition terminated :: "string list \<Rightarrow> forbid_ctx \<Rightarrow> bool" where
  "terminated ps ctx \<longleftrightarrow> (\<exists>w. forbidden_paths ctx = map Some ps @ None # w)"

lemma callback_keeps_paths:
  "forbid_deep_or_shallow S q fl ctx = Some (a, ctx') \<Longrightarrow> forbidden_paths ctx' = forbidden_paths ctx"
  by (auto simp: forbid_deep_or_shallow_def Let_def split: option.splits prod.splits if_splits)

lemma callback_None:
  "forbid_deep_or_shallow S q fl ctx = None \<longleftrightarrow> scan_forbidden q (forbidden_paths ctx) False = None"
  by (auto simp: forbid_deep_or_shallow_def Let_def split: option.splits prod.splits if_splits)

lemma scan_terminated_Some: "scan_forbidden q (map Some ps @ None # w) c \<noteq> None"
  by (induction ps arbitrary: c) (auto simp: Let_def)

lemma callback_returns:
  assumes "terminated ps ctx"
  obtains a ctx' where "forbid_deep_or_shallow S q fl ctx = Some (a, ctx')" "terminated ps ctx'"
proof -
  obtain w where w: "forbidden_paths ctx = map Some ps @ None # w"
    using assms by (auto simp: terminated_def)
  then have "forbid_deep_or_shallow S q fl ctx \<noteq> None"
    using scan_terminated_Some by (simp add: callback_None)
  then obtain a ctx' where "forbid_deep_or_shallow S q fl ctx = Some (a, ctx')" by auto
  then show ?thesis using that assms callback_keeps_paths by (metis terminated_def)
qed

lemma callback_cases:
  assumes t: "terminated ps ctx" and cb: "forbid_deep_or_shallow S q fl ctx = Some (a, ctx')"
  obtains (hit) "q \<in> set ps" "a = FTW_SKIP_SUBTREE" "ctx' = ctx"
  | (link) "fl = FTW_SL" "a = FTW_SKIP_SUBTREE" "ctx' = ctx"
  | (shallow) r rs where "q \<notin> set ps" "\<exists>f \<in> set ps. path_has_segment_prefix f q"
      "allow_path S q True (ruleset ctx) = (r, rs)" "ruleset ctx' = rs"
      "a = (if r < 0 then FTW_STOP else FTW_CONTINUE)"
  | (deep) r rs where "q \<notin> set ps" "\<forall>f \<in> set ps. \<not> path_has_segment_prefix f q"
      "allow_path S q False (ruleset ctx) = (r, rs)" "ruleset ctx' = rs"
      "a = (if r < 0 \<and> take 6 q \<noteq> ''/proc/'' then FTW_STOP
            else if fl = FTW_D \<or> fl = FTW_DNR then FTW_SKIP_SUBTREE else FTW_CONTINUE)"
proof (cases "q \<in> set ps")
  case True
  obtain w where "forbidden_paths ctx = map Some ps @ None # w" using t by (auto simp: terminated_def)
  then show ?thesis
    using hit True cb scan_forbidden_hit [OF True, of w False]
    by (auto simp: forbid_deep_or_shallow_def)
next
  case False
  obtain w where w: "forbidden_paths ctx = map Some ps @ None # w" using t by (auto simp: terminated_def)
  have sc: "scan_forbidden q (forbidden_paths ctx) False = Some (\<exists>f \<in> set ps. path_has_segment_prefix f q, False)"
    using scan_terminated [of q ps w False] False by (simp add: w)
  show ?thesis
  proof (cases "fl = FTW_SL")
    case True
    then show ?thesis using link cb sc by (simp add: forbid_deep_or_shallow_def)
  next
    case nolink: False
    obtain r rs where ap: "allow_path S q (\<exists>f \<in> set ps. path_has_segment_prefix f q) (ruleset ctx) = (r, rs)"
      by fastforce
    show ?thesis
    proof (cases "\<exists>f \<in> set ps. path_has_segment_prefix f q")
      case c: True
      then have "allow_path S q True (ruleset ctx) = (r, rs)" using ap by simp
      then show ?thesis
        using shallow [of r rs] \<open>q \<notin> set ps\<close> c cb nolink
        by (auto simp: forbid_deep_or_shallow_def sc split: if_splits)
    next
      case c: False
      then have "allow_path S q False (ruleset ctx) = (r, rs)" using ap by simp
      then show ?thesis
        using deep [of r rs] \<open>q \<notin> set ps\<close> c cb nolink
        by (auto simp: forbid_deep_or_shallow_def sc Let_def split: if_splits)
    qed
  qed
qed

section \<open>The walk\<close>

declare nftw.simps [simp del]

text \<open>
  An invariant of the state the callback keeps is one the walk keeps; a callback
  that never asks to stop (when \<open>Q\<close> holds) gives a complete walk.
\<close>
lemma nftw_entries_invariant:
  fixes P :: "'s \<Rightarrow> bool"
  assumes "\<And>name n q s. (name, n) \<in> set es \<Longrightarrow> P s \<Longrightarrow> \<exists>b s'. nftw cb q n s = Some (b, s') \<and> P s' \<and> (Q \<longrightarrow> \<not> b)" "P s"
  shows "\<exists>b s'. nftw_entries cb q es s = Some (b, s') \<and> P s' \<and> (Q \<longrightarrow> \<not> b)"
  using assms
proof (induction es arbitrary: s)
  case (Cons e es)
  obtain name n where e: "e = (name, n)" by fastforce
  obtain b s' where s': "nftw cb (child_path q name) n s = Some (b, s')" "P s'" "Q \<longrightarrow> \<not> b"
    using Cons.prems(1) [of name n s "child_path q name"] Cons.prems(2) by (auto simp: e)
  have "\<exists>b s''. nftw_entries cb q es s' = Some (b, s'') \<and> P s'' \<and> (Q \<longrightarrow> \<not> b)"
  proof (rule Cons.IH)
    fix name n q s assume "(name, n) \<in> set es" "P s"
    then show "\<exists>b s'. nftw cb q n s = Some (b, s') \<and> P s' \<and> (Q \<longrightarrow> \<not> b)"
      by (intro Cons.prems(1) [of name]) simp_all
  qed (rule s'(2))
  then show ?case using s' by (cases b) (auto simp: e)
qed auto

lemma nftw_invariant:
  fixes P :: "'s \<Rightarrow> bool"
  assumes step: "\<And>q fl s. P s \<Longrightarrow> \<exists>a s'. cb q fl s = Some (a, s') \<and> P s' \<and> (Q \<longrightarrow> a \<noteq> FTW_STOP)"
  shows "P s \<Longrightarrow> \<exists>b s'. nftw cb q n s = Some (b, s') \<and> P s' \<and> (Q \<longrightarrow> \<not> b)"
proof (induction n arbitrary: q s)
  case (Directory es)
  obtain a s' where c: "cb q FTW_D s = Some (a, s')" "P s'" "Q \<longrightarrow> a \<noteq> FTW_STOP"
    using step [OF Directory.prems] by blast
  have "\<exists>b s''. nftw_entries cb q es s' = Some (b, s'') \<and> P s'' \<and> (Q \<longrightarrow> \<not> b)"
  proof (rule nftw_entries_invariant)
    fix name n q s assume "(name, n) \<in> set es" "P s"
    then show "\<exists>b s'. nftw cb q n s = Some (b, s') \<and> P s' \<and> (Q \<longrightarrow> \<not> b)"
      using Directory.IH [of "(name, n)" n s q] by simp
  qed (rule c(2))
  then show ?case using c by (cases a) (auto simp: nftw.simps)
next
  case RegularFile
  then show ?case using step [of s q FTW_F] by (auto simp: nftw.simps split: ftw_action.split)
next
  case Symlink
  then show ?case using step [of s q FTW_SL] by (auto simp: nftw.simps split: ftw_action.split)
next
  case Unreadable
  then show ?case using step [of s q FTW_DNR] by (auto simp: nftw.simps split: ftw_action.split)
qed

definition forbid_walk :: "os \<Rightarrow> fs_node \<Rightarrow> string list \<Rightarrow> strv \<Rightarrow> (bool \<times> forbid_ctx) option" where
  "forbid_walk S t ps w =
    nftw (forbid_deep_or_shallow S) ''/'' t \<lparr>forbidden_paths = map Some ps @ None # w, ruleset = [], error = 0\<rparr>"

lemma terminated_start [simp]:
  "terminated ps \<lparr>forbidden_paths = map Some ps @ None # w, ruleset = rs, error = e\<rparr>"
  by (simp add: terminated_def)

lemma forbid_nftw_invariant:
  assumes start: "terminated ps ctx0" "P (ruleset ctx0)"
    and step: "\<And>ctx q fl a ctx'. terminated ps ctx \<Longrightarrow> P (ruleset ctx) \<Longrightarrow>
      forbid_deep_or_shallow S q fl ctx = Some (a, ctx') \<Longrightarrow> P (ruleset ctx') \<and> (Q \<longrightarrow> a \<noteq> FTW_STOP)"
  shows "\<exists>b ctx. nftw (forbid_deep_or_shallow S) q t ctx0 = Some (b, ctx) \<and>
    (terminated ps ctx \<and> P (ruleset ctx)) \<and> (Q \<longrightarrow> \<not> b)"
proof (rule nftw_invariant)
  fix q fl ctx assume h: "terminated ps ctx \<and> P (ruleset ctx)"
  then obtain a ctx' where "forbid_deep_or_shallow S q fl ctx = Some (a, ctx')" "terminated ps ctx'"
    using callback_returns by blast
  then show "\<exists>a ctx'. forbid_deep_or_shallow S q fl ctx = Some (a, ctx') \<and>
      (terminated ps ctx' \<and> P (ruleset ctx')) \<and> (Q \<longrightarrow> a \<noteq> FTW_STOP)"
    using step h by blast
qed (use start in simp)

section \<open>Nothing forbidden is granted\<close>

definition rules_safe :: "string list \<Rightarrow> rules \<Rightarrow> bool" where
  "rules_safe ps rs \<longleftrightarrow>
    (\<forall>(q, a) \<in> set rs. \<forall>f \<in> set ps. path_has_segment_prefix f q \<longrightarrow> a = FS_READ_DIR \<and> q \<noteq> f)"

text \<open>Whatever contains a forbidden path and can be examined is a directory.\<close>
definition ancestors_are_dirs :: "os \<Rightarrow> string list \<Rightarrow> bool" where
  "ancestors_are_dirs S ps \<longleftrightarrow>
    (\<forall>f \<in> set ps. \<forall>q. path_has_segment_prefix f q \<and> q \<noteq> f \<longrightarrow> fstat_dir S q \<noteq> Some False)"

lemma callback_safe:
  assumes t: "terminated ps ctx" and safe: "rules_safe ps (ruleset ctx)" and dirs: "ancestors_are_dirs S ps"
    and cb: "forbid_deep_or_shallow S q fl ctx = Some (a, ctx')"
  shows "rules_safe ps (ruleset ctx')"
  using t cb
proof (cases rule: callback_cases)
  case (shallow r rs)
  from shallow(3) show ?thesis
  proof (cases rule: allow_path_cases)
    case (2 d)
    moreover have "d" if "f \<in> set ps" "path_has_segment_prefix f q" for f
      using dirs shallow(1) that 2 unfolding ancestors_are_dirs_def by metis
    ultimately show ?thesis
      using safe shallow by (auto simp: rules_safe_def allowed_access_def Let_def)
  qed (use safe shallow in simp)
next
  case (deep r rs)
  from deep(3) show ?thesis
    by (cases rule: allow_path_cases) (use safe deep in \<open>auto simp: rules_safe_def\<close>)
qed (use safe in simp_all)


text \<open>A system on which every call succeeds and everything but the given path is a directory.\<close>
definition sample_os :: "string \<Rightarrow> os" where
  "sample_os file =
    \<lparr>open_error = (\<lambda>_. None), fstat_dir = (\<lambda>q. Some (q \<noteq> file)), rule_refused = (\<lambda>_ _. False), realpath = Some, heap_beyond = []\<rparr>"

lemmas sandbox_eval = sample_os_def forbid_walk_def nftw.simps forbid_deep_or_shallow_def allow_path_def fstat_def
  path_has_segment_prefix_def child_path_def Let_def


section \<open>Nothing else is withheld\<close>

inductive node_at :: "fs_node \<Rightarrow> string list \<Rightarrow> fs_node \<Rightarrow> bool" where
  here: "node_at n [] n"
| below: "(name, c) \<in> set es \<Longrightarrow> node_at c ss m \<Longrightarrow> node_at (Directory es) (name # ss) m"

inductive_cases node_atE: "node_at n ss m"

text \<open>Every call on the operating system succeeds.\<close>
definition os_ready :: "os \<Rightarrow> bool" where
  "os_ready S \<longleftrightarrow> (\<forall>q a. open_error S q = None \<and> fstat_dir S q \<noteq> None \<and> \<not> rule_refused S q a)"

lemma allow_path_ready:
  "os_ready S \<Longrightarrow> allow_path S q sh rs = (0, rs @ [(q, allowed_access (the (fstat_dir S q)) sh)])"
  by (auto simp: os_ready_def allow_path_def fstat_def Let_def split: option.split)

lemma callback_grows:
  assumes "terminated ps ctx" "os_ready S" "forbid_deep_or_shallow S q fl ctx = Some (a, ctx')"
  shows "set (ruleset ctx) \<subseteq> set (ruleset ctx') \<and> a \<noteq> FTW_STOP"
  using assms(1,3) by (cases rule: callback_cases) (auto simp: allow_path_ready [OF assms(2)])

lemma walk_grows:
  assumes "terminated ps ctx" "os_ready S"
  obtains ctx' where "nftw (forbid_deep_or_shallow S) q n ctx = Some (False, ctx')"
    "terminated ps ctx'" "set (ruleset ctx) \<subseteq> set (ruleset ctx')"
proof -
  have "\<exists>b ctx'. nftw (forbid_deep_or_shallow S) q n ctx = Some (b, ctx') \<and>
      (terminated ps ctx' \<and> set (ruleset ctx) \<subseteq> set (ruleset ctx')) \<and> (True \<longrightarrow> \<not> b)"
    by (rule forbid_nftw_invariant [OF assms(1)]) (use callback_grows [OF _ assms(2)] in blast)+
  then show ?thesis using that by auto
qed

lemma entries_grow:
  assumes "terminated ps ctx" "os_ready S"
  obtains ctx' where "nftw_entries (forbid_deep_or_shallow S) q es ctx = Some (False, ctx')"
    "terminated ps ctx'" "set (ruleset ctx) \<subseteq> set (ruleset ctx')"
  using assms(1)
proof (induction es arbitrary: ctx thesis)
  case (Cons e es)
  obtain name n where e: "e = (name, n)" by fastforce
  obtain c1 where c1: "nftw (forbid_deep_or_shallow S) (child_path q name) n ctx = Some (False, c1)"
    "terminated ps c1" "set (ruleset ctx) \<subseteq> set (ruleset c1)"
    using walk_grows [OF Cons.prems(2) assms(2)] by metis
  obtain c2 where c2: "nftw_entries (forbid_deep_or_shallow S) q es c1 = Some (False, c2)"
    "terminated ps c2" "set (ruleset c1) \<subseteq> set (ruleset c2)"
    using Cons.IH [OF _ c1(2)] by metis
  show ?case by (rule Cons.prems(1) [of c2]) (use c1 c2 in \<open>auto simp: e\<close>)
qed simp

lemma entries_visit:
  assumes "terminated ps ctx" "os_ready S" "(name, n) \<in> set es"
  obtains c1 c2 c3 where
    "terminated ps c1" "nftw (forbid_deep_or_shallow S) (child_path q name) n c1 = Some (False, c2)"
    "nftw_entries (forbid_deep_or_shallow S) q es ctx = Some (False, c3)" "set (ruleset c2) \<subseteq> set (ruleset c3)"
  using assms(1,3)
proof (induction es arbitrary: ctx thesis)
  case (Cons e es)
  obtain nm m where e: "e = (nm, m)" by fastforce
  obtain c1 where c1: "nftw (forbid_deep_or_shallow S) (child_path q nm) m ctx = Some (False, c1)" "terminated ps c1"
    using walk_grows [OF Cons.prems(2) assms(2)] by metis
  show ?case
  proof (cases "e = (name, n)")
    case True
    obtain c2 where "nftw_entries (forbid_deep_or_shallow S) q es c1 = Some (False, c2)"
      "set (ruleset c1) \<subseteq> set (ruleset c2)"
      using entries_grow [OF c1(2) assms(2)] by metis
    then show ?thesis using Cons.prems(1) [OF Cons.prems(2), of c1 c2] c1 True e by simp
  next
    case False
    then have "(name, n) \<in> set es" using Cons.prems(3) by simp
    then obtain d1 d2 d3 where "terminated ps d1"
      "nftw (forbid_deep_or_shallow S) (child_path q name) n d1 = Some (False, d2)"
      "nftw_entries (forbid_deep_or_shallow S) q es c1 = Some (False, d3)" "set (ruleset d2) \<subseteq> set (ruleset d3)"
      using Cons.IH [OF _ c1(2)] by metis
    then show ?thesis using Cons.prems(1) [of d1 d2 d3] c1 e by simp
  qed
qed simp

lemma child_path_str:
  "\<forall>s \<in> set p. seg_ok s \<Longrightarrow> child_path (path_str p) name = path_str (p @ [name])"
proof -
  have "render (p @ [name]) = render p @ ''/'' @ name" by (induction p) simp_all
  then show "\<forall>s \<in> set p. seg_ok s \<Longrightarrow> ?thesis"
    using render_root [of p] by (auto simp: child_path_def path_str_def)
qed

text \<open>The rule a path gets when it is allowed as a whole.\<close>
definition full_rule :: "os \<Rightarrow> string list \<Rightarrow> string \<times> access" where
  "full_rule S q = (path_str q, allowed_access (the (fstat_dir S (path_str q))) False)"

lemma walk_after_callback:
  assumes t: "terminated ps ctx" and S: "os_ready S"
    and cb: "forbid_deep_or_shallow S q (node_flag n) ctx = Some (a, c)"
  obtains ctx' where "nftw (forbid_deep_or_shallow S) q n ctx = Some (False, ctx')"
    "set (ruleset c) \<subseteq> set (ruleset ctx')"
proof -
  have c: "terminated ps c" using t callback_keeps_paths [OF cb] by (simp add: terminated_def)
  have a: "a \<noteq> FTW_STOP" using callback_grows [OF t S cb] by simp
  show ?thesis
  proof (cases "\<exists>es. a = FTW_CONTINUE \<and> n = Directory es")
    case True
    then obtain es where "a = FTW_CONTINUE" "n = Directory es" by auto
    then show ?thesis using that entries_grow [OF c S, of q es] cb by (simp add: nftw.simps) metis
  next
    case False
    then have "nftw (forbid_deep_or_shallow S) q n ctx = Some (False, c)"
      using a cb by (cases a) (auto simp: nftw.simps split: fs_node.splits)
    then show ?thesis using that by blast
  qed
qed

lemma path_str_inj:
  assumes "path_str p = path_str f" "\<forall>s \<in> set p. seg_ok s" "\<forall>s \<in> set f. seg_ok s"
  shows "p = f"
  using assms segment_prefix_iff [of p f] segment_prefix_iff [of f p]
    segment_prefix_iff [of p p] by (auto intro: prefix_order.antisym)

text \<open>A visited path that is not forbidden is allowed as a whole, or is on the way to a forbidden one.\<close>
lemma visit_cases:
  assumes S: "os_ready S" and t: "terminated (map path_str fs) ctx" and n: "n \<noteq> Symlink"
    and ok: "\<forall>f \<in> set fs. \<forall>s \<in> set f. seg_ok s" "\<forall>s \<in> set p. seg_ok s" and p: "p \<notin> set fs"
    and cb: "forbid_deep_or_shallow S (path_str p) (node_flag n) ctx = Some (a, c)"
  shows "full_rule S p \<in> set (ruleset c) \<or> a = FTW_CONTINUE \<and> (\<exists>f \<in> set fs. prefix p f)"
proof -
  have np: "path_str p \<notin> set (map path_str fs)" using p path_str_inj ok by fastforce
  have nl: "node_flag n \<noteq> FTW_SL" using n by (cases n) simp_all
  from t cb show ?thesis
  proof (cases rule: callback_cases)
    case (shallow r rs)
    then obtain f where "f \<in> set fs" "path_has_segment_prefix (path_str f) (path_str p)" by auto
    then show ?thesis
      using shallow ok segment_prefix_iff [of f p] by (auto simp: allow_path_ready [OF S])
  next
    case (deep r rs)
    then have "ruleset c = ruleset ctx @ [full_rule S p]" by (simp add: allow_path_ready [OF S] full_rule_def)
    then show ?thesis by simp
  qed (use np nl in simp_all)
qed

lemma walk_covers:
  assumes S: "os_ready S" and "node_at n ss m" "m \<noteq> Symlink" "terminated (map path_str fs) ctx"
    and fs: "\<forall>f \<in> set fs. \<forall>s \<in> set f. seg_ok s" and "\<forall>s \<in> set (p @ ss). seg_ok s"
    and "\<forall>f \<in> set fs. \<not> prefix f (p @ ss) \<and> \<not> prefix (p @ ss) f"
  shows "\<exists>ctx'. nftw (forbid_deep_or_shallow S) (path_str p) n ctx = Some (False, ctx') \<and>
    (\<exists>q. prefix q (p @ ss) \<and> full_rule S q \<in> set (ruleset ctx'))"
  using assms(2-4,6-)
proof (induction n ss m arbitrary: p ctx rule: node_at.induct)
  case (here n)
  obtain a c where cb: "forbid_deep_or_shallow S (path_str p) (node_flag n) ctx = Some (a, c)"
    using callback_returns [OF here.prems(2)] by metis
  have "full_rule S p \<in> set (ruleset c)"
    using visit_cases [OF S here.prems(2,1) fs _ _ cb] here.prems(3,4) by auto
  then show ?case using walk_after_callback [OF here.prems(2) S cb] by (metis append_Nil2 prefix_order.refl subsetD)
next
  case (below name d es ss m)
  obtain a c where cb: "forbid_deep_or_shallow S (path_str p) FTW_D ctx = Some (a, c)" and c: "terminated (map path_str fs) c"
    using callback_returns [OF below.prems(2)] by metis
  have "p \<notin> set fs" using below.prems(4) by auto
  then have "full_rule S p \<in> set (ruleset c) \<or> a = FTW_CONTINUE"
    using visit_cases [OF S below.prems(2) _ fs _ _, of "Directory es" p a c] below.prems(3) cb by auto
  then show ?case
  proof
    assume "full_rule S p \<in> set (ruleset c)"
    then show ?thesis
      using walk_after_callback [OF below.prems(2) S, of "path_str p" "Directory es" a c] cb
      by (metis node_flag.simps(4) prefixI subsetD)
  next
    assume a: "a = FTW_CONTINUE"
    obtain c1 c2 c3 where v: "terminated (map path_str fs) c1"
      "nftw (forbid_deep_or_shallow S) (child_path (path_str p) name) d c1 = Some (False, c2)"
      "nftw_entries (forbid_deep_or_shallow S) (path_str p) es c = Some (False, c3)" "set (ruleset c2) \<subseteq> set (ruleset c3)"
      using entries_visit [OF c S below.hyps(1)] by metis
    have "child_path (path_str p) name = path_str (p @ [name])"
      using below.prems(3) by (intro child_path_str) simp
    then have "\<exists>q. prefix q (p @ name # ss) \<and> full_rule S q \<in> set (ruleset c2)"
      using below.IH [OF below.prems(1) v(1), of "p @ [name]"] below.prems(3,4) v(2) by simp
    then show ?thesis using v cb a by (auto simp: nftw.simps)
  qed
qed



section \<open>Where the set-up falls short\<close>

lemma strvlen_map_Some: "strvlen (map Some ps) = None"
  by (induction ps) simp_all

lemma strvlen_terminated: "strvlen (map Some ps @ None # w) = Some (length ps)"
  by (induction ps) simp_all

lemma strvmap_terminated: "strvmap (map Some ps @ None # w) fn b = Some (map fn ps @ b)"
proof -
  have "map (\<lambda>i. case (map Some ps @ None # w) ! i of Some s \<Rightarrow> fn s | None \<Rightarrow> None) [0..<length ps] = map fn ps"
    by (rule nth_equalityI) (simp_all add: nth_append)
  then show ?thesis by (simp add: strvmap_def strvlen_terminated)
qed

lemma scan_past_end: "q \<notin> set ps \<Longrightarrow> scan_forbidden q (map Some ps) c = None"
  by (induction ps arbitrary: c) (auto simp: Let_def)

text \<open>
  \<open>strvmap\<close> returns a vector without its terminating null pointer, although
  the vectors of this file are null terminated: when all results are strings,
  what follows the allocation in memory is read as part of it, and where nothing
  can be read there measuring or freeing the result has no defined outcome.  The
  same holds of \<open>forbid_paths\<close> at the first directory it visits, for every
  null-terminated list of existing paths other than the root, in particular for
  the one path the tracer passes.  And when a path of the list does not exist, its null result
  ends the list: the paths after it are not forbidden at all.
\<close>
lemma strvmap_loses_terminator:
  "strvmap (map Some ps @ [None]) (\<lambda>s. Some (g s)) b = Some (map (\<lambda>s. Some (g s)) ps @ b) \<and>
   strvlen (map (\<lambda>s. Some (g s)) ps) = None \<and>
   strvfree (map (\<lambda>s. Some (g s)) ps) = None \<and>
   (''/'' \<notin> set ps \<longrightarrow> forbid_paths (sample_os f) t (map Some ps @ [None]) rs = None) \<and>
   forbid_paths ((sample_os f)\<lparr>realpath := (\<lambda>p. if p = ''/missing'' then None else Some p)\<rparr>) t
     [Some ''/missing'', Some ''/secret'', None] [] =
     (if t = Symlink then Some (0, [])
      else Some (0, [(''/'', allowed_access (''/'' \<noteq> f) False)]))"
proof (intro conjI impI)
  show "strvmap (map Some ps @ [None]) (\<lambda>s. Some (g s)) b = Some (map (\<lambda>s. Some (g s)) ps @ b)"
    by (rule strvmap_terminated)
  show "strvlen (map (\<lambda>s. Some (g s)) ps) = None" "strvfree (map (\<lambda>s. Some (g s)) ps) = None"
    by (induction ps) simp_all
  show "forbid_paths (sample_os f) t (map Some ps @ [None]) rs = None" if "''/'' \<notin> set ps"
    using scan_past_end [OF that]
    by (simp add: forbid_paths_def strvmap_terminated nftw.simps forbid_deep_or_shallow_def sample_os_def)
  show "forbid_paths ((sample_os f)\<lparr>realpath := (\<lambda>p. if p = ''/missing'' then None else Some p)\<rparr>) t
     [Some ''/missing'', Some ''/secret'', None] [] =
     (if t = Symlink then Some (0, []) else Some (0, [(''/'', allowed_access (''/'' \<noteq> f) False)]))"
    using strvmap_terminated [of "[''/missing'', ''/secret'']" "[]"]
    by (cases t) (simp_all add: forbid_paths_def sandbox_eval)
qed

lemma strvmap_loses_terminator_witness:
  "forbid_paths (sample_os ''/proc/7/mem'') (Directory [(''proc'', Directory [])]) [Some ''/proc/7/mem'', None] [] = None"
  using strvmap_loses_terminator [of "[''/proc/7/mem'']" id "[]" "''/proc/7/mem''" "Directory [(''proc'', Directory [])]" "[]"]
  by simp

text \<open>
  Forbidding \<open>/proc/self/mem\<close> leaves the memory of the process open under
  another name.  In a tree where the process (here 7) has its memory file at
  \<open>/proc/7/mem\<close> and, for its threads, at \<open>/proc/7/task/<tid>/mem\<close>, the walk
  forbids the first and allows everything beneath \<open>/proc/7/task\<close>.
\<close>
lemma task_memory_stays_allowed:
  "\<exists>ctx. forbid_walk (sample_os ''/proc/7/mem'')
      (Directory [(''proc'', Directory [(''7'', Directory
         [(''mem'', RegularFile), (''task'', Directory [(tid, Directory [(''mem'', RegularFile)])])])])])
      [''/proc/7/mem''] [] = Some (False, ctx) \<and>
    (''/proc/7/task'', ACCESS_FS_ROUGHLY_READ OR ACCESS_FS_ROUGHLY_WRITE) \<in> set (ruleset ctx)"
  by (simp add: sandbox_eval allowed_access_def)

lemma access_needs_truncate:
  assumes "abi = 1 \<or> abi = 2" "\<not> (d \<and> sh)"
  shows "allowed_access d sh AND NOT (snd (landlock_setup abi)) \<noteq> 0"
  using assms
  by (cases d; cases sh)
    (auto simp: allowed_access_def landlock_setup_def ACCESS_FS_ROUGHLY_READ_def ACCESS_FS_ROUGHLY_WRITE_def
      ACCESS_FILE_def LANDLOCK_ACCESS_FS_TRUNCATE_OR_0_def LANDLOCK_ACCESS_FS_REFER_OR_0_def fs_bits)

text \<open>
  The fallback for older kernels does not work.  For Landlock versions 1 and
  2 \<open>landlock_setup\<close> removes rights from those the rule set handles, but
  \<open>allow_path\<close> still asks for them, and the kernel refuses a rule with rights the
  rule set does not handle.  So the walk never adds a rule beyond the listing of
  directories, and at the first path outside \<open>/proc/\<close> that it should allow it
  stops with an error.
\<close>
lemma old_landlock_refuses_rules:
  assumes abi: "abi = 1 \<or> abi = 2"
    and kern: "\<forall>q a. a AND NOT (snd (landlock_setup abi)) \<noteq> 0 \<longrightarrow> rule_refused S q a"
  shows "(\<exists>b ctx. forbid_walk S t ps w = Some (b, ctx) \<and> (\<forall>(q, a) \<in> set (ruleset ctx). a = FS_READ_DIR)) \<and>
    (take 6 q \<noteq> ''/proc/'' \<and> fl \<noteq> FTW_SL \<and> scan_forbidden q (forbidden_paths ctx) False = Some (False, False) \<longrightarrow>
      (\<exists>ctx'. forbid_deep_or_shallow S q fl ctx = Some (FTW_STOP, ctx') \<and> error ctx' = -1))"
proof
  have refused: "r = -1 \<and> rs' = rs \<or> sh \<and> rs' = rs @ [(q, FS_READ_DIR)]"
    if "allow_path S q sh rs = (r, rs')" for q sh rs r rs'
    using that
  proof (cases rule: allow_path_cases)
    case (2 d)
    then have "\<not> rule_refused S q (allowed_access d sh)"
      using that by (auto simp: allow_path_def fstat_def Let_def split: if_splits option.splits)
    then have "d \<and> sh" using kern access_needs_truncate [OF abi, of d sh] by blast
    then show ?thesis using 2 by (simp add: allowed_access_def Let_def)
  qed simp
  let ?P = "\<lambda>rs. \<forall>(q, a) \<in> set rs. a = FS_READ_DIR"
  have "\<exists>b ctx. forbid_walk S t ps w = Some (b, ctx) \<and> (terminated ps ctx \<and> ?P (ruleset ctx)) \<and> (False \<longrightarrow> \<not> b)"
    unfolding forbid_walk_def
  proof (rule forbid_nftw_invariant [OF terminated_start])
    fix ctx q fl a ctx'
    assume t: "terminated ps ctx" and P: "?P (ruleset ctx)" and cb: "forbid_deep_or_shallow S q fl ctx = Some (a, ctx')"
    from t cb show "?P (ruleset ctx') \<and> (False \<longrightarrow> a \<noteq> FTW_STOP)"
    proof (cases rule: callback_cases)
      case (shallow r rs)
      then show ?thesis using refused [OF shallow(3)] P by auto
    next
      case (deep r rs)
      then show ?thesis using refused [OF deep(3)] P by auto
    qed (use P in simp_all)
  qed simp
  then show "\<exists>b ctx. forbid_walk S t ps w = Some (b, ctx) \<and> ?P (ruleset ctx)" by blast
  obtain r rs where ap: "allow_path S q False (ruleset ctx) = (r, rs)" by fastforce
  show "take 6 q \<noteq> ''/proc/'' \<and> fl \<noteq> FTW_SL \<and> scan_forbidden q (forbidden_paths ctx) False = Some (False, False) \<longrightarrow>
      (\<exists>ctx'. forbid_deep_or_shallow S q fl ctx = Some (FTW_STOP, ctx') \<and> error ctx' = -1)"
    using refused [OF ap] by (auto simp: forbid_deep_or_shallow_def ap)
qed

lemma old_landlock_refuses_rules_witness:
  "\<exists>ctx'. forbid_deep_or_shallow
      ((sample_os ''/f'')\<lparr>rule_refused := (\<lambda>q a. a AND NOT (snd (landlock_setup 2)) \<noteq> 0)\<rparr>) ''/usr'' FTW_D
      \<lparr>forbidden_paths = [Some ''/proc/7/mem'', None], ruleset = [], error = 0\<rparr> = Some (FTW_STOP, ctx') \<and> error ctx' = -1"
  using old_landlock_refuses_rules [of 2
      "(sample_os ''/f'')\<lparr>rule_refused := (\<lambda>q a. a AND NOT (snd (landlock_setup 2)) \<noteq> 0)\<rparr>" RegularFile "[]" "[]" "''/usr''" FTW_D
      "\<lparr>forbidden_paths = [Some ''/proc/7/mem'', None], ruleset = [], error = 0\<rparr>"]
  by (simp add: path_has_segment_prefix_def)

end
