(* ===== verification/Tracer_Start.thy ===== *)
theory Tracer_Start
  imports Seccomp Sandbox_Laws
begin

text \<open>
  Launching the sandboxed program (\<open>start.c\<close>) and reading the PKRU register of
  the tracee (\<open>get_inferior_pkru.c\<close>).  The results of \<open>fork\<close>, \<open>ptrace\<close>, \<open>waitpid\<close>,
  \<open>execvp\<close> and \<open>cpuid\<close> are arguments.
\<close>

unbundle bit_operations_syntax

section \<open>The child\<close>

text \<open>What the child needs to know of the system it runs on.\<close>
record child_env =
  os_of :: os
  tree_of :: fs_node
  abi_ver :: int
  create_ret :: int
  no_new_privs_ret :: int
  restrict_ret :: int
  combine_of :: verdict_rule
  NR_of :: "string \<Rightarrow> u32"
  defined_names :: "string set"
  seccomp_ret :: "seccomp_flag \<Rightarrow> sock_filter list \<Rightarrow> int"
  call_data :: seccomp_data
  exec_works :: bool

text \<open>
  How the child ends: with an exit code, killed, in undefined behaviour, or
  replaced by the program with the file rules and filters then in force.
\<close>
datatype child_end = Exit int | Seccomp_Killed | Undefined | Running rules bool "sock_filter list list"

definition proc_self_mem :: strv where
  "proc_self_mem = [Some ''/proc/self/mem'', None]"

text \<open>\<^term>\<open>Inl\<close> is the end of the child, \<^term>\<open>Inr\<close> the rules in force.\<close>
definition forbid_proc_self_mem_or_exit :: "child_env \<Rightarrow> child_end + (rules \<times> bool)" where
  "forbid_proc_self_mem_or_exit E =
    (if fst (landlock_setup (abi_ver E)) \<noteq> 0 then Inl (Exit 1)
     else case landlock_apply_path_blacklist (os_of E) (tree_of E) (create_ret E) (no_new_privs_ret E)
         (restrict_ret E) proc_self_mem of
       None \<Rightarrow> Inl Undefined
     | Some (ret, rs, nnp) \<Rightarrow>
         if ret \<noteq> 0 then Inl (Exit 1)
         else case rs of Some rs' \<Rightarrow> Inr (rs', nnp) | None \<Rightarrow> Inl (Exit 1))"

definition fork_and_trace_child :: "child_env \<Rightarrow> child_end" where
  "fork_and_trace_child E =
    (case forbid_proc_self_mem_or_exit E of
      Inl e \<Rightarrow> e
    | Inr (rs, nnp) \<Rightarrow>
        (case configure_seccomp (combine_of E) (NR_of E) (seccomp_ret E) (call_data E)
            (ia2_filter (NR_of E) (defined_names E)) [] of
          Killed \<Rightarrow> Seccomp_Killed
        | Returned fd fs \<Rightarrow>
            if fd < 0 then Exit 1
            else if exec_works E then Running rs nnp fs else Exit 1))"

section \<open>The parent\<close>

definition PTRACE_O_TRACESYSGOOD :: u64 where "PTRACE_O_TRACESYSGOOD = push_bit 0 1"
definition PTRACE_O_TRACEFORK :: u64 where "PTRACE_O_TRACEFORK = push_bit 1 1"
definition PTRACE_O_TRACEVFORK :: u64 where "PTRACE_O_TRACEVFORK = push_bit 2 1"
definition PTRACE_O_TRACECLONE :: u64 where "PTRACE_O_TRACECLONE = push_bit 3 1"
definition PTRACE_O_TRACEEXEC :: u64 where "PTRACE_O_TRACEEXEC = push_bit 4 1"
definition PTRACE_O_TRACESECCOMP :: u64 where "PTRACE_O_TRACESECCOMP = push_bit 7 1"
definition PTRACE_O_EXITKILL :: u64 where "PTRACE_O_EXITKILL = push_bit 20 1"

definition ptrace_options :: u64 where
  "ptrace_options =
    PTRACE_O_EXITKILL OR PTRACE_O_TRACESECCOMP
    OR (PTRACE_O_TRACECLONE OR PTRACE_O_TRACEVFORK OR PTRACE_O_TRACEFORK)
    OR PTRACE_O_TRACEEXEC OR PTRACE_O_TRACESYSGOOD"

datatype ptrace_request = PTRACE_SEIZE u64 | PTRACE_CONT

text \<open>
  The answers to the calls of the parent in order; a call with no answer left
  has not returned (\<^term>\<open>None\<close>).
\<close>
record parent_env =
  fork_ret :: int
  seize_ret :: int
  first_waits :: "int list"
  cont_ret :: int
  wait_ret :: int
  cont2_ret :: int

text \<open>\<open>while ((ret_pid = waitpid(...)) == 0) { if (ret_pid < 0) return -1; }\<close>\<close>
fun first_wait :: "int list \<Rightarrow> int option" where
  "first_wait [] = None"
| "first_wait (r # rs) = (if r = 0 then first_wait rs else Some r)"

definition fork_and_trace :: "parent_env \<Rightarrow> (int \<times> ptrace_request list) option" where
  "fork_and_trace P =
    (if fork_ret P < 0 then Some (-1, [])
     else if seize_ret P < 0 then Some (-1, [PTRACE_SEIZE ptrace_options])
     else case first_wait (first_waits P) of
       None \<Rightarrow> None
     | Some _ \<Rightarrow>
         if cont_ret P < 0 then Some (-1, [PTRACE_SEIZE ptrace_options, PTRACE_CONT])
         else if wait_ret P < 0 then Some (-1, [PTRACE_SEIZE ptrace_options, PTRACE_CONT])
         else if cont2_ret P < 0 then Some (-1, [PTRACE_SEIZE ptrace_options, PTRACE_CONT, PTRACE_CONT])
         else Some (fork_ret P, [PTRACE_SEIZE ptrace_options, PTRACE_CONT, PTRACE_CONT]))"

text \<open>
  The exit code of the tracer, given what tracking the memory map of the child
  returns: success and the exit status it stored.
\<close>
definition tracer_main :: "nat \<Rightarrow> parent_env \<Rightarrow> (int \<Rightarrow> bool \<times> int) \<Rightarrow> int option" where
  "tracer_main argc P track =
    (if argc < 2 then Some 1
     else case fork_and_trace P of
       None \<Rightarrow> None
     | Some (pid, _) \<Rightarrow>
         if pid < 0 then Some 1
         else case track pid of (success, exit_status) \<Rightarrow> Some (if success then exit_status else 1))"

section \<open>Reading PKRU from the extended state\<close>

definition X86_XSTATE_MAX_SIZE :: nat where "X86_XSTATE_MAX_SIZE = 2696"

definition I386_LINUX_XSAVE_XCR0_OFFSET :: nat where "I386_LINUX_XSAVE_XCR0_OFFSET = 464"

definition X86_XSTATE_PKRU :: u64 where "X86_XSTATE_PKRU = push_bit 9 1"

fun le_word :: "u8 list \<Rightarrow> 'a::len word" where
  "le_word [] = 0"
| "le_word (b # bs) = ucast b OR push_bit 8 (le_word bs)"

text \<open>
  \<open>regset\<close> is what \<open>PTRACE_GETREGSET\<close> stores at the start of the buffer, \<open>cpuid\<close>
  the offset the processor reports; each is \<^term>\<open>None\<close> when the call fails.
  \<open>cache\<close> is the static variable that remembers the offset.  The inner result is
  \<^term>\<open>None\<close> when the function returns false; the outer one when the copy would
  read past the buffer.
\<close>
definition get_inferior_pkru :: "u8 list option \<Rightarrow> nat option \<Rightarrow> nat \<Rightarrow> (u32 option \<times> nat) option" where
  "get_inferior_pkru regset cpuid cache =
    (case regset of
      None \<Rightarrow> Some (None, cache)
    | Some bytes \<Rightarrow>
        let xstateregs = take X86_XSTATE_MAX_SIZE bytes @ replicate (X86_XSTATE_MAX_SIZE - length bytes) 0x69;
            xcr0 = (le_word (take 8 (drop I386_LINUX_XSAVE_XCR0_OFFSET xstateregs)) :: u64)
        in if xcr0 AND X86_XSTATE_PKRU = 0 then Some (None, cache)
        else case (if cache = 0 then cpuid else Some cache) of
          None \<Rightarrow> Some (None, cache)
        | Some off \<Rightarrow>
            if off + 4 \<le> X86_XSTATE_MAX_SIZE
            then Some (Some (le_word (take 4 (drop off xstateregs))), off)
            else None)"

section \<open>Nothing runs outside the sandbox\<close>

lemma apply_blacklist_Some:
  "landlock_apply_path_blacklist S t c n r paths = Some (0, rs, nnp) \<Longrightarrow>
    \<exists>e rs'. forbid_paths S t paths [] = Some (e, rs') \<and> 0 \<le> e \<and> rs = Some rs' \<and> nnp \<and> n = 0 \<and> r = 0"
  by (auto simp: landlock_apply_path_blacklist_def split: if_splits option.splits)

lemma configure_seccomp_installs:
  "configure_seccomp combine NR sys d prog fs = Returned r fs' \<Longrightarrow> 0 \<le> r \<Longrightarrow>
    fs' = forbid_seccomp_filter NR # prog # fs"
  by (auto simp: configure_seccomp_def seccomp_def Let_def split: seccomp_outcome.splits if_splits)


text \<open>
  The first wait of the parent cannot fail.  The error test stands inside a
  loop that runs only while the result is zero, so whatever \<open>waitpid\<close> returns,
  an error included, the parent goes on to continue the child and can report
  success.
\<close>
lemma first_wait_error_ignored:
  assumes "r \<noteq> 0" "0 < pid" "0 \<le> s" "0 \<le> c" "0 \<le> w" "0 \<le> c2"
  shows "fork_and_trace \<lparr>fork_ret = pid, seize_ret = s, first_waits = [r], cont_ret = c, wait_ret = w, cont2_ret = c2\<rparr>
    = Some (pid, [PTRACE_SEIZE ptrace_options, PTRACE_CONT, PTRACE_CONT])"
  using assms by (simp add: fork_and_trace_def)

end
