(* ===== verification/Protect_Pages.thy ===== *)
theory Protect_Pages
  imports IA2_Prelude
begin

text \<open>
  Protection of the memory of a compartment at start-up (\<open>ia2.c\<close>): which loaded
  objects belong to a compartment, which pages of their segments are tagged with
  its key, and which pages of its thread-local storage.  Addresses are naturals
  below \<open>2 ^ 64\<close> with the wrap-around of additions written out.  The dynamic
  linker's description of an object is an input, the result of
  \<open>ia2_mprotect_with_tag\<close> a parameter.
\<close>

section \<open>Objects\<close>

datatype p_type = PT_LOAD | PT_TLS | PT_GNU_RELRO | PT_OTHER

record Elf64_Phdr =
  ph_type :: p_type
  ph_r :: bool
  ph_w :: bool
  ph_x :: bool
  p_vaddr :: nat
  p_memsz :: nat

record dl_phdr_info =
  dlpi_addr :: nat
  dlpi_name :: string
  dlpi_phdr :: "Elf64_Phdr list"
  dlpi_tls_data :: nat

text \<open>The address 0 is the null pointer.\<close>
record IA2SharedSection =
  sec_start :: nat
  sec_end :: nat

record PhdrSearchArgs =
  pkey :: nat
  address :: nat
  extra_libraries :: "string option"
  found_library_count :: nat
  shared_sections :: "IA2SharedSection list option"

definition IA2_MAX_NUM_SHARED_SECTION_COUNT :: nat where
  "IA2_MAX_NUM_SHARED_SECTION_COUNT = 4"

definition MAX_NUM_PHDRS :: nat where
  "MAX_NUM_PHDRS = 20"

text \<open>The last component of a path, as the GNU \<open>basename\<close> gives it.\<close>
definition basename :: "string \<Rightarrow> string" where
  "basename p = rev (takeWhile (\<lambda>c. c \<noteq> CHR ''/'') (rev p))"

definition in_segment :: "dl_phdr_info \<Rightarrow> nat \<Rightarrow> Elf64_Phdr \<Rightarrow> bool" where
  "in_segment info addr phdr =
    (ph_type phdr = PT_LOAD \<and>
     (let start = usize_add (dlpi_addr info) (p_vaddr phdr); end = usize_add start (p_memsz phdr)
      in start \<le> addr \<and> addr \<le> end))"

definition in_loaded_segment :: "dl_phdr_info \<Rightarrow> nat \<Rightarrow> bool" where
  "in_loaded_segment info addr = list_ex (in_segment info addr) (dlpi_phdr info)"

section \<open>The list of extra libraries\<close>

text \<open>The inner loop: how far the list and the library name agree.\<close>
fun agree :: "string \<Rightarrow> string \<Rightarrow> string \<times> string" where
  "agree (c # e) (d # l) = (if c \<noteq> d then (c # e, d # l) else agree e l)"
| "agree e l = (e, l)"

lemma agree_length: "length (fst (agree e l)) \<le> length e"
  by (induction e l rule: agree.induct) auto

text \<open>The outer loop, at the start of an entry of the list.\<close>
function find_library :: "string \<Rightarrow> string \<Rightarrow> bool" where
  "find_library extra name =
    (if extra = [] then False
     else case agree extra name of
       (e, l) \<Rightarrow>
         if l = [] then True
         else if e = [] \<or> hd e = CHR '';'' then True
         else find_library (drop 1 (dropWhile (\<lambda>c. c \<noteq> CHR '';'') e)) name)"
  by pat_completeness auto
termination
proof (relation "measure (\<lambda>(e, n). length e)", goal_cases)
  case (2 extra name e l)
  then have "length e \<le> length extra" "e \<noteq> []" using agree_length [of extra name] by (metis fst_conv, simp)
  moreover have "length (drop 1 (dropWhile (\<lambda>c. c \<noteq> CHR '';'') e)) < length e"
    using \<open>e \<noteq> []\<close> length_dropWhile_le [of "\<lambda>c. c \<noteq> CHR '';''" e] by (cases e) (auto simp: less_Suc_eq_le)
  ultimately show ?case by simp
qed simp

declare find_library.simps [simp del]

definition in_extra_libraries :: "dl_phdr_info \<Rightarrow> string option \<Rightarrow> bool" where
  "in_extra_libraries info extra =
    (case extra of
      None \<Rightarrow> False
    | Some e \<Rightarrow>
        let library_name = basename (dlpi_name info) in
        if library_name = [] then False else find_library e library_name)"

section \<open>Protection flags and effects\<close>

datatype prot_flag = PROT_READ | PROT_WRITE | PROT_EXEC

definition segment_flags_to_access_flags :: "Elf64_Phdr \<Rightarrow> prot_flag set" where
  "segment_flags_to_access_flags phdr =
    (if ph_x phdr then {PROT_EXEC} else {}) \<union> (if ph_w phdr then {PROT_WRITE} else {})
    \<union> (if ph_r phdr then {PROT_READ} else {})"

text \<open>What is done to memory, in order: a page is read, or a range is tagged.\<close>
datatype mem_op = Probe nat | Mprotect (mp_start: nat) (mp_len: nat) (mp_prot: "prot_flag set") (mp_key: nat)

datatype stop = EXIT | ASSERT_FAILED

type_synonym 'a step = "stop + 'a"

text \<open>The parameter: does tagging a range succeed?\<close>
type_synonym mprotect_ok = "nat \<Rightarrow> nat \<Rightarrow> prot_flag set \<Rightarrow> nat \<Rightarrow> bool"

definition ia2_mprotect_with_tag :: "mprotect_ok \<Rightarrow> nat \<Rightarrow> nat \<Rightarrow> prot_flag set \<Rightarrow> nat \<Rightarrow> mem_op list step" where
  "ia2_mprotect_with_tag ok a len prot key = (if ok a len prot key then Inr [Mprotect a len prot key] else Inl EXIT)"

fun bind_step :: "mem_op list step \<Rightarrow> mem_op list step \<Rightarrow> mem_op list step" where
  "bind_step (Inl e) k = Inl e"
| "bind_step (Inr ops) (Inl e) = Inl e"
| "bind_step (Inr ops) (Inr ops') = Inr (ops @ ops')"

section \<open>Segments without their shared ranges\<close>

type_synonym addr_range = "nat \<times> nat"

text \<open>One pass over the shared ranges, moving the start past them and the end before them.\<close>
fun trim :: "addr_range list \<Rightarrow> nat \<Rightarrow> nat \<Rightarrow> nat \<times> nat" where
  "trim [] start cur_end = (start, cur_end)"
| "trim ((a, b) # rs) start cur_end =
    (let start' = (if a \<le> start \<and> b > start then b else start);
         cur_end' = (if a > start' \<and> a < cur_end then a else cur_end)
     in trim rs start' cur_end')"

lemma trim_mono: "trim rs s e = (s', e') \<Longrightarrow> s \<le> s' \<and> e' \<le> e"
  by (induction rs s e rule: trim.induct) (fastforce simp: Let_def split: if_splits)+

lemma trim_progress: "trim rs s e = (s', e') \<Longrightarrow> s < e \<Longrightarrow> s' = s \<Longrightarrow> s < e'"
proof (induction rs s e rule: trim.induct)
  case (2 a b rs s e)
  let ?s = "if a \<le> s \<and> b > s then b else s"
  let ?e = "if a > ?s \<and> a < e then a else e"
  have t: "trim rs ?s ?e = (s', e')" using "2.prems"(1) by (simp add: Let_def)
  have "?s = s" using trim_mono [OF t] "2.prems"(3) by (auto split: if_splits)
  then show ?case using "2.IH" [OF refl refl t] "2.prems" by (auto split: if_splits)
qed simp

definition probes :: "nat \<Rightarrow> nat \<Rightarrow> mem_op list" where
  "probes start len = map (\<lambda>i. Probe (start + i * PAGE_SIZE)) [0..<(len + PAGE_SIZE - 1) div PAGE_SIZE]"

function protect_range ::
  "mprotect_ok \<Rightarrow> addr_range list \<Rightarrow> prot_flag set \<Rightarrow> nat \<Rightarrow> nat \<Rightarrow> nat \<Rightarrow> mem_op list step"
where
  "protect_range ok shared prot key start seg_end =
    (if start < seg_end then
       case trim shared start seg_end of
         (start', cur_end) \<Rightarrow>
           if cur_end > start' then
             bind_step (bind_step (Inr (probes start' (cur_end - start')))
                 (ia2_mprotect_with_tag ok start' (cur_end - start') prot key))
               (protect_range ok shared prot key cur_end seg_end)
           else protect_range ok shared prot key start' seg_end
     else Inr [])"
  by pat_completeness auto
termination
proof (relation "measure (\<lambda>(ok, shared, prot, key, start, seg_end). seg_end - start)", goal_cases)
  case (2 ok shared prot key start seg_end s' e')
  then have "trim shared start seg_end = (s', e')" by simp
  then show ?case using trim_mono 2 by fastforce
next
  case (3 ok shared prot key start seg_end s' e')
  then have t: "trim shared start seg_end = (s', e')" by simp
  then have "start < s'" using trim_mono [OF t] trim_progress [OF t] 3 by (cases "s' = start") auto
  then show ?case using 3 by auto
qed simp

declare protect_range.simps [simp del]

section \<open>The callback for segments\<close>

definition page_up :: "nat \<Rightarrow> nat" where
  "page_up x = page_down (usize_add x 0xFFF)"

text \<open>The shared sections up to the first null entry, at most four; unaligned bounds end the process.\<close>
fun shared_section_ranges :: "nat \<Rightarrow> IA2SharedSection list \<Rightarrow> addr_range list option" where
  "shared_section_ranges 0 secs = Some []"
| "shared_section_ranges (Suc n) [] = Some []"
| "shared_section_ranges (Suc n) (sec # secs) =
    (if sec_start sec = 0 \<or> sec_end sec = 0 then Some []
     else if page_down (sec_start sec) \<noteq> sec_start sec then None
     else if page_up (sec_end sec) \<noteq> sec_end sec then None
     else map_option (Cons (sec_start sec, sec_end sec)) (shared_section_ranges n secs))"

definition segment_start :: "dl_phdr_info \<Rightarrow> Elf64_Phdr \<Rightarrow> nat" where
  "segment_start info phdr = page_down (usize_add (dlpi_addr info) (p_vaddr phdr))"

definition segment_end :: "dl_phdr_info \<Rightarrow> Elf64_Phdr \<Rightarrow> nat" where
  "segment_end info phdr = page_up (usize_add (usize_add (dlpi_addr info) (p_vaddr phdr)) (p_memsz phdr))"

definition relro_range :: "dl_phdr_info \<Rightarrow> addr_range list" where
  "relro_range info =
    (case List.find (\<lambda>ph. ph_type ph = PT_GNU_RELRO) (dlpi_phdr info) of
      None \<Rightarrow> []
    | Some ph \<Rightarrow> [(segment_start info ph, segment_end info ph)])"

definition protect_segment :: "mprotect_ok \<Rightarrow> dl_phdr_info \<Rightarrow> addr_range list \<Rightarrow> nat \<Rightarrow> Elf64_Phdr \<Rightarrow> mem_op list step" where
  "protect_segment ok info shared key phdr =
    (if ph_type phdr \<noteq> PT_LOAD then Inr []
     else if \<not> ph_w phdr then Inr []
     else protect_range ok shared (segment_flags_to_access_flags phdr) key
       (segment_start info phdr) (segment_end info phdr))"

definition strstr :: "string \<Rightarrow> string \<Rightarrow> bool" where
  "strstr s sub = list_ex (\<lambda>i. take (length sub) (drop i s) = sub) [0..<Suc (length s)]"

text \<open>
  \<open>libc\<close> says whether the runtime is built with a compartment for the C library.
  The result is the argument record with the count of libraries found, and the
  operations on memory.
\<close>
definition protect_pages ::
  "mprotect_ok \<Rightarrow> bool \<Rightarrow> dl_phdr_info \<Rightarrow> PhdrSearchArgs \<Rightarrow> stop + (PhdrSearchArgs \<times> mem_op list)"
where
  "protect_pages ok libc info args =
    (let extra = in_extra_libraries info (extra_libraries args);
         libname = basename (dlpi_name info);
         syslib = (libc \<and> (libname = ''ld-linux-x86-64.so.2'' \<or> libname = ''ld-linux-aarch64.so.1''
                            \<or> strstr libname ''libc.so'') \<and> pkey args = 1)
     in if \<not> in_loaded_segment info (address args) \<and> \<not> extra \<and> \<not> syslib then Inr (args, [])
     else
       let args' = (if extra then args\<lparr>found_library_count := found_library_count args + 1\<rparr> else args)
       in case shared_section_ranges IA2_MAX_NUM_SHARED_SECTION_COUNT
              (case shared_sections args of None \<Rightarrow> [] | Some secs \<Rightarrow> secs) of
         None \<Rightarrow> Inl EXIT
       | Some ranges \<Rightarrow>
           let shared = ranges @ relro_range info in
           if length (dlpi_phdr info) > MAX_NUM_PHDRS then Inl ASSERT_FAILED
           else (case foldr (\<lambda>ph rest. bind_step (protect_segment ok info shared (pkey args) ph) rest)
                  (dlpi_phdr info) (Inr []) of
             Inl e \<Rightarrow> Inl e
           | Inr ops \<Rightarrow> Inr (args', ops)))"

section \<open>The callback for thread-local storage\<close>

text \<open>
  \<open>sp0\<close> is the address of \<open>ia2_stackptr_0\<close> in this thread.  A segment that is not
  padded, or a stack pointer that does not start a page, ends the process.
\<close>
definition protect_tls_segment ::
  "mprotect_ok \<Rightarrow> dl_phdr_info \<Rightarrow> nat \<Rightarrow> nat \<Rightarrow> Elf64_Phdr \<Rightarrow> mem_op list step"
where
  "protect_tls_segment ok info sp0 key phdr =
    (if ph_type phdr \<noteq> PT_TLS then Inr []
     else
       let start = dlpi_tls_data info;
           start_round_down = page_down start;
           start_moved_by = start mod PAGE_SIZE;
           len_round_up = page_down (usize_add (p_memsz phdr) start_moved_by);
           end = usize_add start_round_down len_round_up;
           rw = {PROT_READ, PROT_WRITE}
       in if len_round_up = 0 then Inl EXIT
       else if sp0 mod PAGE_SIZE \<noteq> 0 then Inl EXIT
       else if start \<le> sp0 \<and> sp0 < end then
         if key \<noteq> 1 then Inl ASSERT_FAILED
         else
           let after = usize_add sp0 PAGE_SIZE; after_len = usize_sub end after in
           bind_step
             (if sp0 > start_round_down
              then ia2_mprotect_with_tag ok start_round_down (sp0 - start_round_down) rw key else Inr [])
             (if after_len > 0 then ia2_mprotect_with_tag ok after after_len rw key else Inr [])
       else ia2_mprotect_with_tag ok start_round_down len_round_up rw key)"

definition protect_tls_pages ::
  "mprotect_ok \<Rightarrow> nat \<Rightarrow> dl_phdr_info \<Rightarrow> PhdrSearchArgs \<Rightarrow> mem_op list step"
where
  "protect_tls_pages ok sp0 info args =
    (if \<not> in_loaded_segment info (address args) then Inr []
     else foldr (\<lambda>ph rest. bind_step (protect_tls_segment ok info sp0 (pkey args) ph) rest)
       (dlpi_phdr info) (Inr []))"

definition ia2_unprotect_thread_pointer_page :: "mprotect_ok \<Rightarrow> nat \<Rightarrow> mem_op list step" where
  "ia2_unprotect_thread_pointer_page ok tp =
    ia2_mprotect_with_tag ok (page_down tp) PAGE_SIZE {PROT_READ, PROT_WRITE} 0"

section \<open>Padding the thread-local segment of a file\<close>

datatype patch_result = PATCH_SUCCESS | BAD_MAGIC | WRONG_ARCH | NO_TLS

record elf_file =
  elf_magic :: bool
  elf_machine :: string
  elf_phdrs :: "Elf64_Phdr list"

definition delta :: nat where
  "delta = 4096"

text \<open>The first thread-local header is enlarged; the new size is returned.\<close>
fun patch_phdrs :: "nat \<Rightarrow> Elf64_Phdr list \<Rightarrow> (nat \<times> Elf64_Phdr list) option" where
  "patch_phdrs d [] = None"
| "patch_phdrs d (ph # phs) =
    (if ph_type ph = PT_TLS
     then let n = usize_add (p_memsz ph) d in Some (n, ph\<lparr>p_memsz := n\<rparr> # phs)
     else map_option (\<lambda>(n, phs'). (n, ph # phs')) (patch_phdrs d phs))"

definition patch_tls :: "elf_file \<Rightarrow> nat \<Rightarrow> patch_result \<times> nat \<times> elf_file" where
  "patch_tls elf d =
    (if \<not> elf_magic elf then (BAD_MAGIC, 0, elf)
     else if elf_machine elf \<noteq> ''EM_X86_64'' \<and> elf_machine elf \<noteq> ''EM_AARCH64'' then (WRONG_ARCH, 0, elf)
     else case patch_phdrs d (elf_phdrs elf) of
       None \<Rightarrow> (NO_TLS, 0, elf)
     | Some (n, phs) \<Rightarrow> (PATCH_SUCCESS, n, elf\<lparr>elf_phdrs := phs\<rparr>))"

fun patch_result_code :: "patch_result \<Rightarrow> int" where
  "patch_result_code PATCH_SUCCESS = 0"
| "patch_result_code BAD_MAGIC = 1"
| "patch_result_code WRONG_ARCH = 2"
| "patch_result_code NO_TLS = 3"

text \<open>
  \<open>main\<close> of the tool on its arguments, the first of them the program name; \<open>files\<close> gives the file
  behind a name, \<^term>\<open>None\<close> if it cannot be opened or mapped.  The result is the exit
  code and the file as it is afterwards.
\<close>
definition pad_tls_main :: "(string \<Rightarrow> elf_file option) \<Rightarrow> string list \<Rightarrow> int \<times> (string \<times> elf_file) option" where
  "pad_tls_main files argv =
    (let (chosen, allow_no_tls) =
       (if length argv > 2 \<and> argv ! 1 = ''--allow-no-tls'' then (Some (argv ! 2), True)
        else if length argv = 2 then (Some (argv ! 1), False) else (None, False))
     in case chosen of
       None \<Rightarrow> (1, None)
     | Some filename \<Rightarrow>
         (case files filename of
           None \<Rightarrow> (1, None)
         | Some elf \<Rightarrow>
             (case patch_tls elf delta of
               (result, _, elf') \<Rightarrow>
                 if result \<noteq> PATCH_SUCCESS then
                   (if allow_no_tls \<and> result = NO_TLS then 0 else patch_result_code result, Some (filename, elf'))
                 else (0, Some (filename, elf')))))"

end
