(* ===== verification/Protect_Laws.thy ===== *)
theory Protect_Laws
  imports Protect_Pages "HOL-Library.Sublist"
begin

text \<open>
  Correctness of the start-up protection: the pages that are tagged are exactly
  the writable segments without the shared ranges, the padding added to a file
  makes its thread-local storage fit whole pages, and the search of the list of
  extra libraries against a definition by entries.
\<close>

section \<open>Tagged memory\<close>

definition tagged :: "mem_op list \<Rightarrow> nat set" where
  "tagged ops = (\<Union>op \<in> set ops. case op of Probe _ \<Rightarrow> {} | Mprotect a n _ _ \<Rightarrow> {a..<a + n})"

definition shared_bytes :: "addr_range list \<Rightarrow> nat set" where
  "shared_bytes rs = (\<Union>(a, b) \<in> set rs. {a..<b})"

text \<open>Every tagging uses this key and these flags.\<close>
definition keyed :: "nat \<Rightarrow> mem_op list \<Rightarrow> bool" where
  "keyed key ops \<longleftrightarrow> (\<forall>a n p k. Mprotect a n p k \<in> set ops \<longrightarrow> k = key)"

text \<open>Every page is read before it is tagged.\<close>
definition probed :: "mem_op list \<Rightarrow> bool" where
  "probed ops \<longleftrightarrow> (\<forall>pre a n p k post x. ops = pre @ Mprotect a n p k # post \<and> a \<le> x \<and> x < a + n \<longrightarrow>
     (\<exists>y. Probe y \<in> set pre \<and> y \<le> x \<and> x < y + PAGE_SIZE))"

lemma tagged_simps [simp]:
  "tagged [] = {}" "tagged (Probe a # ops) = tagged ops"
  "tagged (Mprotect a n p k # ops) = {a..<a + n} \<union> tagged ops"
  "tagged (xs @ ys) = tagged xs \<union> tagged ys"
  by (auto simp: tagged_def)

lemma tagged_probes [simp]: "tagged (probes a n) = {}"
  by (auto simp: tagged_def probes_def)

lemma keyed_simps [simp]:
  "keyed key []" "keyed key (Probe a # ops) = keyed key ops"
  "keyed key (Mprotect a n p k # ops) \<longleftrightarrow> k = key \<and> keyed key ops"
  "keyed key (xs @ ys) \<longleftrightarrow> keyed key xs \<and> keyed key ys" "keyed key (probes a n)"
  by (auto simp: keyed_def probes_def)

lemma probed_append: "probed xs \<Longrightarrow> probed ys \<Longrightarrow> probed (xs @ ys)"
  unfolding probed_def
  by (fastforce simp: append_eq_append_conv2 append_eq_Cons_conv Cons_eq_append_conv)

lemma probes_cover:
  assumes "a \<le> x" "x < a + n"
  shows "\<exists>y. Probe y \<in> set (probes a n) \<and> y \<le> x \<and> x < y + PAGE_SIZE"
proof -
  let ?i = "(x - a) div PAGE_SIZE"
  have "?i < (n + PAGE_SIZE - 1) div PAGE_SIZE"
  proof -
    have "(x - a) div PAGE_SIZE * PAGE_SIZE \<le> x - a" by (rule div_times_less_eq_dividend)
    moreover have "Suc ?i * PAGE_SIZE = (x - a) div PAGE_SIZE * PAGE_SIZE + PAGE_SIZE" by simp
    ultimately have "Suc ?i * PAGE_SIZE \<le> n + PAGE_SIZE - 1" using assms by linarith
    then have "Suc ?i \<le> (n + PAGE_SIZE - 1) div PAGE_SIZE" by (subst less_eq_div_iff_mult_less_eq) simp_all
    then show ?thesis by simp
  qed
  then have "Probe (a + ?i * PAGE_SIZE) \<in> set (probes a n)" unfolding probes_def by auto
  moreover have "x - a < ?i * PAGE_SIZE + PAGE_SIZE" using dividend_less_div_times [of PAGE_SIZE "x - a"] by simp
  moreover have "?i * PAGE_SIZE \<le> x - a" by (rule div_times_less_eq_dividend)
  moreover from this have "a + ?i * PAGE_SIZE \<le> x" using assms(1) by linarith
  ultimately show ?thesis using assms by (intro exI [of _ "a + ?i * PAGE_SIZE"] conjI) (assumption, linarith+)
qed

lemma probed_block: "probed (probes a n @ [Mprotect a n p k])"
proof -
  have "Mprotect a' n' p' k' \<notin> set (probes a n)" for a' n' p' k' by (auto simp: probes_def)
  then have "pre = probes a n \<and> a' = a \<and> n' = n"
    if "probes a n @ [Mprotect a n p k] = pre @ Mprotect a' n' p' k' # post" for pre a' n' p' k' post
    using that by (auto simp: append_eq_append_conv2 append_eq_Cons_conv Cons_eq_append_conv) (metis in_set_conv_decomp)+
  then show ?thesis unfolding probed_def using probes_cover by metis
qed

lemma probed_Nil [simp]: "probed []"
  by (simp add: probed_def)

section \<open>One segment\<close>

lemma trim_skips: "trim rs s e = (s', e') \<Longrightarrow> {s..<s'} \<subseteq> shared_bytes rs"
proof (induction rs s e rule: trim.induct)
  case (2 a b rs s e)
  let ?s = "if a \<le> s \<and> b > s then b else s"
  have "{?s..<s'} \<subseteq> shared_bytes rs" using "2.IH" [OF refl refl] "2.prems" by (simp add: Let_def)
  moreover have "{s..<?s} \<subseteq> {a..<b}" by auto
  moreover have "{s..<s'} \<subseteq> {s..<?s} \<union> {?s..<s'}" by auto
  ultimately have "{s..<s'} \<subseteq> {a..<b} \<union> shared_bytes rs" by blast
  then show ?case by (simp add: shared_bytes_def)
qed simp

lemma trim_keeps: "trim rs s e = (s', e') \<Longrightarrow> {s'..<e'} \<inter> shared_bytes rs = {}"
proof (induction rs s e rule: trim.induct)
  case (2 a b rs s e)
  let ?s = "if a \<le> s \<and> b > s then b else s"
  let ?e = "if a > ?s \<and> a < e then a else e"
  have t: "trim rs ?s ?e = (s', e')" using "2.prems" by (simp add: Let_def)
  have "{?s..<?e} \<inter> {a..<b} = {}" by auto
  then have "{s'..<e'} \<inter> {a..<b} = {}" using trim_mono [OF t] by (auto simp: disjoint_iff)
  moreover have "{s'..<e'} \<inter> shared_bytes rs = {}" using "2.IH" [OF refl refl] t by simp
  ultimately show ?case by (auto simp: shared_bytes_def)
qed (simp add: shared_bytes_def)

lemma bind_step_Inr: "bind_step x y = Inr ops \<longleftrightarrow> (\<exists>xs ys. x = Inr xs \<and> y = Inr ys \<and> ops = xs @ ys)"
  by (cases "(x, y)" rule: bind_step.cases) auto

lemma protect_range_exact:
  "protect_range ok shared prot key start seg_end = Inr ops \<Longrightarrow>
    tagged ops = {start..<seg_end} - shared_bytes shared \<and> keyed key ops \<and> probed ops"
proof (induction ok shared prot key start seg_end arbitrary: ops rule: protect_range.induct)
  case (1 ok shared prot key start seg_end)
  show ?case
  proof (cases "start < seg_end")
    case True
    obtain s e where t: "trim shared start seg_end = (s, e)" by fastforce
    note m = trim_mono [OF t] and sk = trim_skips [OF t] and kp = trim_keeps [OF t]
    show ?thesis
    proof (cases "s < e")
      case se: True
      then obtain ops' where ops': "protect_range ok shared prot key e seg_end = Inr ops'"
        and ops: "ops = probes s (e - s) @ [Mprotect s (e - s) prot key] @ ops'"
        using "1.prems" True t
        by (subst (asm) protect_range.simps) (auto simp: bind_step_Inr ia2_mprotect_with_tag_def split: if_splits)
      have IH: "tagged ops' = {e..<seg_end} - shared_bytes shared" "keyed key ops'" "probed ops'"
        using "1.IH"(1) [OF True t [symmetric] se ops'] by simp_all
      have "{start..<seg_end} = {start..<s} \<union> {s..<e} \<union> {e..<seg_end}" using m se by auto
      then have "{start..<seg_end} - shared_bytes shared = {s..<e} \<union> ({e..<seg_end} - shared_bytes shared)"
        using sk kp by auto
      moreover have "probed ((probes s (e - s) @ [Mprotect s (e - s) prot key]) @ ops')"
        by (intro probed_append probed_block IH)
      ultimately show ?thesis using ops IH se by simp
    next
      case se: False
      then have "protect_range ok shared prot key s seg_end = Inr ops"
        using "1.prems" True t by (subst (asm) protect_range.simps) simp
      from "1.IH"(2) [OF True t [symmetric] se this]
      have "tagged ops = {s..<seg_end} - shared_bytes shared" "keyed key ops" "probed ops" by simp_all
      moreover have "{start..<seg_end} \<subseteq> {start..<s} \<union> {s..<seg_end}" "{s..<seg_end} \<subseteq> {start..<seg_end}"
        using m by auto
      then have "{start..<seg_end} - shared_bytes shared = {s..<seg_end} - shared_bytes shared"
        using sk by blast
      ultimately show ?thesis by simp
    qed
  next
    case False
    then show ?thesis using "1.prems" by (subst (asm) protect_range.simps) simp
  qed
qed

lemma protect_range_returns:
  "ok = (\<lambda>_ _ _ _. True) \<Longrightarrow> \<exists>ops. protect_range ok shared prot key start seg_end = Inr ops"
proof (induction ok shared prot key start seg_end rule: protect_range.induct)
  case (1 ok shared prot key start seg_end)
  obtain s e where t: "trim shared start seg_end = (s, e)" by fastforce
  then show ?case
    using "1.IH"(1) [OF _ t [symmetric]] "1.IH"(2) [OF _ t [symmetric]] "1.prems"
    by (subst protect_range.simps) (auto simp: ia2_mprotect_with_tag_def)
qed

section \<open>A whole object\<close>

definition segment_bytes :: "dl_phdr_info \<Rightarrow> Elf64_Phdr \<Rightarrow> nat set" where
  "segment_bytes info ph =
    (if ph_type ph = PT_LOAD \<and> ph_w ph then {segment_start info ph..<segment_end info ph} else {})"

lemma protect_segment_exact:
  assumes "protect_segment ok info shared key ph = Inr ops"
  shows "tagged ops = segment_bytes info ph - shared_bytes shared \<and> keyed key ops \<and> probed ops"
  using assms protect_range_exact
  by (auto simp: protect_segment_def segment_bytes_def split: if_splits)

lemma protect_segments_exact:
  assumes "foldr (\<lambda>ph rest. bind_step (protect_segment ok info shared key ph) rest) phs (Inr []) = Inr ops"
  shows "tagged ops = (\<Union>ph \<in> set phs. segment_bytes info ph) - shared_bytes shared \<and> keyed key ops \<and> probed ops"
  using assms
proof (induction phs arbitrary: ops)
  case (Cons ph phs)
  then obtain xs ys where "protect_segment ok info shared key ph = Inr xs"
    "foldr (\<lambda>ph rest. bind_step (protect_segment ok info shared key ph) rest) phs (Inr []) = Inr ys" "ops = xs @ ys"
    by (auto simp: bind_step_Inr)
  then show ?case using Cons.IH protect_segment_exact [of ok info shared key ph xs] probed_append by fastforce
qed simp

lemma protect_segments_return:
  assumes "ok = (\<lambda>_ _ _ _. True)"
  shows "\<exists>ops. foldr (\<lambda>ph rest. bind_step (protect_segment ok info shared key ph) rest) phs (Inr []) = Inr ops"
proof (induction phs)
  case (Cons ph phs)
  moreover have "\<exists>ops. protect_segment ok info shared key ph = Inr ops"
    using protect_range_returns [OF assms] by (simp add: protect_segment_def)
  ultimately show ?case by auto
qed simp

text \<open>The object is in scope for these arguments (on a build without a compartment for the C library).\<close>
definition in_scope :: "dl_phdr_info \<Rightarrow> PhdrSearchArgs \<Rightarrow> bool" where
  "in_scope info args \<longleftrightarrow> in_loaded_segment info (address args) \<or> in_extra_libraries info (extra_libraries args)"

text \<open>
  C12. Start-up tags exactly the private writable memory of an object.  For every
  object in scope with at most twenty headers and any page-aligned shared
  sections, \<open>protect_pages\<close> returns when tagging succeeds.  What it has tagged
  then, and in every other case in which it returns, is the union of the writable
  loaded segments rounded to pages, minus the shared sections and the RELRO
  segment, in whatever order and overlap these come; all of it carries the key of
  the compartment, and every page was read before it was tagged.
\<close>
theorem protect_pages_exact:
  assumes scope: "in_scope info args"
    and secs: "shared_section_ranges IA2_MAX_NUM_SHARED_SECTION_COUNT
        (case shared_sections args of None \<Rightarrow> [] | Some secs \<Rightarrow> secs) = Some ranges"
    and hdrs: "length (dlpi_phdr info) \<le> MAX_NUM_PHDRS"
  shows "((\<forall>a n p k. ok a n p k) \<longrightarrow> (\<exists>r. protect_pages ok False info args = Inr r)) \<and>
    (\<forall>args' ops. protect_pages ok False info args = Inr (args', ops) \<longrightarrow>
      tagged ops = (\<Union>ph \<in> set (dlpi_phdr info). segment_bytes info ph) - shared_bytes (ranges @ relro_range info) \<and>
      keyed (pkey args) ops \<and> probed ops)"
proof (intro conjI impI allI)
  assume "\<forall>a n p k. ok a n p k"
  then have "ok = (\<lambda>_ _ _ _. True)" by (simp add: fun_eq_iff)
  then show "\<exists>r. protect_pages ok False info args = Inr r"
    using protect_segments_return [of ok info "ranges @ relro_range info" "pkey args" "dlpi_phdr info"] scope secs hdrs
    by (auto simp: protect_pages_def in_scope_def Let_def)
next
  fix args' ops
  assume "protect_pages ok False info args = Inr (args', ops)"
  then have "foldr (\<lambda>ph rest. bind_step (protect_segment ok info (ranges @ relro_range info) (pkey args) ph) rest)
      (dlpi_phdr info) (Inr []) = Inr ops"
    using scope secs hdrs by (auto simp: protect_pages_def in_scope_def Let_def split: sum.splits if_splits)
  from protect_segments_exact [OF this]
  show "tagged ops = (\<Union>ph \<in> set (dlpi_phdr info). segment_bytes info ph) - shared_bytes (ranges @ relro_range info)"
    "keyed (pkey args) ops" "probed ops" by simp_all
qed

definition sample_info :: dl_phdr_info where
  "sample_info =
    \<lparr>dlpi_addr = 0x10000, dlpi_name = ''libfoo.so'',
     dlpi_phdr = [\<lparr>ph_type = PT_LOAD, ph_r = True, ph_w = False, ph_x = True, p_vaddr = 0, p_memsz = 0x1000\<rparr>,
       \<lparr>ph_type = PT_LOAD, ph_r = True, ph_w = True, ph_x = False, p_vaddr = 0x1800, p_memsz = 0x3000\<rparr>,
       \<lparr>ph_type = PT_GNU_RELRO, ph_r = True, ph_w = False, ph_x = False, p_vaddr = 0x1800, p_memsz = 0x800\<rparr>],
     dlpi_tls_data = 0\<rparr>"

definition sample_args :: PhdrSearchArgs where
  "sample_args =
    \<lparr>pkey = 3, address = 0x10010, extra_libraries = None, found_library_count = 0,
     shared_sections = Some [\<lparr>sec_start = 0x13000, sec_end = 0x14000\<rparr>, \<lparr>sec_start = 0, sec_end = 0\<rparr>]\<rparr>"

theorem protect_pages_exact_witness:
  "\<exists>args' ops. protect_pages (\<lambda>_ _ _ _. True) False sample_info sample_args = Inr (args', ops) \<and>
    tagged ops = {0x12000..<0x13000} \<union> {0x14000..<0x15000} \<and> keyed 3 ops \<and> probed ops"
proof -
  have scope: "in_scope sample_info sample_args"
    by (simp add: in_scope_def in_loaded_segment_def in_segment_def sample_info_def sample_args_def usize_add_def usize_bound_def)
  have four: "IA2_MAX_NUM_SHARED_SECTION_COUNT = Suc (Suc (Suc (Suc 0)))"
    by (simp add: IA2_MAX_NUM_SHARED_SECTION_COUNT_def)
  have secs: "shared_section_ranges IA2_MAX_NUM_SHARED_SECTION_COUNT
      (case shared_sections sample_args of None \<Rightarrow> [] | Some secs \<Rightarrow> secs) = Some [(0x13000, 0x14000)]"
    by (simp add: sample_args_def four page_up_def page_down_def
        PAGE_SIZE_def usize_add_def usize_bound_def)
  have hdrs: "length (dlpi_phdr sample_info) \<le> MAX_NUM_PHDRS"
    by (simp add: sample_info_def MAX_NUM_PHDRS_def)
  note pp = protect_pages_exact [OF scope secs hdrs, of "\<lambda>_ _ _ _. True"]
  obtain args' ops where r: "protect_pages (\<lambda>_ _ _ _. True) False sample_info sample_args = Inr (args', ops)"
    using pp [THEN conjunct1] by (metis surj_pair)
  have t: "tagged ops = (\<Union>ph \<in> set (dlpi_phdr sample_info). segment_bytes sample_info ph)
      - shared_bytes ([(0x13000, 0x14000)] @ relro_range sample_info)"
    and k: "keyed (pkey sample_args) ops" "probed ops"
    using pp [THEN conjunct2, rule_format, OF r] by simp_all
  have "(\<Union>ph \<in> set (dlpi_phdr sample_info). segment_bytes sample_info ph) = {0x11000..<0x15000}"
    by (simp add: sample_info_def segment_bytes_def segment_start_def segment_end_def page_up_def page_down_def
        PAGE_SIZE_def usize_add_def usize_bound_def)
  moreover have "shared_bytes ([(0x13000, 0x14000)] @ relro_range sample_info) = {0x13000..<0x14000} \<union> {0x11000..<0x12000}"
    by (simp add: sample_info_def relro_range_def shared_bytes_def segment_start_def segment_end_def page_up_def page_down_def
        PAGE_SIZE_def usize_add_def usize_bound_def)
  ultimately have "tagged ops = {0x12000..<0x13000} \<union> {0x14000..<0x15000}" using t by auto
  then show ?thesis using r k by (auto simp: sample_args_def)
qed

section \<open>Thread-local storage\<close>

lemma patch_phdrs_Some:
  "patch_phdrs d phs = Some (n, phs') \<Longrightarrow> \<exists>pre ph post. phs = pre @ ph # post \<and> (\<forall>q \<in> set pre. ph_type q \<noteq> PT_TLS) \<and>
    ph_type ph = PT_TLS \<and> n = usize_add (p_memsz ph) d \<and> phs' = pre @ ph\<lparr>p_memsz := n\<rparr> # post"
proof (induction phs arbitrary: phs')
  case (Cons q phs)
  show ?case
  proof (cases "ph_type q = PT_TLS")
    case True
    then show ?thesis using Cons.prems by (intro exI [of _ "[]"]) (auto simp: Let_def)
  next
    case False
    then obtain phs1 where p: "patch_phdrs d phs = Some (n, phs1)" "phs' = q # phs1"
      using Cons.prems by auto
    from Cons.IH [OF p(1)] obtain pre ph post where
      "phs = pre @ ph # post" "\<forall>q \<in> set pre. ph_type q \<noteq> PT_TLS" "ph_type ph = PT_TLS"
      "n = usize_add (p_memsz ph) d" "phs1 = pre @ ph\<lparr>p_memsz := n\<rparr> # post" by blast
    then show ?thesis using False p(2) by (intro exI [of _ "q # pre"] exI [of _ ph] exI [of _ post]) simp
  qed
qed simp

lemma protect_tls_padded:
  fixes info :: dl_phdr_info and ph :: Elf64_Phdr
  defines "S \<equiv> dlpi_tls_data info"
  assumes ph: "ph_type ph = PT_TLS" "p_memsz ph = m + PAGE_SIZE" and fits: "S + m + PAGE_SIZE < usize_bound"
    and sp0: "page_aligned sp0" "sp0 + PAGE_SIZE < usize_bound" "sp0 < page_down S \<or> S \<le> sp0"
    and key: "key = 1 \<or> sp0 < S \<or> S + m + PAGE_SIZE \<le> sp0"
  shows "\<exists>ops hi. protect_tls_segment (\<lambda>_ _ _ _. True) info sp0 key ph = Inr ops \<and>
    tagged ops = {page_down S..<hi} - {sp0..<sp0 + PAGE_SIZE} \<and> S + m < hi \<and> hi \<le> S + m + PAGE_SIZE \<and>
    keyed key ops"
proof -
  let ?mv = "S mod PAGE_SIZE"
  let ?len = "page_down (m + PAGE_SIZE + ?mv)"
  have S: "page_down S + ?mv = S" by (simp add: page_down_def)
  have mv: "?mv \<le> S" by simp
  have add1: "usize_add (p_memsz ph) ?mv = m + PAGE_SIZE + ?mv"
    unfolding ph(2) by (rule usize_add_exact) (use fits mv in linarith)
  have len_le: "?len \<le> m + PAGE_SIZE + ?mv" by (rule page_down_le)
  have len_gt: "m + ?mv < ?len" using page_down_gt [of "m + PAGE_SIZE + ?mv"] by linarith
  let ?hi = "page_down S + ?len"
  have hi: "S + m < ?hi" "?hi \<le> S + m + PAGE_SIZE" using S len_le len_gt by linarith+
  have add2: "usize_add (page_down S) ?len = ?hi" by (rule usize_add_exact) (use hi fits in linarith)
  have al: "page_aligned ?hi"
    using page_down_aligned [of S] page_down_aligned [of "m + PAGE_SIZE + ?mv"]
    by (auto simp: page_aligned_iff simp flip: distrib_left)
  have add3: "usize_add sp0 PAGE_SIZE = sp0 + PAGE_SIZE" using sp0(2) by (simp add: usize_add_exact)
  have mod0: "sp0 mod PAGE_SIZE = 0" using sp0(1) by (simp add: page_aligned_def)
  note eval = protect_tls_segment_def ph(1) Let_def S_def [symmetric] add1 add2 add3 mod0 ia2_mprotect_with_tag_def
  show ?thesis
  proof (cases "S \<le> sp0 \<and> sp0 < ?hi")
    case True
    then have k: "key = 1" using key hi(2) by linarith
    have le: "sp0 + PAGE_SIZE \<le> ?hi" using aligned_less_step [OF sp0(1) al] True by simp
    have sub: "usize_sub ?hi (sp0 + PAGE_SIZE) = ?hi - (sp0 + PAGE_SIZE)"
      using le hi fits by (intro usize_sub_exact) linarith+
    have lo: "page_down S \<le> sp0" using True page_down_le [of S] by linarith
    let ?a = "if page_down S < sp0 then [Mprotect (page_down S) (sp0 - page_down S) {PROT_READ, PROT_WRITE} 1] else []"
    let ?b = "if 0 < ?hi - (sp0 + PAGE_SIZE) then [Mprotect (sp0 + PAGE_SIZE) (?hi - (sp0 + PAGE_SIZE)) {PROT_READ, PROT_WRITE} 1] else []"
    have "protect_tls_segment (\<lambda>_ _ _ _. True) info sp0 key ph = Inr (?a @ ?b)"
      using len_gt True by (simp add: eval sub k)
    moreover have "tagged (?a @ ?b) = {page_down S..<?hi} - {sp0..<sp0 + PAGE_SIZE}"
      using lo le by auto
    moreover have "keyed key (?a @ ?b)" by (simp add: k)
    ultimately show ?thesis using hi by blast
  next
    case False
    let ?ops = "[Mprotect (page_down S) ?len {PROT_READ, PROT_WRITE} key]"
    have "protect_tls_segment (\<lambda>_ _ _ _. True) info sp0 key ph = Inr ?ops"
      using len_gt by (simp only: eval if_not_P [OF False]) (simp add: Let_def)
    moreover have "{page_down S..<?hi} \<inter> {sp0..<sp0 + PAGE_SIZE} = {}"
      using False sp0(3) aligned_less_step [OF sp0(1) page_down_aligned [of S]] by auto
    then have "tagged ?ops = {page_down S..<?hi} - {sp0..<sp0 + PAGE_SIZE}" by auto
    moreover have "keyed key ?ops" by simp
    ultimately show ?thesis using hi by blast
  qed
qed

text \<open>
  C29. Padding a file and tagging its thread-local storage fit together.  Let the
  tool have padded a file, and let an object loaded from it have its block of
  thread-local storage at \<open>S\<close>.  Then the runtime does not refuse the segment, and
  the pages it tags contain every byte of the original variables except the page
  of the untrusted stack pointer, which is never tagged; and they contain no byte
  of the variables of another padded block, wherever that lies, even where two
  blocks meet on a page.  (The page of the untrusted stack pointer is not the
  page on which the block starts in mid-page; only compartment 1 holds it.)
\<close>
theorem padded_tls_isolated:
  fixes info :: dl_phdr_info
  defines "S \<equiv> dlpi_tls_data info"
  assumes patch: "patch_tls elf delta = (PATCH_SUCCESS, n, elf')"
    and fits: "\<forall>ph \<in> set (elf_phdrs elf). S + p_memsz ph + PAGE_SIZE < usize_bound"
    and sp0: "page_aligned sp0" "sp0 + PAGE_SIZE < usize_bound" "sp0 < page_down S \<or> S \<le> sp0"
    and key: "\<forall>ph \<in> set (elf_phdrs elf). key = 1 \<or> sp0 < S \<or> S + p_memsz ph + PAGE_SIZE \<le> sp0"
  shows "\<exists>pre ph ph' post ops. elf_phdrs elf = pre @ ph # post \<and> elf_phdrs elf' = pre @ ph' # post \<and>
    ph_type ph = PT_TLS \<and> ph' = ph\<lparr>p_memsz := p_memsz ph + PAGE_SIZE\<rparr> \<and>
    protect_tls_segment (\<lambda>_ _ _ _. True) info sp0 key ph' = Inr ops \<and> keyed key ops \<and>
    {S..<S + p_memsz ph} - {sp0..<sp0 + PAGE_SIZE} \<subseteq> tagged ops \<and>
    tagged ops \<inter> {sp0..<sp0 + PAGE_SIZE} = {} \<and>
    (\<forall>T m. T + m + PAGE_SIZE \<le> S \<or> S + p_memsz ph + PAGE_SIZE \<le> T \<longrightarrow> tagged ops \<inter> {T..<T + m} = {})"
proof -
  have d: "delta = PAGE_SIZE" by (simp add: delta_def PAGE_SIZE_def)
  obtain phs where pp: "patch_phdrs delta (elf_phdrs elf) = Some (n, phs)" "elf_phdrs elf' = phs"
    using patch by (auto simp: patch_tls_def split: if_splits option.splits)
  from patch_phdrs_Some [OF pp(1)] obtain pre ph post where ph: "elf_phdrs elf = pre @ ph # post" "ph_type ph = PT_TLS"
    "n = usize_add (p_memsz ph) delta" "phs = pre @ ph\<lparr>p_memsz := n\<rparr> # post" by blast
  have mem: "ph \<in> set (elf_phdrs elf)" by (simp add: ph(1))
  have f: "S + p_memsz ph + PAGE_SIZE < usize_bound" using fits mem by blast
  have n: "n = p_memsz ph + PAGE_SIZE" unfolding ph(3) d by (rule usize_add_exact) (use f in linarith)
  let ?ph = "ph\<lparr>p_memsz := p_memsz ph + PAGE_SIZE\<rparr>"
  have a: "ph_type ?ph = PT_TLS" "p_memsz ?ph = p_memsz ph + PAGE_SIZE" by (simp_all add: ph(2))
  have k: "key = 1 \<or> sp0 < S \<or> S + p_memsz ph + PAGE_SIZE \<le> sp0" using key mem by blast
  obtain ops hi where r: "protect_tls_segment (\<lambda>_ _ _ _. True) info sp0 key ?ph = Inr ops" "keyed key ops"
    and t: "tagged ops = {page_down S..<hi} - {sp0..<sp0 + PAGE_SIZE}" "S + p_memsz ph < hi" "hi \<le> S + p_memsz ph + PAGE_SIZE"
    using protect_tls_padded [of ?ph "p_memsz ph" info sp0 key] a f sp0 k unfolding S_def by blast
  define lo where "lo = page_down S"
  have near: "S < lo + PAGE_SIZE" "lo \<le> S" using page_down_gt [of S] by (simp_all add: lo_def)
  note t = t [folded lo_def]
  have "{S..<S + p_memsz ph} - {sp0..<sp0 + PAGE_SIZE} \<subseteq> tagged ops" using t near(2) by auto
  moreover have "tagged ops \<inter> {sp0..<sp0 + PAGE_SIZE} = {}" using t(1) by auto
  moreover have "tagged ops \<inter> {T..<T + m} = {}"
    if "T + m + PAGE_SIZE \<le> S \<or> S + p_memsz ph + PAGE_SIZE \<le> T" for T m
    using that t near by (auto simp: disjoint_iff)
  moreover have "elf_phdrs elf' = pre @ ?ph # post" using pp(2) ph(4) n by simp
  ultimately show ?thesis using ph(1,2) r by blast
qed

definition sample_elf :: elf_file where
  "sample_elf =
    \<lparr>elf_magic = True, elf_machine = ''EM_X86_64'',
     elf_phdrs = [\<lparr>ph_type = PT_TLS, ph_r = True, ph_w = True, ph_x = False, p_vaddr = 0, p_memsz = 0x20\<rparr>]\<rparr>"

theorem padded_tls_isolated_witness:
  "\<exists>ph' ops. elf_phdrs (snd (snd (patch_tls sample_elf delta))) = [ph'] \<and>
    protect_tls_segment (\<lambda>_ _ _ _. True) (sample_info\<lparr>dlpi_tls_data := 0x20ff8\<rparr>) 0x40000 2 ph' = Inr ops \<and>
    {0x20ff8..<0x21018} \<subseteq> tagged ops \<and> tagged ops \<inter> {0x1ff00..<0x1fff0} = {}"
proof -
  let ?info = "sample_info\<lparr>dlpi_tls_data := 0x20ff8\<rparr>"
  obtain n elf' where p: "patch_tls sample_elf delta = (PATCH_SUCCESS, n, elf')"
    by (simp add: patch_tls_def sample_elf_def delta_def Let_def)
  have "\<exists>pre ph ph' post ops. elf_phdrs sample_elf = pre @ ph # post \<and> elf_phdrs elf' = pre @ ph' # post \<and>
    ph_type ph = PT_TLS \<and> ph' = ph\<lparr>p_memsz := p_memsz ph + PAGE_SIZE\<rparr> \<and>
    protect_tls_segment (\<lambda>_ _ _ _. True) ?info 0x40000 2 ph' = Inr ops \<and> keyed 2 ops \<and>
    {dlpi_tls_data ?info..<dlpi_tls_data ?info + p_memsz ph} - {0x40000..<0x40000 + PAGE_SIZE} \<subseteq> tagged ops \<and>
    tagged ops \<inter> {0x40000..<0x40000 + PAGE_SIZE} = {} \<and>
    (\<forall>T m. T + m + PAGE_SIZE \<le> dlpi_tls_data ?info \<or> dlpi_tls_data ?info + p_memsz ph + PAGE_SIZE \<le> T \<longrightarrow>
      tagged ops \<inter> {T..<T + m} = {})"
    by (rule padded_tls_isolated [OF p])
      (simp_all add: sample_elf_def PAGE_SIZE_def usize_bound_def page_aligned_def)
  then obtain pre ph ph' post ops where
    e: "elf_phdrs sample_elf = pre @ ph # post" "elf_phdrs elf' = pre @ ph' # post"
    and r: "protect_tls_segment (\<lambda>_ _ _ _. True) ?info 0x40000 2 ph' = Inr ops"
    and c: "{dlpi_tls_data ?info..<dlpi_tls_data ?info + p_memsz ph} - {0x40000..<0x40000 + PAGE_SIZE} \<subseteq> tagged ops"
    and o: "\<forall>T m. T + m + PAGE_SIZE \<le> dlpi_tls_data ?info \<or> dlpi_tls_data ?info + p_memsz ph + PAGE_SIZE \<le> T \<longrightarrow>
      tagged ops \<inter> {T..<T + m} = {}"
    by (elim exE conjE)
  have sh: "pre = []" "post = []" "p_memsz ph = 0x20" using e(1) by (auto simp: sample_elf_def Cons_eq_append_conv)
  have "{0x20ff8..<0x21018 :: nat} \<subseteq> {0x20ff8..<0x20ff8 + 0x20} - {0x40000..<0x40000 + PAGE_SIZE}" by auto
  then have "{0x20ff8..<0x21018} \<subseteq> tagged ops" using c sh(3) by simp
  moreover have "tagged ops \<inter> {0x1ff00..<0x1fff0} = {}"
    using o [rule_format, of "0x1ff00" "0xf0"] by (simp add: PAGE_SIZE_def)
  ultimately show ?thesis using e(2) r sh p by auto
qed

section \<open>Extra libraries\<close>

text \<open>The entries of a list separated by semicolons; nothing after the last one is no entry.\<close>
function entries :: "string \<Rightarrow> string list" where
  "entries s =
    (if s = [] then []
     else takeWhile (\<lambda>c. c \<noteq> CHR '';'') s # entries (drop 1 (dropWhile (\<lambda>c. c \<noteq> CHR '';'') s)))"
  by pat_completeness auto
termination
proof (relation "measure length", goal_cases)
  case (2 s)
  then show ?case using length_dropWhile_le [of "\<lambda>c. c \<noteq> CHR '';''" s] by (cases s) (auto simp: less_Suc_eq_le)
qed simp

declare entries.simps [simp del]

lemma agree_split:
  "agree x name = (e, l) \<Longrightarrow> \<exists>p. x = p @ e \<and> name = p @ l \<and> (e = [] \<or> l = [] \<or> hd e \<noteq> hd l)"
proof (induction x name rule: agree.induct)
  case (1 c x d name)
  show ?case
  proof (cases "c = d")
    case True
    then obtain p where "x = p @ e" "name = p @ l" "e = [] \<or> l = [] \<or> hd e \<noteq> hd l" using 1 by auto
    then show ?thesis using True by (intro exI [of _ "c # p"]) simp
  qed (use 1 in auto)
qed auto

lemma find_library_entries:
  assumes "CHR '';'' \<notin> set name" "name \<noteq> []"
  shows "find_library x name \<longleftrightarrow> (\<exists>t \<in> set (entries x). prefix t name \<or> prefix name t)"
  using assms
proof (induction x name rule: find_library.induct)
  case (1 x name)
  let ?P = "\<lambda>c. c \<noteq> CHR '';''"
  show ?case
  proof (cases "x = []")
    case False
    obtain e l where ag: "agree x name = (e, l)" by fastforce
    then obtain p where p: "x = p @ e" "name = p @ l" "e = [] \<or> l = [] \<or> hd e \<noteq> hd l" using agree_split by blast
    have np: "\<forall>c \<in> set p. ?P c" using "1.prems"(1) p(2) by auto
    have tw: "takeWhile ?P x = p @ takeWhile ?P e" and dw: "dropWhile ?P x = dropWhile ?P e"
      using np p(1) by (simp_all add: takeWhile_append dropWhile_append)
    have ent: "entries x = (p @ takeWhile ?P e) # entries (drop 1 (dropWhile ?P e))"
      using False by (subst entries.simps) (simp add: tw dw)
    show ?thesis
    proof (cases "l = [] \<or> e = [] \<or> hd e = CHR '';''")
      case True
      then have "find_library x name" using False ag by (subst find_library.simps) auto
      moreover have "prefix (p @ takeWhile ?P e) name \<or> prefix name (p @ takeWhile ?P e)"
        using True p(2) by (cases e) auto
      ultimately show ?thesis by (auto simp: ent)
    next
      case stop: False
      then have "find_library x name \<longleftrightarrow> find_library (drop 1 (dropWhile ?P e)) name"
        using False ag by (subst find_library.simps) simp
      moreover have "\<not> prefix (p @ takeWhile ?P e) name" "\<not> prefix name (p @ takeWhile ?P e)"
        using stop p(2,3) by (cases e; cases l; auto)+
      moreover have "find_library (drop 1 (dropWhile ?P e)) name \<longleftrightarrow>
          (\<exists>t \<in> set (entries (drop 1 (dropWhile ?P e))). prefix t name \<or> prefix name t)"
        using "1.IH" [OF False ag [symmetric]] stop "1.prems" by simp
      ultimately show ?thesis by (simp add: ent)
    qed
  qed (simp add: find_library.simps entries.simps)
qed

text \<open>
  Which libraries count as listed.  For a library whose file name has no
  semicolon, \<open>in_extra_libraries\<close> is true exactly if an entry of the list is a
  prefix of the name or the name is a prefix of an entry.  The comment promises
  only the first: a library whose name merely begins an entry is taken in as
  well, and an empty entry takes in every library.
\<close>
lemma extra_libraries_by_entries:
  assumes "CHR '';'' \<notin> set (dlpi_name info)"
  shows "in_extra_libraries info extra \<longleftrightarrow>
    (case extra of
       None \<Rightarrow> False
     | Some list \<Rightarrow> basename (dlpi_name info) \<noteq> [] \<and>
         (\<exists>t \<in> set (entries list). prefix t (basename (dlpi_name info)) \<or> prefix (basename (dlpi_name info)) t))"
proof -
  have "set (basename (dlpi_name info)) \<subseteq> set (dlpi_name info)"
    unfolding basename_def by (auto dest: set_takeWhileD)
  then have "CHR '';'' \<notin> set (basename (dlpi_name info))" using assms by auto
  then show ?thesis
    using find_library_entries [of "basename (dlpi_name info)"]
    by (auto simp: in_extra_libraries_def Let_def split: option.split)
qed

lemma extra_libraries_by_entries_witness:
  "in_extra_libraries (sample_info\<lparr>dlpi_name := ''/lib/libssl.so.3''\<rparr>) (Some ''libcrypto.so;libssl.so'') \<and>
   in_extra_libraries (sample_info\<lparr>dlpi_name := ''/lib/libc''\<rparr>) (Some ''libcrypto.so;libssl.so'')"
proof -
  have "entries ''libcrypto.so;libssl.so'' = [''libcrypto.so'', ''libssl.so'']"
    by (simp add: entries.simps)
  then show ?thesis
    using extra_libraries_by_entries [of "sample_info\<lparr>dlpi_name := ''/lib/libssl.so.3''\<rparr>" "Some ''libcrypto.so;libssl.so''"]
      extra_libraries_by_entries [of "sample_info\<lparr>dlpi_name := ''/lib/libc''\<rparr>" "Some ''libcrypto.so;libssl.so''"]
    by (simp add: basename_def)
qed

end
