(* ===== verification/Runtime_Init.thy ===== *)
theory Runtime_Init
  imports Protect_Laws
begin

text \<open>
  Start-up and per-thread state of the runtime (\<open>init.c\<close>): registration of
  compartments, allocation of protection keys and stacks, the set-up of every
  configured compartment and its order (\<open>ia2_start\<close>), and the destructor that
  frees the stacks of a thread.  What the C library and the kernel answer is a
  record; \<open>dl_iterate_phdr\<close> calls the callback on every loaded object.
\<close>

definition IA2_MAX_COMPARTMENTS :: nat where "IA2_MAX_COMPARTMENTS = 16"

definition STACK_SIZE :: nat where "STACK_SIZE = 4 * 1024 * 1024"

section \<open>State and environment\<close>

datatype abort_reason = Exit int | Abort | Assertion

record CompartmentConfig =
  dso :: string
  config_extra :: "string option"

text \<open>
  \<open>stacks\<close> holds the base of each allocated stack of the current thread (0 none),
  \<open>stackptr\<close> the variables \<open>ia2_stackptr_N\<close>, \<open>ops\<close> what was done to memory so far.
\<close>
record runtime =
  user_config :: "nat \<Rightarrow> CompartmentConfig option"
  stacks :: "nat \<Rightarrow> nat"
  stackptr :: "nat \<Rightarrow> nat"
  ops :: "mem_op list"
  keys_allocated :: "nat list"
  init_finished :: bool

text \<open>The symbols of one shared object, \<^term>\<open>None\<close> where \<open>dlsym\<close> finds nothing.\<close>
record dso_symbols =
  get_tag_sym :: "nat option"
  shared_start_sym :: "nat option"
  shared_stop_sym :: "nat option"

record platform =
  pkey_alloc :: "nat \<Rightarrow> int" \<comment> \<open>result of the n-th call\<close>
  ldso_pkey :: "nat option"
  mmap_stack :: "nat \<Rightarrow> nat option"
  tag_ok :: mprotect_ok
  setspecific_ok :: bool
  dlopen :: "string \<Rightarrow> dso_symbols option"
  main_symbols :: dso_symbols
  main_address :: nat
  objects :: "dl_phdr_info list"
  sp0_address :: nat
  sp1_address :: nat
  thread_pointer :: nat
  libc_compartment :: bool

type_synonym 'a outcome = "abort_reason + 'a"

fun and_then :: "'a outcome \<Rightarrow> ('a \<Rightarrow> 'b outcome) \<Rightarrow> 'b outcome" where
  "and_then (Inl e) f = Inl e"
| "and_then (Inr x) f = f x"

fun of_step :: "stop + 'a \<Rightarrow> 'a outcome" where
  "of_step (Inl EXIT) = Inl (Exit (-1))"
| "of_step (Inl ASSERT_FAILED) = Inl Assertion"
| "of_step (Inr x) = Inr x"

definition do_ops :: "mem_op list \<Rightarrow> runtime \<Rightarrow> runtime" where
  "do_ops xs R = R\<lparr>ops := ops R @ xs\<rparr>"

section \<open>Registration, keys and stacks\<close>

definition ia2_register_compartment :: "string \<Rightarrow> nat \<Rightarrow> string option \<Rightarrow> runtime \<Rightarrow> runtime outcome" where
  "ia2_register_compartment d c extra R =
    (if c = 0 then Inl Assertion
     else if c \<ge> IA2_MAX_COMPARTMENTS then Inl Assertion
     else Inr (R\<lparr>user_config := (user_config R)(c \<mapsto> \<lparr>dso = d, config_extra = extra\<rparr>)\<rparr>))"

text \<open>The calls after the first: key \<open>k\<close> is expected as the result of call \<open>n\<close>.\<close>
fun alloc_keys :: "(nat \<Rightarrow> int) \<Rightarrow> nat \<Rightarrow> nat list \<Rightarrow> runtime \<Rightarrow> runtime outcome" where
  "alloc_keys alloc n [] R = Inr R"
| "alloc_keys alloc n (k # ks) R =
    (if alloc n < 0 then Inl (Exit (-1))
     else if alloc n \<noteq> int k then Inl (Exit (-1))
     else alloc_keys alloc (Suc n) ks (R\<lparr>keys_allocated := keys_allocated R @ [k]\<rparr>))"

definition ia2_set_up_tags :: "platform \<Rightarrow> runtime \<Rightarrow> runtime outcome" where
  "ia2_set_up_tags P R =
    (let expected_first_pkey = (case ldso_pkey P of None \<Rightarrow> 1 | Some k \<Rightarrow> k + 1) in
     if pkey_alloc P 0 \<noteq> int expected_first_pkey then Inl (Exit (-1))
     else alloc_keys (pkey_alloc P) 1 [expected_first_pkey + 1..<IA2_MAX_COMPARTMENTS]
       (R\<lparr>keys_allocated := keys_allocated R @ [expected_first_pkey]\<rparr>))"

text \<open>The result is the initial stack pointer.\<close>
definition allocate_stack :: "platform \<Rightarrow> nat \<Rightarrow> runtime \<Rightarrow> (nat \<times> runtime) outcome" where
  "allocate_stack P i R =
    (case mmap_stack P i of
      None \<Rightarrow> Inl (Exit (-1))
    | Some stack \<Rightarrow>
        if i \<noteq> 0 \<and> \<not> tag_ok P stack STACK_SIZE {PROT_READ, PROT_WRITE} i then Inl (Exit (-1))
        else
          let R1 = (if i \<noteq> 0 then do_ops [Mprotect stack STACK_SIZE {PROT_READ, PROT_WRITE} i] R else R) in
          if stacks R1 i \<noteq> 0 then Inl Assertion
          else if \<not> setspecific_ok P then Inl Abort
          else Inr (stack + STACK_SIZE - 8, R1\<lparr>stacks := (stacks R1)(i := stack)\<rparr>))"

definition allocate_stack_0 :: "platform \<Rightarrow> runtime \<Rightarrow> runtime outcome" where
  "allocate_stack_0 P R =
    and_then (allocate_stack P 0 R) (\<lambda>(sp, R1). Inr (R1\<lparr>stackptr := (stackptr R1)(0 := sp)\<rparr>))"

definition verify_tls_padding :: "platform \<Rightarrow> runtime \<Rightarrow> runtime outcome" where
  "verify_tls_padding P R =
    (if page_down (sp1_address P) = page_down (sp0_address P) then Inl (Exit 1) else Inr R)"

text \<open>The stacks the destructor unmaps, in order; a failing \<open>munmap\<close> aborts.\<close>
fun destroy_stacks :: "(nat \<Rightarrow> bool) \<Rightarrow> (nat \<Rightarrow> nat) \<Rightarrow> nat list \<Rightarrow> nat list outcome" where
  "destroy_stacks ok st [] = Inr []"
| "destroy_stacks ok st (c # cs) =
    (if st c = 0 then destroy_stacks ok st cs
     else if \<not> ok (st c) then Inl Abort
     else and_then (destroy_stacks ok st cs) (\<lambda>r. Inr (st c # r)))"

definition thread_stacks_destructor :: "(nat \<Rightarrow> bool) \<Rightarrow> runtime \<Rightarrow> nat list outcome" where
  "thread_stacks_destructor ok R = destroy_stacks ok (stacks R) [0..<IA2_MAX_COMPARTMENTS]"

section \<open>Setting up one compartment\<close>

fun iterate_protect ::
  "mprotect_ok \<Rightarrow> bool \<Rightarrow> dl_phdr_info list \<Rightarrow> PhdrSearchArgs \<Rightarrow> runtime \<Rightarrow> (PhdrSearchArgs \<times> runtime) outcome"
where
  "iterate_protect ok libc [] args R = Inr (args, R)"
| "iterate_protect ok libc (info # is) args R =
    and_then (of_step (protect_pages ok libc info args))
      (\<lambda>(args', xs). iterate_protect ok libc is args' (do_ops xs R))"

fun iterate_protect_tls ::
  "mprotect_ok \<Rightarrow> nat \<Rightarrow> dl_phdr_info list \<Rightarrow> PhdrSearchArgs \<Rightarrow> runtime \<Rightarrow> runtime outcome"
where
  "iterate_protect_tls ok sp0 [] args R = Inr R"
| "iterate_protect_tls ok sp0 (info # is) args R =
    and_then (of_step (protect_tls_pages ok sp0 info args))
      (\<lambda>xs. iterate_protect_tls ok sp0 is args (do_ops xs R))"

text \<open>One more than the number of semicolons, or none without a list.\<close>
definition extra_library_count :: "string option \<Rightarrow> nat" where
  "extra_library_count extra = (case extra of None \<Rightarrow> 0 | Some s \<Rightarrow> Suc (length (filter (\<lambda>c. c = CHR '';'') s)))"

text \<open>The inner result is the return code with the state.\<close>
definition ia2_setup_compartment ::
  "platform \<Rightarrow> string \<Rightarrow> nat \<Rightarrow> string option \<Rightarrow> runtime \<Rightarrow> (int \<times> runtime) outcome"
where
  "ia2_setup_compartment P d c extra R =
    (let found = (if d = ''main'' then Some (main_address P, main_symbols P)
        else case dlopen P d of
          None \<Rightarrow> None
        | Some syms \<Rightarrow> (case get_tag_sym syms of None \<Rightarrow> None | Some a \<Rightarrow> Some (a, syms)))
     in case found of
       None \<Rightarrow> Inr (-1, R)
     | Some (dso_addr, syms) \<Rightarrow>
         if (shared_start_sym syms = None) \<noteq> (shared_stop_sym syms = None) then Inr (-1, R)
         else and_then
           (if c \<noteq> 0 then and_then (allocate_stack P c R) (\<lambda>(sp, R1). Inr (R1\<lparr>stackptr := (stackptr R1)(c := sp)\<rparr>))
            else Inr R)
           (\<lambda>R1.
             let args = \<lparr>pkey = c, address = dso_addr, extra_libraries = extra, found_library_count = 0,
               shared_sections = Some [\<lparr>sec_start = (case shared_start_sym syms of None \<Rightarrow> 0 | Some a \<Rightarrow> a),
                   sec_end = (case shared_stop_sym syms of None \<Rightarrow> 0 | Some a \<Rightarrow> a)\<rparr>,
                 \<lparr>sec_start = 0, sec_end = 0\<rparr>]\<rparr>
             in and_then (iterate_protect (tag_ok P) (libc_compartment P) (objects P) args R1)
               (\<lambda>(args', R2).
                 if extra_library_count extra \<noteq> found_library_count args' then Inr (-1, R2)
                 else and_then (iterate_protect_tls (tag_ok P) (sp0_address P) (objects P) args' R2)
                   (\<lambda>R3. Inr (0, R3)))))"

fun setup_compartments :: "platform \<Rightarrow> nat list \<Rightarrow> runtime \<Rightarrow> runtime outcome" where
  "setup_compartments P [] R = Inr R"
| "setup_compartments P (i # is) R =
    (case user_config R i of
      None \<Rightarrow> setup_compartments P is R
    | Some cfg \<Rightarrow>
        and_then (ia2_setup_compartment P (dso cfg) i (config_extra cfg) R)
          (\<lambda>(rc, R1). if rc \<noteq> 0 then Inl (Exit rc) else setup_compartments P is R1))"

definition mark_init_finished :: "runtime \<Rightarrow> runtime" where
  "mark_init_finished R = R\<lparr>init_finished := True\<rparr>"

text \<open>\<open>ia2_main\<close> is the user's configuration code, which registers compartments.\<close>
definition ia2_start :: "platform \<Rightarrow> (runtime \<Rightarrow> runtime outcome) \<Rightarrow> runtime \<Rightarrow> runtime outcome" where
  "ia2_start P ia2_main R =
    and_then (ia2_main R) (\<lambda>R1.
    and_then (ia2_set_up_tags P R1) (\<lambda>R2.
    and_then (verify_tls_padding P R2) (\<lambda>R3.
    and_then (allocate_stack_0 P R3) (\<lambda>R4.
    and_then (setup_compartments P [1..<IA2_MAX_COMPARTMENTS] R4) (\<lambda>R5.
    and_then (of_step (ia2_unprotect_thread_pointer_page (tag_ok P) (thread_pointer P))) (\<lambda>xs.
    Inr (mark_init_finished (do_ops xs R5))))))))"

section \<open>What start-up leaves behind\<close>

lemma and_then_Inr: "and_then x f = Inr y \<longleftrightarrow> (\<exists>z. x = Inr z \<and> f z = Inr y)"
  by (cases x) auto

lemma do_ops_do_ops [simp]: "do_ops ys (do_ops xs R) = do_ops (xs @ ys) R"
  by (simp add: do_ops_def)

lemma do_ops_Nil [simp]: "do_ops [] R = R"
  by (simp add: do_ops_def)

lemma do_ops_simps [simp]:
  "stacks (do_ops xs R) = stacks R" "stackptr (do_ops xs R) = stackptr R" "user_config (do_ops xs R) = user_config R"
  "keys_allocated (do_ops xs R) = keys_allocated R" "init_finished (do_ops xs R) = init_finished R"
  "ops (do_ops xs R) = ops R @ xs"
  by (simp_all add: do_ops_def)

lemma iterate_protect_frame:
  "iterate_protect ok libc is args R = Inr (args', R') \<Longrightarrow> \<exists>xs. R' = do_ops xs R"
  by (induction "is" arbitrary: args R) (fastforce simp: and_then_Inr intro: exI [of _ "[]"])+

lemma iterate_protect_tls_frame:
  "iterate_protect_tls ok sp0 is args R = Inr R' \<Longrightarrow> \<exists>xs. R' = do_ops xs R"
  by (induction "is" arbitrary: R) (fastforce simp: and_then_Inr intro: exI [of _ "[]"])+

definition stack_op :: "nat \<Rightarrow> nat \<Rightarrow> mem_op" where
  "stack_op st c = Mprotect st STACK_SIZE {PROT_READ, PROT_WRITE} c"

text \<open>The state after a stack was allocated and its pointer stored.\<close>
definition with_stack :: "nat \<Rightarrow> nat \<Rightarrow> runtime \<Rightarrow> runtime" where
  "with_stack c st R = R\<lparr>stacks := (stacks R)(c := st), stackptr := (stackptr R)(c := st + STACK_SIZE - 8)\<rparr>"

lemma with_stack_simps [simp]:
  "stacks (with_stack c st R) = (stacks R)(c := st)"
  "stackptr (with_stack c st R) = (stackptr R)(c := st + STACK_SIZE - 8)"
  "user_config (with_stack c st R) = user_config R" "keys_allocated (with_stack c st R) = keys_allocated R"
  "init_finished (with_stack c st R) = init_finished R" "ops (with_stack c st R) = ops R"
  by (simp_all add: with_stack_def)

lemma setup_compartment_frame:
  assumes "ia2_setup_compartment P d c extra R = Inr (0, R')" "c \<noteq> 0"
  shows "\<exists>st xs. mmap_stack P c = Some st \<and> stacks R c = 0 \<and>
    R' = do_ops xs (with_stack c st R) \<and> stack_op st c \<in> set xs"
proof -
  obtain sp R1 args args' R2 where
    al: "allocate_stack P c R = Inr (sp, R1)"
    and ip: "iterate_protect (tag_ok P) (libc_compartment P) (objects P) args
      (R1\<lparr>stackptr := (stackptr R1)(c := sp)\<rparr>) = Inr (args', R2)"
    and it: "iterate_protect_tls (tag_ok P) (sp0_address P) (objects P) args' R2 = Inr R'"
    using assms
    by (auto simp: ia2_setup_compartment_def and_then_Inr Let_def split: option.splits if_splits)
  obtain st where st: "mmap_stack P c = Some st" "stacks R c = 0" "sp = st + STACK_SIZE - 8"
    "R1 = do_ops [stack_op st c] (R\<lparr>stacks := (stacks R)(c := st)\<rparr>)"
    using al assms(2) by (auto simp: allocate_stack_def Let_def do_ops_def stack_op_def split: option.splits if_splits)
  obtain xs ys where "R2 = do_ops xs (R1\<lparr>stackptr := (stackptr R1)(c := sp)\<rparr>)" "R' = do_ops ys R2"
    using iterate_protect_frame [OF ip] iterate_protect_tls_frame [OF it] by blast
  moreover have "R1\<lparr>stackptr := (stackptr R1)(c := sp)\<rparr> = do_ops [stack_op st c] (with_stack c st R)"
    by (simp add: st(3,4) do_ops_def with_stack_def)
  ultimately have "R' = do_ops ([stack_op st c] @ xs @ ys) (with_stack c st R)" by simp
  then show ?thesis using st(1,2) by (intro exI [of _ st] exI [of _ "[stack_op st c] @ xs @ ys"]) simp
qed

text \<open>The compartment has the stack the kernel gave for it, tagged with its key.\<close>
definition stack_ready :: "platform \<Rightarrow> runtime \<Rightarrow> nat \<Rightarrow> bool" where
  "stack_ready P R c \<longleftrightarrow>
    mmap_stack P c = Some (stacks R c) \<and> stackptr R c = stacks R c + STACK_SIZE - 8 \<and>
    Mprotect (stacks R c) STACK_SIZE {PROT_READ, PROT_WRITE} c \<in> set (ops R)"

lemma stack_ready_later:
  "stack_ready P R c \<Longrightarrow> stacks R' c = stacks R c \<Longrightarrow> stackptr R' c = stackptr R c \<Longrightarrow> ops R' = ops R @ xs \<Longrightarrow>
    stack_ready P R' c"
  by (simp add: stack_ready_def)

lemma setup_compartments_frame:
  assumes "setup_compartments P is R = Inr R'" "distinct is" "0 \<notin> set is"
  shows "user_config R' = user_config R \<and> keys_allocated R' = keys_allocated R \<and>
    (\<exists>xs. ops R' = ops R @ xs) \<and>
    (\<forall>c \<in> set is. user_config R c \<noteq> None \<longrightarrow> stack_ready P R' c) \<and>
    (\<forall>c. c \<notin> set is \<or> user_config R c = None \<longrightarrow> stacks R' c = stacks R c \<and> stackptr R' c = stackptr R c)"
  using assms
proof (induction "is" arbitrary: R)
  case (Cons i "is")
  show ?case
  proof (cases "user_config R i")
    case None
    then have "setup_compartments P is R = Inr R'" using Cons.prems(1) by simp
    with Cons.IH [OF this] show ?thesis using Cons.prems(2,3) None by auto
  next
    case (Some cfg)
    then obtain R1 where R1: "ia2_setup_compartment P (dso cfg) i (config_extra cfg) R = Inr (0, R1)"
      and rest: "setup_compartments P is R1 = Inr R'"
      using Cons.prems(1) by (auto simp: and_then_Inr split: if_splits)
    have i: "i \<noteq> 0" "i \<notin> set is" using Cons.prems by auto
    obtain st xs where st: "mmap_stack P i = Some st" "R1 = do_ops xs (with_stack i st R)" "stack_op st i \<in> set xs"
      using setup_compartment_frame [OF R1 i(1)] by blast
    have ready: "stack_ready P R1 i"
      using st by (simp add: stack_ready_def stack_op_def)
    have IH: "user_config R' = user_config R1" "keys_allocated R' = keys_allocated R1" "\<exists>xs. ops R' = ops R1 @ xs"
      "\<forall>c \<in> set is. user_config R1 c \<noteq> None \<longrightarrow> stack_ready P R' c"
      "\<forall>c. c \<notin> set is \<or> user_config R1 c = None \<longrightarrow> stacks R' c = stacks R1 c \<and> stackptr R' c = stackptr R1 c"
      using Cons.IH [OF rest] Cons.prems(2,3) by simp_all
    have "stack_ready P R' i" using stack_ready_later [OF ready] IH(3,5) i(2) by blast
    moreover have R1s: "user_config R1 = user_config R" "keys_allocated R1 = keys_allocated R" "ops R1 = ops R @ xs"
      by (simp_all add: st(2))
    moreover have "stacks R' c = stacks R c \<and> stackptr R' c = stackptr R c"
      if c: "c \<notin> set (i # is) \<or> user_config R c = None" for c
    proof -
      have "c \<noteq> i" using c Some by auto
      moreover have "stacks R' c = stacks R1 c \<and> stackptr R' c = stackptr R1 c" using IH(5) c R1s(1) by auto
      ultimately show ?thesis by (simp add: st(2))
    qed
    ultimately show ?thesis using IH(1-4) by (intro conjI allI impI) (assumption | auto)+
  qed
qed simp

lemma alloc_keys_frame:
  "alloc_keys alloc n ks R = Inr R' \<Longrightarrow>
    R' = R\<lparr>keys_allocated := keys_allocated R @ ks\<rparr> \<and> (\<forall>i < length ks. alloc (n + i) = int (ks ! i))"
proof (induction alloc n ks R rule: alloc_keys.induct)
  case (2 alloc n k ks R)
  then show ?case by (auto split: if_splits simp: less_Suc_eq_0_disj)
qed simp


definition sample_platform :: platform where
  "sample_platform =
    \<lparr>pkey_alloc = (\<lambda>n. int n + 1), ldso_pkey = None, mmap_stack = (\<lambda>c. Some ((c + 1) * 0x1000000)),
     tag_ok = (\<lambda>_ _ _ _. True), setspecific_ok = True, dlopen = (\<lambda>_. None),
     main_symbols = \<lparr>get_tag_sym = None, shared_start_sym = None, shared_stop_sym = None\<rparr>, main_address = 0x1000,
     objects = [], sp0_address = 0x8000, sp1_address = 0x9008, thread_pointer = 0xa010, libc_compartment = False\<rparr>"

definition sample_runtime :: runtime where
  "sample_runtime =
    \<lparr>user_config = (\<lambda>_. None), stacks = (\<lambda>_. 0), stackptr = (\<lambda>_. 0), ops = [], keys_allocated = [], init_finished = False\<rparr>"

lemma sample_start: "\<exists>R. ia2_start sample_platform (ia2_register_compartment ''main'' 1 None) sample_runtime = Inr R \<and> user_config R 1 \<noteq> None"
  by (simp add: ia2_start_def ia2_register_compartment_def sample_platform_def sample_runtime_def IA2_MAX_COMPARTMENTS_def
      ia2_set_up_tags_def upt_rec verify_tls_padding_def page_down_def PAGE_SIZE_def allocate_stack_0_def allocate_stack_def
      do_ops_def ia2_setup_compartment_def extra_library_count_def Let_def ia2_unprotect_thread_pointer_page_def
      ia2_mprotect_with_tag_def mark_init_finished_def)


end
