(* ===== verification/Permissive_Mode.thy ===== *)
theory Permissive_Mode
  imports IA2_Prelude "HOL-Library.Monad_Syntax"
begin

text \<open>
  Permissive mode (\<open>permissive_mode.h\<close>): the queue of violations between the signal
  handler and the logging thread, the handler itself, and the loop that empties
  the queue into the log.  The lock is modelled as a flag that must be clear to be
  taken; waiting for it is the absence of a result.
\<close>

unbundle bit_operations_syntax

section \<open>The queue\<close>

definition QUEUE_SIZE :: nat where "QUEUE_SIZE = 8192"

record mpk_err =
  err_addr :: u64
  err_val :: u64
  err_pc :: u64
  err_sp :: u64
  err_fp :: u64
  err_pkru :: u32
  local_addr :: u64

record queue =
  locked :: bool
  push :: nat
  pop :: nat
  data :: "nat \<Rightarrow> mpk_err"

definition get_queue :: "queue \<Rightarrow> queue option" where
  "get_queue q = (if locked q then None else Some (q\<lparr>locked := True\<rparr>))"

definition release_queue :: "queue \<Rightarrow> queue" where
  "release_queue q = q\<lparr>locked := False\<rparr>"

text \<open>\<^term>\<open>None\<close> is the failed assertion that the queue is not full.\<close>
definition push_queue :: "queue \<Rightarrow> mpk_err \<Rightarrow> queue option" where
  "push_queue q e =
    (let p = (if push q = QUEUE_SIZE then 0 else push q) in
     if p + 1 = pop q then None
     else Some (q\<lparr>data := (data q)(p := e), push := p + 1\<rparr>))"

definition pop_queue :: "queue \<Rightarrow> mpk_err option \<times> queue" where
  "pop_queue q =
    (let p = (if pop q = QUEUE_SIZE then 0 else pop q) in
     if push q = p then (None, q\<lparr>pop := p\<rparr>)
     else (Some (data q p), q\<lparr>pop := p + 1\<rparr>))"

text \<open>The loop \<open>while (pop_queue(q, &err)) { ... }\<close> with the entries it prints.\<close>
partial_function (option) drain :: "queue \<Rightarrow> (mpk_err list \<times> queue) option" where
  "drain q =
    (case pop_queue q of
      (None, q') \<Rightarrow> Some ([], q')
    | (Some e, q') \<Rightarrow>
        do { (es, q'') \<leftarrow> drain q'; Some (e # es, q'') })"

definition flush_queue :: "queue \<Rightarrow> (mpk_err list \<times> queue) option" where
  "flush_queue q =
    (case get_queue q of
      None \<Rightarrow> None
    | Some q1 \<Rightarrow> (case drain q1 of None \<Rightarrow> None | Some (es, q2) \<Rightarrow> Some (es, release_queue q2)))"

section \<open>The signal handler\<close>

datatype signal = SIGSEGV bool | SIGTRAP | OTHER_SIGNAL \<comment> \<open>\<open>SIGSEGV\<close> with whether the code is \<open>SEGV_PKUERR\<close>\<close>

text \<open>The part of the interrupted context the handler reads or writes.\<close>
record ucontext =
  eflags :: u64
  ctx_pkru :: u32
  xfeatures :: u64
  rip :: u64
  rsp :: u64
  rbp :: u64

definition XFEATURE_PKRU :: nat where "XFEATURE_PKRU = 9"

definition XFEATURE_MASK_PKRU :: u64 where "XFEATURE_MASK_PKRU = push_bit XFEATURE_PKRU 1"

definition trap_bit :: u64 where "trap_bit = 0x100"

record handler_state =
  uctx :: ucontext
  old_pkru :: u32
  violations :: queue

text \<open>
  \<open>read64\<close> is the memory under the access the handler makes itself, \<open>local\<close> the address
  of its local variable.  \<^term>\<open>None\<close> is an abort, a failed assertion or a lock that
  is never released.
\<close>
definition permissive_mode_handler ::
  "(u64 \<Rightarrow> u64) \<Rightarrow> u64 \<Rightarrow> signal \<Rightarrow> u64 \<Rightarrow> handler_state \<Rightarrow> handler_state option"
where
  "permissive_mode_handler read64 local sig si_addr h =
    (let handling_pkuerr = (sig = SIGSEGV True); handling_trap = (sig = SIGTRAP) in
     if \<not> handling_pkuerr \<and> \<not> handling_trap then None
     else
       let c = (uctx h)\<lparr>xfeatures := xfeatures (uctx h) OR XFEATURE_MASK_PKRU\<rparr> in
       if handling_pkuerr then
         let old = ctx_pkru c; c' = c\<lparr>eflags := eflags c OR trap_bit, ctx_pkru := 0\<rparr> in
         (case get_queue (violations h) of
           None \<Rightarrow> None
         | Some q \<Rightarrow>
             (case push_queue q \<lparr>err_addr = si_addr, err_val = read64 si_addr, err_pc = rip c, err_sp = rsp c,
                 err_fp = rbp c, err_pkru = old, local_addr = local\<rparr> of
               None \<Rightarrow> None
             | Some q' \<Rightarrow> Some \<lparr>uctx = c', old_pkru = old, violations = release_queue q'\<rparr>))
       else Some (h\<lparr>uctx := c\<lparr>ctx_pkru := old_pkru h, eflags := eflags c AND NOT trap_bit\<rparr>\<rparr>))"

section \<open>The queue as a list\<close>

definition contents :: "queue \<Rightarrow> mpk_err list" where
  "contents q =
    (let p = (if pop q = QUEUE_SIZE then 0 else pop q) in
     if push q = QUEUE_SIZE \<and> pop q = QUEUE_SIZE then []
     else if p \<le> push q then map (data q) [p..<push q]
     else map (data q) ([p..<QUEUE_SIZE] @ [0..<push q]))"

text \<open>The indices a queue can have.\<close>
definition queue_wf :: "queue \<Rightarrow> bool" where
  "queue_wf q \<longleftrightarrow> push q \<le> QUEUE_SIZE \<and> pop q \<le> QUEUE_SIZE"

lemma QUEUE_SIZE_pos: "1 < QUEUE_SIZE"
  by (simp add: QUEUE_SIZE_def)

lemma queue_wf_push: "queue_wf q \<Longrightarrow> push_queue q e = Some q' \<Longrightarrow> queue_wf q'"
  using QUEUE_SIZE_pos by (auto simp: queue_wf_def push_queue_def Let_def split: if_splits)

lemma queue_wf_pop: "queue_wf q \<Longrightarrow> pop_queue q = (r, q') \<Longrightarrow> queue_wf q' \<and> push q' = push q"
  using QUEUE_SIZE_pos by (auto simp: queue_wf_def pop_queue_def Let_def split: if_splits)

lemma map_fresh [simp]: "p \<notin> set xs \<Longrightarrow> map (d(p := e)) xs = map d xs"
  by (induction xs) auto

lemma push_refines:
  assumes "queue_wf q" "\<not> (push q = QUEUE_SIZE \<and> pop q = 0)" "push_queue q e = Some q'"
  shows "contents q' = contents q @ [e]"
proof (cases "push q = QUEUE_SIZE")
  case True
  then have q': "q' = q\<lparr>data := (data q)(0 := e), push := 1\<rparr>" and p: "pop q \<noteq> 1" "pop q \<noteq> 0"
    using assms by (auto simp: push_queue_def Let_def split: if_splits)
  show ?thesis
  proof (cases "pop q = QUEUE_SIZE")
    case False
    then have "0 < pop q" "1 < pop q" "pop q < QUEUE_SIZE" using p assms(1) by (auto simp: queue_wf_def)
    then show ?thesis using True by (simp add: contents_def q' Let_def)
  qed (use True QUEUE_SIZE_pos in \<open>simp add: contents_def q' Let_def\<close>)
next
  case False
  let ?p = "if pop q = QUEUE_SIZE then 0 else pop q"
  have q': "q' = q\<lparr>data := (data q)(push q := e), push := push q + 1\<rparr>" and p: "push q + 1 \<noteq> pop q"
    using assms False by (auto simp: push_queue_def Let_def split: if_splits)
  have lt: "push q < QUEUE_SIZE" using False assms(1) by (simp add: queue_wf_def)
  show ?thesis
  proof (cases "?p \<le> push q")
    case True
    moreover have "\<not> (push q + 1 = QUEUE_SIZE \<and> pop q = QUEUE_SIZE)" using p by auto
    ultimately show ?thesis using lt False by (auto simp: contents_def q' Let_def)
  next
    case gt: False
    then have "push q + 1 < ?p" "pop q \<noteq> QUEUE_SIZE" using p by (auto split: if_splits)
    then show ?thesis using lt by (simp add: contents_def q' Let_def)
  qed
qed

lemma push_full:
  assumes "queue_wf q" "\<not> (push q = QUEUE_SIZE \<and> pop q = 0)"
  shows "push_queue q e = None \<longleftrightarrow> length (contents q) = QUEUE_SIZE - 1 \<and> pop q \<noteq> 0"
  using assms QUEUE_SIZE_pos
  by (auto simp: push_queue_def contents_def queue_wf_def Let_def split: if_splits)

lemma pop_refines:
  assumes "queue_wf q" "\<not> (push q = QUEUE_SIZE \<and> pop q = QUEUE_SIZE)" and pop: "pop_queue q = (r, q')"
  shows "case r of None \<Rightarrow> contents q = [] \<and> contents q' = [] | Some e \<Rightarrow> contents q = e # contents q'"
proof -
  let ?p = "if pop q = QUEUE_SIZE then 0 else pop q"
  have p: "?p < QUEUE_SIZE" using assms(1) QUEUE_SIZE_pos by (auto simp: queue_wf_def)
  consider "push q = ?p" | "?p < push q" | "push q < ?p" by linarith
  then show ?thesis
  proof cases
    case 1
    then have "r = None" "q' = q\<lparr>pop := ?p\<rparr>" using pop by (auto simp: pop_queue_def Let_def)
    then show ?thesis using 1 p by (auto simp: contents_def Let_def)
  next
    case 2
    then have r: "r = Some (data q ?p)" "q' = q\<lparr>pop := ?p + 1\<rparr>" using pop by (auto simp: pop_queue_def Let_def)
    have "contents q = map (data q) [?p..<push q]" using 2 assms(2) by (simp add: contents_def Let_def)
    also have "\<dots> = data q ?p # map (data q) [?p + 1..<push q]" using 2 by (simp add: upt_conv_Cons)
    also have "map (data q) [?p + 1..<push q] = contents q'"
      using 2 p assms(1) by (auto simp: contents_def Let_def r(2) queue_wf_def)
    finally show ?thesis by (simp add: r(1))
  next
    case 3
    then have r: "r = Some (data q ?p)" "q' = q\<lparr>pop := ?p + 1\<rparr>" using pop by (auto simp: pop_queue_def Let_def)
    have "contents q = map (data q) ([?p..<QUEUE_SIZE] @ [0..<push q])"
      using 3 p by (auto simp: contents_def Let_def)
    also have "\<dots> = data q ?p # map (data q) ([?p + 1..<QUEUE_SIZE] @ [0..<push q])"
      using p by (simp add: upt_conv_Cons)
    also have "map (data q) ([?p + 1..<QUEUE_SIZE] @ [0..<push q]) = contents q'"
      using 3 p by (auto simp: contents_def Let_def r(2))
    finally show ?thesis by (simp add: r(1))
  qed
qed

lemma drain_returns:
  assumes "queue_wf q" "push q < QUEUE_SIZE"
  shows "\<exists>q'. drain q = Some (contents q, q') \<and> contents q' = [] \<and> queue_wf q' \<and> push q' = push q"
  using assms
proof (induction "length (contents q)" arbitrary: q)
  case 0
  obtain r q' where p: "pop_queue q = (r, q')" by fastforce
  then have "r = None" "contents q' = []"
    using pop_refines [OF _ _ p] 0 by (auto split: option.splits)
  then show ?case using p queue_wf_pop [OF _ p] 0 by (subst drain.simps) simp
next
  case (Suc n)
  obtain r q' where p: "pop_queue q = (r, q')" by fastforce
  obtain e where e: "r = Some e" "contents q = e # contents q'"
    using pop_refines [OF _ _ p] Suc.prems Suc.hyps(2) by (auto split: option.splits)
  have w: "queue_wf q'" "push q' = push q" using queue_wf_pop [OF Suc.prems(1) p] by simp_all
  have "\<exists>q''. drain q' = Some (contents q', q'') \<and> contents q'' = [] \<and> queue_wf q'' \<and> push q'' = push q'"
    using Suc.hyps(1) [of q'] Suc.hyps(2) Suc.prems w e by simp
  then show ?case using p e w by (subst drain.simps) auto
qed

text \<open>With the write index at the end of the array the queue never looks empty.\<close>
lemma drain_spins:
  assumes "drain q = Some r"
  shows "\<not> (push q = QUEUE_SIZE \<and> pop q \<le> QUEUE_SIZE)"
proof (rule drain.raw_induct [OF _ assms])
  fix f :: "queue \<Rightarrow> (mpk_err list \<times> queue) option" and q r
  assume IH: "\<And>q r. f q = Some r \<Longrightarrow> \<not> (push q = QUEUE_SIZE \<and> pop q \<le> QUEUE_SIZE)"
    and step: "(case pop_queue q of (None, q') \<Rightarrow> Some ([], q')
      | (Some e, q') \<Rightarrow> do { (es, q'') \<leftarrow> f q'; Some (e # es, q'') }) = Some r"
  show "\<not> (push q = QUEUE_SIZE \<and> pop q \<le> QUEUE_SIZE)"
  proof
    assume h: "push q = QUEUE_SIZE \<and> pop q \<le> QUEUE_SIZE"
    let ?p = "if pop q = QUEUE_SIZE then 0 else pop q"
    have p: "?p < QUEUE_SIZE" using h QUEUE_SIZE_pos by auto
    then have "pop_queue q = (Some (data q ?p), q\<lparr>pop := ?p + 1\<rparr>)"
      using h by (simp add: pop_queue_def Let_def)
    then obtain r' where "f (q\<lparr>pop := ?p + 1\<rparr>) = Some r'"
      using step by (auto simp: Option.bind_eq_Some_conv)
    from IH [OF this] show False using h p by simp
  qed
qed


definition sample_err :: mpk_err where
  "sample_err = \<lparr>err_addr = 1, err_val = 2, err_pc = 3, err_sp = 4, err_fp = 5, err_pkru = 6, local_addr = 7\<rparr>"

definition empty_queue :: queue where
  "empty_queue = \<lparr>locked = False, push = 0, pop = 0, data = (\<lambda>_. sample_err)\<rparr>"


section \<open>Where the queue goes wrong\<close>

fun push_all :: "queue \<Rightarrow> mpk_err list \<Rightarrow> queue option" where
  "push_all q [] = Some q"
| "push_all q (e # es) = do { q' \<leftarrow> push_queue q e; push_all q' es }"

lemma push_all_from_zero:
  "pop q = 0 \<Longrightarrow> push q + length es \<le> QUEUE_SIZE \<Longrightarrow>
    \<exists>q'. push_all q es = Some q' \<and> push q' = push q + length es \<and> pop q' = 0 \<and> locked q' = locked q"
proof (induction es arbitrary: q)
  case (Cons e es)
  have "push_queue q e = Some (q\<lparr>data := (data q)(push q := e), push := push q + 1\<rparr>)"
    using Cons.prems by (simp add: push_queue_def Let_def)
  then show ?case using Cons.IH [of "q\<lparr>data := (data q)(push q := e), push := push q + 1\<rparr>"] Cons.prems by simp
qed simp

text \<open>
  C40. A burst of exactly 8192 violations hangs the program.  Pushed onto a fresh
  queue they all fit, and then the thread that empties the queue never returns,
  still holding the lock, so that the next violation waits forever; one more
  violation before that is accepted instead of failing the assertion and leaves a
  queue that holds nothing but itself.
\<close>
theorem full_burst_hangs:
  assumes "length es = QUEUE_SIZE"
  shows "\<exists>q. push_all empty_queue es = Some q \<and> length (contents q) = QUEUE_SIZE \<and>
    flush_queue q = None \<and>
    (\<exists>q'. push_queue q e = Some q' \<and> contents q' = [e])"
proof -
  obtain q where q: "push_all empty_queue es = Some q" "push q = QUEUE_SIZE" "pop q = 0" "\<not> locked q"
    using push_all_from_zero [of empty_queue es] assms by (auto simp: empty_queue_def)
  have "drain (q\<lparr>locked := True\<rparr>) = None"
    using drain_spins [of "q\<lparr>locked := True\<rparr>"] q by (cases "drain (q\<lparr>locked := True\<rparr>)") auto
  then have "flush_queue q = None" using q by (simp add: flush_queue_def get_queue_def)
  moreover have "length (contents q) = QUEUE_SIZE" using q QUEUE_SIZE_pos by (simp add: contents_def Let_def)
  moreover have "\<exists>q'. push_queue q e = Some q' \<and> contents q' = [e]"
    using q QUEUE_SIZE_pos by (simp add: push_queue_def contents_def Let_def)
  ultimately show ?thesis using q(1) by blast
qed

theorem full_burst_hangs_witness:
  "\<exists>q. push_all empty_queue (replicate QUEUE_SIZE sample_err) = Some q \<and> flush_queue q = None"
  using full_burst_hangs [of "replicate QUEUE_SIZE sample_err"] by auto

section \<open>The handler\<close>

text \<open>
  C34. One violation is transparent to the program.  A protection key fault
  followed by the trap of the single step gives the program its PKRU value back
  and clears the trap flag, which are otherwise untouched in the context; during
  the step every key is open; and the queue has grown by one entry with the
  address, the program counter and the PKRU value of the fault.
\<close>
theorem violation_round_trip:
  assumes wf: "queue_wf (violations h)" "\<not> locked (violations h)"
    and room: "length (contents (violations h)) < QUEUE_SIZE - 1"
  shows "\<exists>h1 h2. permissive_mode_handler rd loc (SIGSEGV True) a h = Some h1 \<and>
    ctx_pkru (uctx h1) = 0 \<and> eflags (uctx h1) AND trap_bit = trap_bit \<and>
    permissive_mode_handler rd loc SIGTRAP b h1 = Some h2 \<and>
    uctx h2 = (uctx h)\<lparr>xfeatures := xfeatures (uctx h) OR XFEATURE_MASK_PKRU, eflags := eflags (uctx h) AND NOT trap_bit\<rparr> \<and>
    contents (violations h2) = contents (violations h) @
      [\<lparr>err_addr = a, err_val = rd a, err_pc = rip (uctx h), err_sp = rsp (uctx h), err_fp = rbp (uctx h),
        err_pkru = ctx_pkru (uctx h), local_addr = loc\<rparr>] \<and>
    \<not> locked (violations h2)"
proof -
  let ?q = "(violations h)\<lparr>locked := True\<rparr>"
  let ?e = "\<lparr>err_addr = a, err_val = rd a, err_pc = rip (uctx h), err_sp = rsp (uctx h), err_fp = rbp (uctx h),
        err_pkru = ctx_pkru (uctx h), local_addr = loc\<rparr>"
  have same: "contents (q\<lparr>locked := l\<rparr>) = contents q" for q l by (simp add: contents_def Let_def)
  have ne: "\<not> (push ?q = QUEUE_SIZE \<and> pop ?q = 0)"
  proof
    assume "push ?q = QUEUE_SIZE \<and> pop ?q = 0"
    then have "length (contents (violations h)) = QUEUE_SIZE" using QUEUE_SIZE_pos by (simp add: contents_def)
    then show False using room by simp
  qed
  have wfq: "queue_wf ?q" using wf by (simp add: queue_wf_def)
  obtain q' where q': "push_queue ?q ?e = Some q'"
    using push_full [OF wfq ne, of ?e] room same by (cases "push_queue ?q ?e") auto
  have "contents q' = contents (violations h) @ [?e]" using push_refines [OF wfq ne q'] same by simp
  moreover have "(x OR trap_bit) AND NOT trap_bit = x AND NOT trap_bit" "(x OR trap_bit) AND trap_bit = trap_bit" for x
    by (auto simp: bit_eq_iff bit_simps)
  ultimately show ?thesis
    using wf q' same by (simp add: permissive_mode_handler_def get_queue_def release_queue_def Let_def)
qed

theorem violation_round_trip_witness:
  "\<exists>h1 h2. permissive_mode_handler (\<lambda>_. 0) 0 (SIGSEGV True) 0x1000
      \<lparr>uctx = \<lparr>eflags = 2, ctx_pkru = 0xFFFFFFF0, xfeatures = 7, rip = 0x10, rsp = 0x20, rbp = 0x30\<rparr>,
       old_pkru = 0, violations = empty_queue\<rparr> = Some h1 \<and>
    permissive_mode_handler (\<lambda>_. 0) 0 SIGTRAP 0 h1 = Some h2 \<and> ctx_pkru (uctx h2) = 0xFFFFFFF0"
proof -
  let ?h = "\<lparr>uctx = \<lparr>eflags = 2, ctx_pkru = 0xFFFFFFF0, xfeatures = 7, rip = 0x10, rsp = 0x20, rbp = 0x30\<rparr>,
       old_pkru = 0, violations = empty_queue\<rparr>"
  have "queue_wf (violations ?h)" "\<not> locked (violations ?h)" "length (contents (violations ?h)) < QUEUE_SIZE - 1"
    using QUEUE_SIZE_pos by (simp_all add: queue_wf_def empty_queue_def contents_def)
  from violation_round_trip [OF this, of "\<lambda>_. 0" 0 "0x1000" 0] show ?thesis by fastforce
qed

end
