(* ===== verification/Maps_Log.thy ===== *)
theory Maps_Log
  imports IA2_Prelude
begin

text \<open>
  Logging of memory maps (\<open>memory_maps.c\<close>): the table of thread metadata, the
  search for the owner of an address, and the reading and printing of the lines
  of \<open>/proc/<pid>/maps\<close>.  The conversions of \<open>sscanf\<close> and \<open>fprintf\<close> that the code uses
  are modelled as the C library documents them.
\<close>

section \<open>Thread metadata\<close>

definition MAX_THREADS :: nat where "MAX_THREADS = 512"

definition MAX_COMPARTMENTS :: nat where "MAX_COMPARTMENTS = 16"

record thread_metadata =
  md_tid :: pid_t
  md_thread :: nat
  start_fn :: "nat option"
  stack_addrs :: "nat \<Rightarrow> nat"
  tls_addrs :: "nat \<Rightarrow> nat"
  tls_addr_compartment1_first :: nat
  tls_addr_compartment1_second :: nat

record all_threads_metadata =
  num_threads :: nat
  tids :: "nat \<Rightarrow> pid_t"
  metadata_of :: "nat \<Rightarrow> thread_metadata"

definition find_tid :: "all_threads_metadata \<Rightarrow> pid_t \<Rightarrow> nat option" where
  "find_tid T tid = List.find (\<lambda>i. tids T i = tid) [0..<num_threads T]"

text \<open>
  The result is the index of the entry that is returned and the table; \<^term>\<open>None\<close> is
  an abort.  \<open>lock_ok\<close> and \<open>unlock_ok\<close> say whether the calls on the mutex succeed.
\<close>
definition metadata_get_for_current_thread ::
  "bool \<Rightarrow> bool \<Rightarrow> pid_t \<Rightarrow> nat \<Rightarrow> all_threads_metadata \<Rightarrow> (nat \<times> all_threads_metadata) option"
where
  "metadata_get_for_current_thread lock_ok unlock_ok tid self T =
    (if \<not> lock_ok then None
     else if num_threads T \<ge> MAX_THREADS then None
     else
       let (i, T') = (case find_tid T tid of
           Some i \<Rightarrow> (i, T)
         | None \<Rightarrow>
             let n = num_threads T in
             (n, T\<lparr>num_threads := n + 1, tids := (tids T)(n := tid),
                metadata_of := (metadata_of T)(n := (metadata_of T n)\<lparr>md_tid := tid, md_thread := self\<rparr>)\<rparr>))
       in if unlock_ok then Some (i, T') else None)"

record addr_location =
  loc_name :: "string option"
  loc_thread :: "nat option"
  loc_compartment :: int

definition no_location :: addr_location where
  "no_location = \<lparr>loc_name = None, loc_thread = None, loc_compartment = -1\<rparr>"

fun find_in_compartments :: "thread_metadata \<Rightarrow> nat \<Rightarrow> nat \<Rightarrow> nat list \<Rightarrow> addr_location option" where
  "find_in_compartments md t a [] = None"
| "find_in_compartments md t a (c # cs) =
    (if a = stack_addrs md c then Some \<lparr>loc_name = Some ''stack'', loc_thread = Some t, loc_compartment = int c\<rparr>
     else if a = tls_addrs md c then Some \<lparr>loc_name = Some ''tls'', loc_thread = Some t, loc_compartment = int c\<rparr>
     else find_in_compartments md t a cs)"

fun find_in_threads :: "all_threads_metadata \<Rightarrow> nat \<Rightarrow> nat list \<Rightarrow> addr_location option" where
  "find_in_threads T a [] = None"
| "find_in_threads T a (t # ts) =
    (let md = metadata_of T t in
     if a = tls_addr_compartment1_first md \<or> a = tls_addr_compartment1_second md
     then Some \<lparr>loc_name = Some ''tls'', loc_thread = Some t, loc_compartment = 1\<rparr>
     else case find_in_compartments md t a [0..<MAX_COMPARTMENTS] of
       Some l \<Rightarrow> Some l
     | None \<Rightarrow> find_in_threads T a ts)"

definition metadata_find_addr :: "bool \<Rightarrow> all_threads_metadata \<Rightarrow> nat \<Rightarrow> addr_location" where
  "metadata_find_addr lock_ok T a =
    (if \<not> lock_ok then no_location
     else case find_in_threads T a [0..<num_threads T] of Some l \<Rightarrow> l | None \<Rightarrow> no_location)"

section \<open>Numbers in text\<close>

definition digit_char :: "nat \<Rightarrow> char" where
  "digit_char d = ''0123456789abcdef'' ! d"

definition digit_val :: "char \<Rightarrow> nat option" where
  "digit_val c =
    (let n = of_char c :: nat in
     if 48 \<le> n \<and> n \<le> 57 then Some (n - 48)
     else if 97 \<le> n \<and> n \<le> 102 then Some (n - 87)
     else if 65 \<le> n \<and> n \<le> 70 then Some (n - 55)
     else None)"

definition isspace :: "char \<Rightarrow> bool" where
  "isspace c \<longleftrightarrow> (let n = of_char c :: nat in n = 32 \<or> (9 \<le> n \<and> n \<le> 13))"

fun digits :: "nat \<Rightarrow> nat \<Rightarrow> string" where
  "digits b n = (if n < b \<or> b < 2 then [digit_char n] else digits b (n div b) @ [digit_char (n mod b)])"

declare digits.simps [simp del]

definition zero_pad :: "nat \<Rightarrow> string \<Rightarrow> string" where
  "zero_pad w s = replicate (w - length s) (CHR ''0'') @ s"

text \<open>\<open>%08lx\<close>\<close>
definition hex8 :: "nat \<Rightarrow> string" where
  "hex8 n = zero_pad 8 (digits 16 n)"

fun scan_digits :: "nat \<Rightarrow> string \<Rightarrow> nat \<Rightarrow> nat \<times> string" where
  "scan_digits b [] acc = (acc, [])"
| "scan_digits b (c # s) acc =
    (case digit_val c of
      None \<Rightarrow> (acc, c # s)
    | Some d \<Rightarrow> if d < b then scan_digits b s (acc * b + d) else (acc, c # s))"

text \<open>
  \<open>%lx\<close>, \<open>%x\<close> and \<open>%lu\<close>: leading white space and a sign are skipped, base 16 allows
  the prefix \<open>0x\<close>, at least one digit is required, and a value that does not fit
  becomes the largest one.
\<close>
definition starts_digit :: "nat \<Rightarrow> string \<Rightarrow> bool" where
  "starts_digit b s =
    (case s of [] \<Rightarrow> False | c # _ \<Rightarrow> (case digit_val c of None \<Rightarrow> False | Some d \<Rightarrow> d < b))"

definition scan_unsigned :: "nat \<Rightarrow> string \<Rightarrow> (nat \<times> string) option" where
  "scan_unsigned b s =
    (let s1 = (if b = 16 \<and> (take 2 s = ''0x'' \<or> take 2 s = ''0X'') \<and> starts_digit b (drop 2 s) then drop 2 s else s) in
     if starts_digit b s1 then Some (scan_digits b s1 0) else None)"

definition scan_number :: "nat \<Rightarrow> string \<Rightarrow> (nat \<times> string) option" where
  "scan_number b s =
    (let s1 = dropWhile isspace s;
         neg = (s1 \<noteq> [] \<and> hd s1 = CHR ''-'');
         s2 = (if s1 \<noteq> [] \<and> (hd s1 = CHR ''-'' \<or> hd s1 = CHR ''+'') then tl s1 else s1)
     in case scan_unsigned b s2 of
       None \<Rightarrow> None
     | Some (v, r) \<Rightarrow>
         Some (if v \<ge> usize_bound then usize_bound - 1 else if neg then (usize_bound - v) mod usize_bound else v, r))"

section \<open>One line of the map\<close>

record maps_entry =
  e_start :: nat
  e_end :: nat
  e_perms :: string
  e_offset :: nat
  e_major :: nat
  e_minor :: nat
  e_inode :: nat

text \<open>
  \<open>sscanf(line, "%lx-%lx %4c %lx %x:%x %lu %n", ...)\<close>: the number of conversions when
  fewer than seven succeed, otherwise the values and the index of the path.
\<close>
definition literal :: "char \<Rightarrow> string \<Rightarrow> string option" where
  "literal c s = (case s of [] \<Rightarrow> None | d # r \<Rightarrow> if c = d then Some r else None)"

definition sscanf_line :: "string \<Rightarrow> nat + (maps_entry \<times> nat)" where
  "sscanf_line line =
    (case scan_number 16 line of
      None \<Rightarrow> Inl 0
    | Some (start, s1) \<Rightarrow>
    (case literal (CHR ''-'') s1 of
      None \<Rightarrow> Inl 1
    | Some s2 \<Rightarrow>
    (case scan_number 16 s2 of
      None \<Rightarrow> Inl 1
    | Some (end, s3) \<Rightarrow>
    (let s4 = dropWhile isspace s3 in
     if length s4 < 4 then Inl 2
     else let perms = take 4 s4; s5 = drop 4 s4 in
    (case scan_number 16 s5 of
      None \<Rightarrow> Inl 3
    | Some (off, s6) \<Rightarrow>
    (case scan_number 16 s6 of
      None \<Rightarrow> Inl 4
    | Some (major, s7) \<Rightarrow>
    (case literal (CHR '':'') s7 of
      None \<Rightarrow> Inl 5
    | Some s8 \<Rightarrow>
    (case scan_number 16 s8 of
      None \<Rightarrow> Inl 5
    | Some (minor, s9) \<Rightarrow>
    (case scan_number 10 s9 of
      None \<Rightarrow> Inl 6
    | Some (inode, s10) \<Rightarrow>
        Inr (\<lparr>e_start = start, e_end = end, e_perms = perms, e_offset = off, e_major = major, e_minor = minor,
              e_inode = inode\<rparr>, length line - length (dropWhile isspace s10)))))))))))"

text \<open>\<open>fprintf(log, "%08lx-%08lx %.4s %08lx ", ...)\<close> and what follows it; \<open>label\<close> is the text for mappings without a path.\<close>
definition log_memory_map_entry :: "(nat \<Rightarrow> string) \<Rightarrow> string \<Rightarrow> nat \<Rightarrow> nat \<Rightarrow> maps_entry \<Rightarrow> string" where
  "log_memory_map_entry label line line_len path_index e =
    hex8 (e_start e) @ ''-'' @ hex8 (e_end e) @ '' '' @ take 4 (e_perms e) @ '' '' @ hex8 (e_offset e) @ '' '' @
    (let path_len = usize_sub (usize_sub line_len path_index) 1 in
     if path_len \<noteq> 0 then drop path_index line else label (e_start e)) @ [CHR ''\<newline>'']"

definition log_memory_map_error :: "string \<Rightarrow> string" where
  "log_memory_map_error line = line @ [CHR ''\<newline>'']"

text \<open>The lines as \<open>getline\<close> gives them, each with its newline unless the file ends without one.\<close>
definition memory_map_line :: "(nat \<Rightarrow> string) \<Rightarrow> string \<Rightarrow> string" where
  "memory_map_line label raw =
    (let line = (if raw \<noteq> [] \<and> last raw = CHR ''\<newline>'' then butlast raw else raw) in
     case sscanf_line line of
       Inl _ \<Rightarrow> log_memory_map_error line
     | Inr (e, path_index) \<Rightarrow> log_memory_map_entry label line (length raw) path_index e)"

definition ia2_log_memory_maps :: "(nat \<Rightarrow> string) \<Rightarrow> string list \<Rightarrow> string" where
  "ia2_log_memory_maps label raws =
    ''  start addr-end addr     perms offset  path'' @ [CHR ''\<newline>''] @ concat (map (memory_map_line label) raws)"

text \<open>
  The reply buffer of the tracer: the length \<open>madvise\<close> returned, if the maps fit.
\<close>
definition open_tracer_self_maps :: "int \<Rightarrow> nat option" where
  "open_tracer_self_maps len =
    (let tracer_maps_len = 64 * 1024 in
     if len < 0 \<or> len = tracer_maps_len then None else Some (nat len))"

definition thread_label :: "all_threads_metadata \<Rightarrow> (nat \<Rightarrow> string) \<Rightarrow> (nat \<Rightarrow> string option) \<Rightarrow> addr_location \<Rightarrow> string" where
  "thread_label T thread_name dladdr l =
    (case (loc_name l, loc_thread l) of
      (Some name, Some t) \<Rightarrow>
        let md = metadata_of T t in
        ''['' @ name @ '':compartment '' @ digits 10 (nat (loc_compartment l)) @ '':tid '' @ digits 10 (nat (md_tid md))
        @ '' (thread '' @ thread_name (md_thread md) @ '')'' @ '' (start fn ''
        @ (case start_fn md of
             None \<Rightarrow> ''main''
           | Some f \<Rightarrow> (case dladdr f of Some s \<Rightarrow> s | None \<Rightarrow> ''0x'' @ digits 16 f))
        @ '')]''
    | _ \<Rightarrow> [])"

definition label_memory_map ::
  "all_threads_metadata \<Rightarrow> (nat \<Rightarrow> string) \<Rightarrow> (nat \<Rightarrow> string option) \<Rightarrow> (nat \<Rightarrow> nat) option \<Rightarrow> nat \<Rightarrow> string"
where
  "label_memory_map T thread_name dladdr pools a =
    thread_label T thread_name dladdr (metadata_find_addr True T a) @
    (case pools of
      None \<Rightarrow> []
    | Some base \<Rightarrow>
        (case List.find (\<lambda>k. a = base k) [0..<MAX_COMPARTMENTS] of
          None \<Rightarrow> []
        | Some k \<Rightarrow> ''[heap:compartment '' @ digits 10 k @ '']''))"

end
