(* ===== verification/Maps_Laws.thy ===== *)
theory Maps_Laws
  imports Maps_Log
begin

text \<open>
  Properties of the memory map log: printing and scanning of numbers, the round
  trip of a line of the kernel's format through the parser and the log, and the
  table of thread metadata.
\<close>

section \<open>Numbers\<close>

lemma digit_val_char: "d < 16 \<Longrightarrow> digit_val (digit_char d) = Some d"
proof -
  have "\<forall>d \<in> set [0..<16]. digit_val (digit_char d) = Some d" by code_simp
  then show "d < 16 \<Longrightarrow> ?thesis" by simp
qed

lemma digit_val_plain: "digit_val c = Some d \<Longrightarrow> \<not> isspace c \<and> c \<noteq> CHR ''-'' \<and> c \<noteq> CHR ''+'' \<and> c \<noteq> CHR ''x'' \<and> c \<noteq> CHR ''X''"
  by (auto simp: digit_val_def isspace_def Let_def split: if_splits)

text \<open>A nonempty string of digits of a base.\<close>
definition numeric :: "nat \<Rightarrow> string \<Rightarrow> bool" where
  "numeric b s \<longleftrightarrow> (\<forall>c \<in> set s. \<exists>d. digit_val c = Some d \<and> d < b)"

lemma numeric_digits: "2 \<le> b \<Longrightarrow> b \<le> 16 \<Longrightarrow> numeric b (digits b n)"
proof (induction b n rule: digits.induct)
  case (1 b n)
  show ?case
  proof (cases "n < b")
    case True
    then show ?thesis using 1 digit_val_char [of n] by (subst digits.simps) (simp add: numeric_def)
  next
    case False
    then have "numeric b (digits b (n div b))" using 1 by simp
    moreover have m: "n mod b < b" using 1 by simp
    moreover have "digit_val (digit_char (n mod b)) = Some (n mod b)" using m 1 by (intro digit_val_char) linarith
    ultimately show ?thesis using False 1 by (subst digits.simps) (simp add: numeric_def)
  qed
qed

lemma digits_not_Nil [simp]: "digits b n \<noteq> []"
  by (subst digits.simps) simp

lemma scan_digits_append:
  "numeric b s \<Longrightarrow> scan_digits b (s @ r) acc = scan_digits b r (fst (scan_digits b s acc))"
  by (induction s arbitrary: acc) (auto simp: numeric_def)

lemma scan_digits_rest: "\<not> starts_digit b r \<Longrightarrow> scan_digits b r acc = (acc, r)"
  by (cases r) (auto simp: starts_digit_def split: option.splits)

lemma scan_digits_value:
  "2 \<le> b \<Longrightarrow> b \<le> 16 \<Longrightarrow> fst (scan_digits b (digits b n) 0) = n"
proof (induction b n rule: digits.induct)
  case (1 b n)
  show ?case
  proof (cases "n < b")
    case True
    then show ?thesis using 1 digit_val_char [of n] by (subst digits.simps) simp
  next
    case False
    then have IH: "fst (scan_digits b (digits b (n div b)) 0) = n div b" using 1 by simp
    have "n mod b < b" "n mod b < 16" using 1 mod_less_divisor [of b n] by linarith+
    then show ?thesis
      using False 1 IH digit_val_char [of "n mod b"] scan_digits_append [OF numeric_digits, of b "n div b"]
      by (subst digits.simps) simp
  qed
qed

lemma scan_zeros: "scan_digits b (replicate k (CHR ''0'') @ s) 0 = scan_digits b s 0" if "0 < b"
proof -
  have "digit_val (CHR ''0'') = Some 0" by (simp add: digit_val_def)
  then show ?thesis using that by (induction k) simp_all
qed

lemma numeric_zero_pad: "2 \<le> b \<Longrightarrow> b \<le> 16 \<Longrightarrow> numeric b (zero_pad w (digits b n))"
  using numeric_digits [of b n] by (auto simp: zero_pad_def numeric_def digit_val_def)

lemma scan_padded:
  assumes "2 \<le> b" "b \<le> 16" "\<not> starts_digit b r"
  shows "scan_digits b (zero_pad w (digits b n) @ r) 0 = (n, r)"
proof -
  have "scan_digits b (zero_pad w (digits b n) @ r) 0 = scan_digits b (digits b n @ r) 0"
    using assms(1) by (simp add: zero_pad_def scan_zeros)
  also have "\<dots> = scan_digits b r n"
    using scan_digits_append [OF numeric_digits [OF assms(1,2)]] scan_digits_value [OF assms(1,2)] by simp
  finally show ?thesis using scan_digits_rest [OF assms(3)] by simp
qed

lemma numeric_Cons: "numeric b s \<Longrightarrow> s \<noteq> [] \<Longrightarrow> \<exists>c t d. s = c # t \<and> digit_val c = Some d \<and> d < b"
  by (cases s) (auto simp: numeric_def)

lemma scan_number_padded:
  assumes b: "2 \<le> b" "b \<le> 16" and r: "\<not> starts_digit b r" and n: "n < usize_bound"
    and x: "b = 16 \<longrightarrow> 2 \<le> w"
  shows "scan_number b (zero_pad w (digits b n) @ r) = Some (n, r)"
proof -
  let ?s = "zero_pad w (digits b n)"
  have num: "numeric b ?s" by (rule numeric_zero_pad [OF b])
  have ne: "?s \<noteq> []" by (simp add: zero_pad_def)
  obtain c t d where s: "?s = c # t" "digit_val c = Some d" "d < b" using numeric_Cons [OF num ne] by blast
  note plain = digit_val_plain [OF s(2)]
  have no_prefix: "take 2 (?s @ r) \<noteq> ''0x'' \<and> take 2 (?s @ r) \<noteq> ''0X''" if "b = 16"
  proof -
    have "2 \<le> length ?s" using x that by (simp add: zero_pad_def)
    then obtain e u where t: "t = e # u" using s(1) by (cases t) auto
    have "\<exists>d. digit_val e = Some d" using num by (auto simp: s(1) t numeric_def)
    then show ?thesis using digit_val_plain by (auto simp: s(1) t)
  qed
  have "scan_unsigned b (?s @ r) = Some (n, r)"
    using no_prefix scan_padded [OF b r, of w n] s by (auto simp: scan_unsigned_def starts_digit_def Let_def)
  then show ?thesis using plain n by (simp add: scan_number_def s(1) Let_def)
qed

lemma scan_number_space: "scan_number b (CHR '' '' # s) = scan_number b s"
  by (simp add: scan_number_def isspace_def)

lemma not_starts [simp]:
  "\<not> starts_digit b []" "\<not> starts_digit b (CHR '' '' # s)" "\<not> starts_digit b (CHR ''-'' # s)" "\<not> starts_digit b (CHR '':'' # s)"
  by (simp_all add: starts_digit_def digit_val_def)

section \<open>Lines\<close>

text \<open>
  The format the kernel documents for a line of \<open>/proc/<pid>/maps\<close>: numbers padded
  with zeros, at least one space before the path.
\<close>
definition kernel_line :: "maps_entry \<Rightarrow> nat \<Rightarrow> string \<Rightarrow> string" where
  "kernel_line e k path =
    hex8 (e_start e) @ ''-'' @ hex8 (e_end e) @ '' '' @ e_perms e @ '' '' @ hex8 (e_offset e) @ '' '' @
    zero_pad 2 (digits 16 (e_major e)) @ '':'' @ zero_pad 2 (digits 16 (e_minor e)) @ '' '' @
    digits 10 (e_inode e) @ replicate (Suc k) (CHR '' '') @ path"

definition entry_ok :: "maps_entry \<Rightarrow> bool" where
  "entry_ok e \<longleftrightarrow> e_start e < usize_bound \<and> e_end e < usize_bound \<and> e_offset e < usize_bound \<and>
    e_major e < usize_bound \<and> e_minor e < usize_bound \<and> e_inode e < usize_bound \<and>
    length (e_perms e) = 4 \<and> \<not> isspace (hd (e_perms e))"

definition path_ok :: "string \<Rightarrow> bool" where
  "path_ok p \<longleftrightarrow> (p = [] \<or> \<not> isspace (hd p))"

lemma drop_spaces: "path_ok p \<Longrightarrow> dropWhile isspace (replicate k (CHR '' '') @ p) = p"
  by (induction k) (cases p, auto simp: path_ok_def isspace_def)

lemma sscanf_kernel_line:
  assumes e: "entry_ok e" and p: "path_ok path"
  shows "sscanf_line (kernel_line e k path) = Inr (e, length (kernel_line e k path) - length path)"
proof -
  define r6 where "r6 = replicate (Suc k) (CHR '' '') @ path"
  define r5 where "r5 = CHR '' '' # digits 10 (e_inode e) @ r6"
  define r4 where "r4 = CHR '':'' # zero_pad 2 (digits 16 (e_minor e)) @ r5"
  define r3 where "r3 = CHR '' '' # zero_pad 2 (digits 16 (e_major e)) @ r4"
  define r2 where "r2 = CHR '' '' # hex8 (e_offset e) @ r3"
  define r1 where "r1 = CHR '' '' # e_perms e @ r2"
  define r0 where "r0 = CHR ''-'' # hex8 (e_end e) @ r1"
  have line: "kernel_line e k path = hex8 (e_start e) @ r0"
    by (simp add: kernel_line_def r0_def r1_def r2_def r3_def r4_def r5_def r6_def)
  have hex: "scan_number 16 (hex8 n @ r) = Some (n, r)" if "n < usize_bound" "\<not> starts_digit 16 r" for n r
    using scan_number_padded [of 16 r n 8] that by (simp add: hex8_def)
  have hex2: "scan_number 16 (zero_pad 2 (digits 16 n) @ r) = Some (n, r)" if "n < usize_bound" "\<not> starts_digit 16 r" for n r
    using scan_number_padded [of 16 r n 2] that by simp
  have dec: "scan_number 10 (digits 10 n @ r) = Some (n, r)" if "n < usize_bound" "\<not> starts_digit 10 r" for n r
    using scan_number_padded [of 10 r n 0] that by (simp add: zero_pad_def)
  have s0: "scan_number 16 (kernel_line e k path) = Some (e_start e, r0)"
    unfolding line using e by (intro hex) (simp_all add: entry_ok_def r0_def)
  have s1: "scan_number 16 (hex8 (e_end e) @ r1) = Some (e_end e, r1)"
    using e by (intro hex) (simp_all add: entry_ok_def r1_def)
  have pn: "e_perms e \<noteq> []" using e by (auto simp: entry_ok_def)
  have s2: "dropWhile isspace r1 = e_perms e @ r2"
    using e pn by (cases "e_perms e") (auto simp: r1_def entry_ok_def isspace_def [of "CHR '' ''"])
  have s3: "scan_number 16 r2 = Some (e_offset e, r3)"
    unfolding r2_def scan_number_space using e by (intro hex) (simp_all add: entry_ok_def r3_def)
  have s4: "scan_number 16 r3 = Some (e_major e, r4)"
    unfolding r3_def scan_number_space using e by (intro hex2) (simp_all add: entry_ok_def r4_def)
  have s5: "scan_number 16 (zero_pad 2 (digits 16 (e_minor e)) @ r5) = Some (e_minor e, r5)"
    using e by (intro hex2) (simp_all add: entry_ok_def r5_def)
  have s6: "scan_number 10 r5 = Some (e_inode e, r6)"
    unfolding r5_def scan_number_space using e by (intro dec) (simp_all add: entry_ok_def r6_def)
  have s7: "dropWhile isspace r6 = path" unfolding r6_def using p by (rule drop_spaces)
  have l: "literal (CHR ''-'') r0 = Some (hex8 (e_end e) @ r1)"
    "literal (CHR '':'') r4 = Some (zero_pad 2 (digits 16 (e_minor e)) @ r5)"
    by (simp_all add: literal_def r0_def r4_def)
  have pl: "length (e_perms e) = 4" using e by (simp add: entry_ok_def)
  show ?thesis
    by (simp add: sscanf_line_def s0 l s1 s2 pl s3 s4 s5 s6 s7 Let_def)
qed


definition sample_entry :: maps_entry where
  "sample_entry = \<lparr>e_start = 0x7f0000, e_end = 0x7f1000, e_perms = ''r-xp'', e_offset = 0, e_major = 8, e_minor = 1, e_inode = 42\<rparr>"


section \<open>The table of threads\<close>

text \<open>No thread has two entries.\<close>
definition table_wf :: "all_threads_metadata \<Rightarrow> bool" where
  "table_wf T \<longleftrightarrow> num_threads T \<le> MAX_THREADS \<and> inj_on (tids T) {..<num_threads T}"

lemma find_tid_Some: "find_tid T tid = Some i \<Longrightarrow> i < num_threads T \<and> tids T i = tid"
  by (auto simp: find_tid_def find_Some_iff)

lemma find_tid_None: "find_tid T tid = None \<longleftrightarrow> (\<forall>i < num_threads T. tids T i \<noteq> tid)"
  by (auto simp: find_tid_def find_None_iff)

text \<open>
  The table of threads.  While fewer than 512 threads are known, asking for
  the entry of the current thread returns its one entry, adds at most that one,
  keeps all entries of other threads and the table free of duplicates.  Once 512
  threads are known the function aborts even for a thread that has an entry,
  although it is documented to abort only when an entry has to be added and
  there is no room.
\<close>
lemma thread_table_lookup:
  assumes wf: "table_wf T"
  shows "(num_threads T < MAX_THREADS \<longrightarrow>
      (\<exists>i T'. metadata_get_for_current_thread True True tid self T = Some (i, T') \<and> table_wf T' \<and>
        i < num_threads T' \<and> tids T' i = tid \<and>
        num_threads T' = (if \<exists>j < num_threads T. tids T j = tid then num_threads T else num_threads T + 1) \<and>
        (\<forall>j < num_threads T. tids T' j = tids T j \<and> metadata_of T' j = metadata_of T j))) \<and>
    (num_threads T = MAX_THREADS \<longrightarrow>
      metadata_get_for_current_thread True True (tids T j) self T = None)"
proof (intro conjI impI)
  assume lt: "num_threads T < MAX_THREADS"
  show "\<exists>i T'. metadata_get_for_current_thread True True tid self T = Some (i, T') \<and> table_wf T' \<and>
        i < num_threads T' \<and> tids T' i = tid \<and>
        num_threads T' = (if \<exists>j < num_threads T. tids T j = tid then num_threads T else num_threads T + 1) \<and>
        (\<forall>j < num_threads T. tids T' j = tids T j \<and> metadata_of T' j = metadata_of T j)"
  proof (cases "find_tid T tid")
    case None
    let ?n = "num_threads T"
    let ?T = "T\<lparr>num_threads := ?n + 1, tids := (tids T)(?n := tid),
        metadata_of := (metadata_of T)(?n := (metadata_of T ?n)\<lparr>md_tid := tid, md_thread := self\<rparr>)\<rparr>"
    have new: "\<forall>i < ?n. tids T i \<noteq> tid" using None by (simp add: find_tid_None)
    have "inj_on ((tids T)(?n := tid)) {..<Suc ?n}"
      using wf new by (auto simp: table_wf_def inj_on_def less_Suc_eq)
    then have "table_wf ?T" using lt by (simp add: table_wf_def)
    moreover have "metadata_get_for_current_thread True True tid self T = Some (?n, ?T)"
      using None lt by (simp add: metadata_get_for_current_thread_def Let_def)
    ultimately show ?thesis using new by (intro exI [of _ ?n] exI [of _ ?T]) auto
  next
    case (Some i)
    then have "metadata_get_for_current_thread True True tid self T = Some (i, T)"
      using lt by (simp add: metadata_get_for_current_thread_def)
    then show ?thesis using find_tid_Some [OF Some] wf by (intro exI [of _ i] exI [of _ T]) auto
  qed
qed (simp add: metadata_get_for_current_thread_def)

definition sample_table :: all_threads_metadata where
  "sample_table =
    \<lparr>num_threads = MAX_THREADS, tids = int,
     metadata_of = (\<lambda>_. \<lparr>md_tid = 0, md_thread = 0, start_fn = None, stack_addrs = (\<lambda>_. 0), tls_addrs = (\<lambda>_. 0),
       tls_addr_compartment1_first = 0, tls_addr_compartment1_second = 0\<rparr>)\<rparr>"

lemma thread_table_lookup_witness:
  "metadata_get_for_current_thread True True 7 0 sample_table = None"
  using thread_table_lookup [of sample_table 7 0 7]
  by (simp add: sample_table_def table_wf_def inj_on_def)

end
