(* ===== verification/Type_Registry.thy ===== *)
theory Type_Registry
  imports IA2_Prelude
begin

text \<open>
  The registry of object types (\<open>runtime/type-registry\<close>) that generated wrappers
  consult before they pass a pointer on: a map from addresses to type ids.  An
  operation returns the new map and whether it panicked; a panic unwinds out of the
  operation, so the map it leaves behind matters.
\<close>

type_synonym PtrAddr = nat
type_synonym TypeId = u32

record TypeRegistry =
  type_map :: "PtrAddr \<Rightarrow> TypeId option"

datatype registry_outcome = Done | Panicked_already TypeId | Panicked_untyped | Panicked_differs TypeId

definition registry_new :: TypeRegistry where
  "registry_new = \<lparr> type_map = Map.empty \<rparr>"

definition construct :: "PtrAddr \<Rightarrow> TypeId \<Rightarrow> TypeRegistry \<Rightarrow> registry_outcome \<times> TypeRegistry" where
  "construct ptr type_id R =
    (let prev_type_id = type_map R ptr; R' = R\<lparr>type_map := (type_map R)(ptr \<mapsto> type_id)\<rparr> in
     case prev_type_id of None \<Rightarrow> (Done, R') | Some prev \<Rightarrow> (Panicked_already prev, R'))"

definition destruct :: "PtrAddr \<Rightarrow> TypeId \<Rightarrow> TypeRegistry \<Rightarrow> registry_outcome \<times> TypeRegistry" where
  "destruct ptr expected_type_id R =
    (let type_id = type_map R ptr; R' = R\<lparr>type_map := (type_map R)(ptr := None)\<rparr> in
     if type_id = None then (Panicked_untyped, R') else (Done, R'))"

definition check :: "PtrAddr \<Rightarrow> TypeId \<Rightarrow> TypeRegistry \<Rightarrow> registry_outcome" where
  "check ptr expected_type_id R =
    (case type_map R ptr of
       None \<Rightarrow> Panicked_untyped
     | Some type_id \<Rightarrow> if type_id \<noteq> expected_type_id then Panicked_differs type_id else Done)"

text \<open>The calls of a program, in order; the first panic ends the run.\<close>
datatype registry_call = Construct PtrAddr TypeId | Destruct PtrAddr TypeId | Check PtrAddr TypeId

fun registry_step :: "registry_call \<Rightarrow> TypeRegistry \<Rightarrow> registry_outcome \<times> TypeRegistry" where
  "registry_step (Construct p t) R = construct p t R"
| "registry_step (Destruct p t) R = destruct p t R"
| "registry_step (Check p t) R = (check p t R, R)"

fun registry_run :: "registry_call list \<Rightarrow> TypeRegistry \<Rightarrow> TypeRegistry option" where
  "registry_run [] R = Some R"
| "registry_run (c # cs) R = (case registry_step c R of (Done, R') \<Rightarrow> registry_run cs R' | _ \<Rightarrow> None)"

section \<open>What the history says\<close>

text \<open>The type an address has after a history, from the last construction or destruction there.\<close>
fun lifetime :: "registry_call list \<Rightarrow> PtrAddr \<Rightarrow> TypeId option \<Rightarrow> TypeId option" where
  "lifetime [] p cur = cur"
| "lifetime (Construct q t # cs) p cur = lifetime cs p (if q = p then Some t else cur)"
| "lifetime (Destruct q t # cs) p cur = lifetime cs p (if q = p then None else cur)"
| "lifetime (Check q t # cs) p cur = lifetime cs p cur"

text \<open>
  The discipline the registry enforces: objects are constructed only where none
  lives, destructed only where one lives, and checked against the type they have.
\<close>
fun well_timed :: "registry_call list \<Rightarrow> (PtrAddr \<Rightarrow> TypeId option) \<Rightarrow> bool" where
  "well_timed [] m = True"
| "well_timed (Construct p t # cs) m = (m p = None \<and> well_timed cs (m(p \<mapsto> t)))"
| "well_timed (Destruct p t # cs) m = (m p \<noteq> None \<and> well_timed cs (m(p := None)))"
| "well_timed (Check p t # cs) m = (m p = Some t \<and> well_timed cs m)"

lemma registry_op_simps [simp]:
  "construct p t R = (case type_map R p of None \<Rightarrow> Done | Some t' \<Rightarrow> Panicked_already t',
     R\<lparr>type_map := (type_map R)(p \<mapsto> t)\<rparr>)"
  "destruct p t R = (if type_map R p = None then Panicked_untyped else Done,
     R\<lparr>type_map := (type_map R)(p := None)\<rparr>)"
  by (auto simp: construct_def destruct_def Let_def split: option.splits)

lemma check_Done [simp]: "check p t R = Done \<longleftrightarrow> type_map R p = Some t"
  by (auto simp: check_def split: option.splits)

lemma registry_step_Done:
  "registry_step c R = (Done, R') \<Longrightarrow> type_map R' p = lifetime [c] p (type_map R p)"
  by (cases c) (auto split: option.splits if_splits)

lemma lifetime_append: "lifetime (cs @ ds) p cur = lifetime ds p (lifetime cs p cur)"
  by (induction cs p cur rule: lifetime.induct) auto

lemma registry_run_type: "registry_run cs R = Some R' \<Longrightarrow> type_map R' p = lifetime cs p (type_map R p)"
proof (induction cs arbitrary: R)
  case (Cons c cs)
  then obtain R1 where s: "registry_step c R = (Done, R1)" "registry_run cs R1 = Some R'"
    by (auto split: prod.splits registry_outcome.splits)
  show ?case using Cons.IH [OF s(2)] registry_step_Done [OF s(1), of p] lifetime_append [of "[c]" cs] by simp
qed simp

lemma registry_run_iff: "registry_run cs R \<noteq> None \<longleftrightarrow> well_timed cs (type_map R)"
proof (induction cs arbitrary: R)
  case (Cons c cs)
  show ?case
  proof (cases c)
    case (Check p t)
    then show ?thesis using Cons.IH [of R] by (cases "check p t R") (auto simp: check_def split: option.splits if_splits)
  qed (use Cons.IH in \<open>auto simp: fun_upd_def split: option.splits\<close>)
qed simp



end
