(* ===== verification/Type_Ops.thy ===== *)
theory Type_Ops
  imports Type_Registry Gen_Call_Asm
begin

text \<open>
  How the rewriter numbers types (\<open>TypeOps.cpp\<close>), finds their constructors and
  destructors (the class \<open>Structors\<close> of \<open>SourceRewriter.cpp\<close>) and fills the context
  from which wrappers are generated, and how the ids meet the run-time registry.
  \<^term>\<open>None\<close> is a fatal error or a failed assertion.
\<close>

section \<open>Interned types\<close>

record TypeInfo =
  info_id :: TypeId
  info_name :: string
  canonical_name :: string
  constructor :: "string option"
  destructor :: "string option"

definition set_constructor :: "string \<Rightarrow> TypeInfo \<Rightarrow> TypeInfo option" where
  "set_constructor constructor_name info =
    (if constructor info \<noteq> None then None else Some (info\<lparr>constructor := Some constructor_name\<rparr>))"

definition set_destructor :: "string \<Rightarrow> TypeInfo \<Rightarrow> TypeInfo option" where
  "set_destructor destructor_name info =
    (if destructor info \<noteq> None then None else Some (info\<lparr>destructor := Some destructor_name\<rparr>))"

definition has_structors :: "TypeInfo \<Rightarrow> bool" where
  "has_structors info \<longleftrightarrow> constructor info \<noteq> None \<and> destructor info \<noteq> None"

definition info_check :: "TypeInfo \<Rightarrow> bool" where
  "info_check info \<longleftrightarrow> (constructor info \<noteq> None \<longleftrightarrow> destructor info \<noteq> None)"

record TypeInfoInterner =
  ids :: "string \<Rightarrow> TypeId option"
  infos :: "TypeInfo list"

definition interner_new :: TypeInfoInterner where
  "interner_new = \<lparr> ids = Map.empty, infos = [] \<rparr>"

definition intern_from_strings :: "string \<Rightarrow> string \<Rightarrow> TypeInfoInterner \<Rightarrow> TypeId \<times> TypeInfoInterner" where
  "intern_from_strings canon nm I =
    (case ids I canon of
       Some i \<Rightarrow> (i, I)
     | None \<Rightarrow>
         let i = word_of_nat (length (infos I)) in
         (i, \<lparr> ids = (ids I)(canon \<mapsto> i),
               infos = infos I @ [\<lparr> info_id = i, info_name = nm, canonical_name = canon,
                                    constructor = None, destructor = None \<rparr>] \<rparr>))"

definition get_info :: "TypeInfoInterner \<Rightarrow> TypeId \<Rightarrow> TypeInfo" where
  "get_info I i = infos I ! unat i"

definition interner_check :: "TypeInfoInterner \<Rightarrow> bool" where
  "interner_check I \<longleftrightarrow> list_all info_check (infos I)"

section \<open>Constructors and destructors\<close>

text \<open>
  What the pass reads of an annotated function: its name, its annotations, and its
  parameters with the canonical name, the name and whether it is a pointer.
\<close>
record annotated_func =
  func_name :: string
  annotations :: "string list"
  params :: "(string \<times> string \<times> bool) list"

definition CONSTRUCTOR_ATTR :: string where "CONSTRUCTOR_ATTR = ''ia2_constructor''"
definition DESTRUCTOR_ATTR :: string where "DESTRUCTOR_ATTR = ''ia2_destructor''"

definition structors_attr :: "annotated_func \<Rightarrow> string \<Rightarrow> TypeInfoInterner \<Rightarrow> TypeInfoInterner option" where
  "structors_attr func annotation I =
    (let is_constructor = (annotation = CONSTRUCTOR_ATTR); is_destructor = (annotation = DESTRUCTOR_ATTR) in
     if \<not> (is_constructor \<or> is_destructor) then Some I
     else if is_constructor \<and> length (params func) < 1 then None
     else if is_destructor \<and> length (params func) \<noteq> 1 then None
     else
       (case hd (params func) of
          (canon, nm, is_pointer) \<Rightarrow>
            if \<not> is_pointer then None
            else
              (case intern_from_strings canon nm I of
                 (i, I1) \<Rightarrow>
                   map_option (\<lambda>info. I1\<lparr>infos := (infos I1)[unat i := info]\<rparr>)
                     ((if is_constructor then set_constructor else set_destructor) (func_name func) (get_info I1 i)))))"

fun structors_attrs :: "annotated_func \<Rightarrow> string list \<Rightarrow> TypeInfoInterner \<Rightarrow> TypeInfoInterner option" where
  "structors_attrs func [] I = Some I"
| "structors_attrs func (a # as) I = Option.bind (structors_attr func a I) (structors_attrs func as)"

definition structors_run :: "annotated_func \<Rightarrow> TypeInfoInterner \<Rightarrow> TypeInfoInterner option" where
  "structors_run func I = structors_attrs func (annotations func) I"

text \<open>The class \<open>AnnotationPrefixFunctions\<close>: annotations with a prefix, keyed by what follows it.\<close>
definition prefix_functions :: "string \<Rightarrow> annotated_func \<Rightarrow> (string \<times> string) list" where
  "prefix_functions pre func =
    map (\<lambda>a. (drop (length pre) a, func_name func)) (filter (\<lambda>a. take (length pre) a = pre) (annotations func))"

definition PRE_CONDITION_ATTR_PREFIX :: string where "PRE_CONDITION_ATTR_PREFIX = ''ia2_pre_condition:''"
definition POST_CONDITION_ATTR_PREFIX :: string where "POST_CONDITION_ATTR_PREFIX = ''ia2_post_condition:''"

fun run_structors :: "annotated_func list \<Rightarrow> TypeInfoInterner \<Rightarrow> TypeInfoInterner option" where
  "run_structors [] I = Some I"
| "run_structors (f # fs) I = Option.bind (structors_run f I) (run_structors fs)"

text \<open>The annotation pass of \<open>main\<close>, up to the context handed to the generator.\<close>
definition annotation_pass :: "annotated_func list \<Rightarrow> (TypeInfoInterner \<times> Context) option" where
  "annotation_pass funcs =
    do { I \<leftarrow> run_structors funcs interner_new;
         if \<not> interner_check I then None
         else
           let typed = filter has_structors (infos I) in
           Some (I, \<lparr> ctx_constructors = map (\<lambda>i. the (constructor i)) typed,
                      ctx_destructors = map (\<lambda>i. the (destructor i)) typed,
                      ctx_has_structors = (\<lambda>n. n < length (infos I) \<and> has_structors (infos I ! n)),
                      pre_condition_funcs = concat (map (prefix_functions PRE_CONDITION_ATTR_PREFIX) funcs),
                      post_condition_funcs = concat (map (prefix_functions POST_CONDITION_ATTR_PREFIX) funcs) \<rparr>) }"

section \<open>The numbering is consistent\<close>

definition interner_wf :: "TypeInfoInterner \<Rightarrow> bool" where
  "interner_wf I \<longleftrightarrow>
    length (infos I) \<le> 2 ^ 32 \<and>
    (\<forall>n < length (infos I). info_id (infos I ! n) = word_of_nat n \<and>
       ids I (canonical_name (infos I ! n)) = Some (word_of_nat n)) \<and>
    (\<forall>c i. ids I c = Some i \<longrightarrow> unat i < length (infos I) \<and> canonical_name (infos I ! unat i) = c)"

lemma unat_small: "n < 2 ^ 32 \<Longrightarrow> unat (word_of_nat n :: u32) = n"
  by (simp add: unat_of_nat take_bit_nat_eq_self)

lemma interner_wf_new [simp]: "interner_wf interner_new"
  by (simp add: interner_wf_def interner_new_def)

lemma intern_wf:
  assumes wf: "interner_wf I" and room: "length (infos I) < 2 ^ 32" and i: "intern_from_strings c nm I = (i, I')"
  shows "interner_wf I'" "ids I' c = Some i" "\<And>d j. ids I d = Some j \<Longrightarrow> ids I' d = Some j"
    "length (infos I') \<le> Suc (length (infos I))"
proof -
  have "interner_wf I' \<and> ids I' c = Some i \<and> (\<forall>d j. ids I d = Some j \<longrightarrow> ids I' d = Some j) \<and>
      length (infos I') \<le> Suc (length (infos I))"
  proof (cases "ids I c")
    case (Some j)
    then show ?thesis using i wf by (simp add: intern_from_strings_def)
  next
    case None
    let ?n = "length (infos I)"
    have n: "unat (word_of_nat ?n :: u32) = ?n" using room by (rule unat_small)
    have I': "i = word_of_nat ?n" "ids I' = (ids I)(c \<mapsto> word_of_nat ?n)"
      "infos I' = infos I @ [\<lparr> info_id = word_of_nat ?n, info_name = nm, canonical_name = c, constructor = None, destructor = None \<rparr>]"
      using i None by (auto simp: intern_from_strings_def Let_def)
    have old: "canonical_name (infos I ! k) \<noteq> c" if "k < ?n" for k
      using wf that None unfolding interner_wf_def by force
    have "interner_wf I'"
      using wf room old unfolding interner_wf_def I' by (auto simp: nth_append n less_Suc_eq)
    then show ?thesis using I' None by auto
  qed
  then show "interner_wf I'" "ids I' c = Some i" "\<And>d j. ids I d = Some j \<Longrightarrow> ids I' d = Some j"
    "length (infos I') \<le> Suc (length (infos I))" by blast+
qed

lemma ids_inj: "interner_wf I \<Longrightarrow> ids I c = Some i \<Longrightarrow> ids I d = Some i \<Longrightarrow> c = d"
  unfolding interner_wf_def by metis

text \<open>Setting a constructor or destructor changes neither the id nor the name of a type.\<close>
lemma set_structor_fields:
  "set_constructor f info = Some info' \<or> set_destructor f info = Some info' \<Longrightarrow>
    info_id info' = info_id info \<and> canonical_name info' = canonical_name info"
  by (auto simp: set_constructor_def set_destructor_def split: if_splits)

lemma structors_attr_wf:
  assumes wf: "interner_wf I" and room: "length (infos I) < 2 ^ 32" and r: "structors_attr func a I = Some I'"
  shows "interner_wf I' \<and> length (infos I') \<le> Suc (length (infos I))"
proof (cases "a = CONSTRUCTOR_ATTR \<or> a = DESTRUCTOR_ATTR")
  case False
  then show ?thesis using wf r by (simp add: structors_attr_def)
next
  case True
  obtain c nm ptr where h: "hd (params func) = (c, nm, ptr)" by (cases "hd (params func)")
  obtain i I1 where i: "intern_from_strings c nm I = (i, I1)" by (cases "intern_from_strings c nm I")
  from r True obtain info where info:
      "set_constructor (func_name func) (get_info I1 i) = Some info \<or> set_destructor (func_name func) (get_info I1 i) = Some info"
    and I': "I' = I1\<lparr>infos := (infos I1)[unat i := info]\<rparr>"
    by (auto simp: structors_attr_def Let_def h i split: if_splits)
  note f = set_structor_fields [OF info]
  have "interner_wf I1" by (rule intern_wf(1) [OF wf room i])
  moreover have "info_id (infos I' ! k) = info_id (infos I1 ! k) \<and> canonical_name (infos I' ! k) = canonical_name (infos I1 ! k)"
    if "k < length (infos I1)" for k
    using f that unfolding I' get_info_def by (cases "k = unat i") simp_all
  moreover have "ids I' = ids I1" "length (infos I') = length (infos I1)" by (simp_all add: I')
  ultimately have "interner_wf I'" unfolding interner_wf_def by metis
  then show ?thesis using intern_wf(4) [OF wf room i] I' by simp
qed

lemma structors_attrs_wf:
  assumes "interner_wf I" "length (infos I) + length as \<le> 2 ^ 32" "structors_attrs func as I = Some I'"
  shows "interner_wf I' \<and> length (infos I') \<le> length (infos I) + length as"
  using assms
proof (induction as arbitrary: I)
  case (Cons a as)
  from Cons.prems(3) obtain I1 where I1: "structors_attr func a I = Some I1" "structors_attrs func as I1 = Some I'"
    by (auto split: bind_splits)
  have "length (infos I) < 2 ^ 32" using Cons.prems(2) by simp
  from structors_attr_wf [OF Cons.prems(1) this I1(1)]
  have w: "interner_wf I1" "length (infos I1) \<le> Suc (length (infos I))" by simp_all
  then have "length (infos I1) + length as \<le> 2 ^ 32" using Cons.prems(2) by simp
  from Cons.IH [OF w(1) this I1(2)] show ?case using w(2) by simp
qed simp

definition attr_count :: "annotated_func list \<Rightarrow> nat" where
  "attr_count funcs = sum_list (map (\<lambda>f. length (annotations f)) funcs)"

lemma run_structors_wf:
  assumes "interner_wf I" "length (infos I) + attr_count funcs \<le> 2 ^ 32" "run_structors funcs I = Some I'"
  shows "interner_wf I' \<and> length (infos I') \<le> length (infos I) + attr_count funcs"
  using assms
proof (induction funcs arbitrary: I)
  case (Cons f fs)
  from Cons.prems(3) obtain I1 where I1: "structors_run f I = Some I1" "run_structors fs I1 = Some I'"
    by (auto split: bind_splits)
  have "length (infos I) + length (annotations f) \<le> 2 ^ 32" using Cons.prems(2) by (simp add: attr_count_def)
  from structors_attrs_wf [OF Cons.prems(1) this I1(1) [unfolded structors_run_def]]
  have w: "interner_wf I1" "length (infos I1) \<le> length (infos I) + length (annotations f)" by simp_all
  then have "length (infos I1) + attr_count fs \<le> 2 ^ 32" using Cons.prems(2) by (simp add: attr_count_def)
  from Cons.IH [OF w(1) this I1(2)] show ?case using w(2) by (simp add: attr_count_def)
qed (simp add: attr_count_def)

text \<open>The types of the functions that are wrapped later are interned one after the other.\<close>
fun intern_all :: "(string \<times> string) list \<Rightarrow> TypeInfoInterner \<Rightarrow> TypeId list \<times> TypeInfoInterner" where
  "intern_all [] I = ([], I)"
| "intern_all ((c, nm) # ts) I =
    (case intern_from_strings c nm I of (i, I1) \<Rightarrow> case intern_all ts I1 of (is, I2) \<Rightarrow> (i # is, I2))"

lemma intern_all_ids:
  assumes "interner_wf I" "length (infos I) + length ts \<le> 2 ^ 32" "intern_all ts I = (is, I')"
  shows "interner_wf I' \<and> length is = length ts \<and> (\<forall>k < length ts. ids I' (fst (ts ! k)) = Some (is ! k)) \<and>
    (\<forall>d j. ids I d = Some j \<longrightarrow> ids I' d = Some j)"
  using assms
proof (induction ts arbitrary: I "is")
  case (Cons t ts)
  obtain c nm where t: "t = (c, nm)" by (cases t)
  obtain i I1 where i: "intern_from_strings c nm I = (i, I1)" by (cases "intern_from_strings c nm I")
  obtain js where js: "intern_all ts I1 = (js, I')" "is = i # js"
    using Cons.prems(3) by (auto simp: t i split: prod.splits)
  have room: "length (infos I) < 2 ^ 32" using Cons.prems(2) by simp
  note w = intern_wf [OF Cons.prems(1) room i]
  have "length (infos I1) + length ts \<le> 2 ^ 32" using w(4) Cons.prems(2) by simp
  note IH = Cons.IH [OF w(1) this js(1)]
  have "ids I' (fst ((t # ts) ! k)) = Some (is ! k)" if "k < length (t # ts)" for k
    using IH w(2) that by (cases k) (simp_all add: t js(2))
  then show ?case using IH w(3) by (auto simp: js(2))
qed simp

text \<open>
  C25. Type ids separate types.  After the annotation pass, let the rewriter intern any
  list of types, with less than \<open>2\<^sup>3\<^sup>2\<close> of them altogether.  Two of them get the same id
  exactly if their canonical names agree; and at run time, an object registered
  under one of these ids passes a check for another exactly if the types agree.
\<close>
theorem type_ids_separate_types:
  assumes "annotation_pass funcs = Some (I, ctx)" "attr_count funcs + length ts \<le> 2 ^ 32"
    and "intern_all ts I = (is, I')" "a < length ts" "b < length ts"
  shows "(is ! a = is ! b \<longleftrightarrow> fst (ts ! a) = fst (ts ! b)) \<and>
    (check p (is ! b) (snd (construct p (is ! a) registry_new)) = Done \<longleftrightarrow> fst (ts ! a) = fst (ts ! b))"
proof -
  have r: "run_structors funcs interner_new = Some I"
    using assms(1) by (auto simp: annotation_pass_def Let_def split: bind_splits if_splits)
  have "length (infos interner_new) + attr_count funcs \<le> 2 ^ 32" using assms(2) by (simp add: interner_new_def)
  from run_structors_wf [OF interner_wf_new this r]
  have w: "interner_wf I" "length (infos I) \<le> attr_count funcs" by (simp_all add: interner_new_def)
  then have "length (infos I) + length ts \<le> 2 ^ 32" using assms(2) by simp
  note J = intern_all_ids [OF w(1) this assms(3)]
  have wf: "interner_wf I'" and A: "ids I' (fst (ts ! a)) = Some (is ! a)" and B: "ids I' (fst (ts ! b)) = Some (is ! b)"
    using J assms(4,5) by blast+
  have eq: "is ! a = is ! b \<longleftrightarrow> fst (ts ! a) = fst (ts ! b)"
  proof
    assume "is ! a = is ! b"
    then show "fst (ts ! a) = fst (ts ! b)" using ids_inj [OF wf A] B by simp
  next
    assume "fst (ts ! a) = fst (ts ! b)"
    then show "is ! a = is ! b" using A B by simp
  qed
  have "check p (is ! b) (snd (construct p (is ! a) registry_new)) = Done \<longleftrightarrow> is ! a = is ! b"
    by (simp add: registry_new_def)
  then show ?thesis using eq by simp
qed

definition sample_funcs :: "annotated_func list" where
  "sample_funcs = [\<lparr> func_name = ''new_a'', annotations = [''ia2_constructor''], params = [(''a *'', ''a *'', True)] \<rparr>,
     \<lparr> func_name = ''free_a'', annotations = [''ia2_destructor''], params = [(''a *'', ''a *'', True)] \<rparr>]"

theorem type_ids_separate_types_witness:
  "\<exists>I ctx. annotation_pass sample_funcs = Some (I, ctx) \<and>
    (\<exists>i j I'. intern_all [(''b *'', ''b *''), (''a *'', ''A'')] I = ([i, j], I') \<and> i \<noteq> j)"
proof -
  obtain I ctx where p: "annotation_pass sample_funcs = Some (I, ctx)"
    by (simp add: annotation_pass_def sample_funcs_def structors_run_def structors_attr_def CONSTRUCTOR_ATTR_def
        DESTRUCTOR_ATTR_def intern_from_strings_def interner_new_def get_info_def set_constructor_def set_destructor_def
        interner_check_def info_check_def Let_def)
  let ?ts = "[(''b *'', ''b *''), (''a *'', ''A'')]"
  obtain i I1 where i: "intern_from_strings ''b *'' ''b *'' I = (i, I1)" by (cases "intern_from_strings ''b *'' ''b *'' I")
  obtain j I' where j: "intern_from_strings ''a *'' ''A'' I1 = (j, I')" by (cases "intern_from_strings ''a *'' ''A'' I1")
  have J: "intern_all ?ts I = ([i, j], I')" by (simp add: i j)
  have "attr_count sample_funcs + length ?ts \<le> 2 ^ 32" by (simp add: attr_count_def sample_funcs_def)
  from type_ids_separate_types [OF p this J, of 0 1] have "i \<noteq> j" by simp
  then show ?thesis using p J by blast
qed

end
