(* ===== verification/Wrapper_Plan.thy ===== *)
theory Wrapper_Plan
  imports Gen_Call_Asm Maps_Log "HOL-Library.RBT" "HOL-Library.Char_ord" "HOL-Library.List_Lexorder" "HOL-Library.Sublist"
begin

text \<open>
  The planning of call gates in \<open>SourceRewriter.cpp\<close>: what the passes over the
  declarations and the calls of a program collect, the sorting of functions by the
  number of compartments that call them, and the generation of the gates and of the
  arguments for the linker and for \<open>objcopy\<close>.

  A \<open>std::map\<close> that is iterated is a red-black tree, one that is only looked up is a
  function to options, a \<open>std::set\<close> is a set; iteration is in the order of the keys.
  What Clang answers about a declaration is a record.  \<^term>\<open>None\<close> is an \<open>abort\<close>, an
  \<open>exit\<close> with an error or a failed assertion.  Text written to the terminal is left out.
\<close>

section \<open>Options and the compartment of a source file\<close>

type_synonym Function = string
type_synonym Filename = string
type_synonym Pkey = nat
type_synonym OpaqueStruct = string

definition MAX_PKEYS :: nat where "MAX_PKEYS = 16"

definition kLibcCompartmentPkey :: Pkey where "kLibcCompartmentPkey = 1"

record options =
  gLibcCompartmentEnabled :: bool
  Target :: Arch
  RootDirectory :: string
  OutputDirectory :: string

definition kSkipLibcSystemAutowrap :: "Function list" where
  "kSkipLibcSystemAutowrap = [''calloc'', ''free'', ''malloc'', ''memalign'', ''posix_memalign'', ''pvalloc'', ''realloc'', ''valloc'',
     ''malloc_usable_size'', ''realpath'', ''strdup'', ''strndup'', ''getcwd'', ''asprintf'', ''vasprintf'']"

definition get_ldso_functions :: "Function list" where
  "get_ldso_functions = [''_dl_debug_state'', ''dl_iterate_phdr'', ''dladdr'', ''dladdr1'', ''dlclose'', ''dlerror'', ''dlinfo'', ''dlmopen'',
     ''dlopen'', ''dlsym'', ''dlvsym'']"

definition is_ldso_function :: "Function \<Rightarrow> bool" where
  "is_ldso_function fn_name = (fn_name \<in> set get_ldso_functions)"

definition PKEY_DEFINE :: string where "PKEY_DEFINE = ''-DPKEY=''"

record CompileCommand =
  CommandLine :: "string list"
  cc_Filename :: Filename

definition is_pkey_define :: "string \<Rightarrow> bool" where
  "is_pkey_define s = prefix PKEY_DEFINE s"

definition has_pkey_define :: "CompileCommand \<Rightarrow> bool" where
  "has_pkey_define cc = list_ex is_pkey_define (CommandLine cc)"

text \<open>\<open>std::stoi\<close> on a decimal number; \<^term>\<open>None\<close> is an exception.\<close>
definition stoi :: "string \<Rightarrow> int option" where
  "stoi s =
    (let s1 = dropWhile isspace s;
         neg = (s1 \<noteq> [] \<and> hd s1 = CHR ''-''); s2 = (if s1 \<noteq> [] \<and> hd s1 \<in> set ''+-'' then tl s1 else s1) in
     if \<not> starts_digit 10 s2 then None
     else
       let v = (if neg then - int (fst (scan_digits 10 s2 0)) else int (fst (scan_digits 10 s2 0))) in
       if - (2 ^ 31) \<le> v \<and> v < 2 ^ 31 then Some v else None)"

text \<open>
  The compartment of a file.  With more than one command the vector is cut to its first
  entry, while the iterator may point to a later one, which no longer exists.
\<close>
datatype pkey_result = Pkey_found int | Pkey_missing | Pkey_abort | Dangling_command

definition pkey_from_commands :: "(Filename \<Rightarrow> CompileCommand list option) \<Rightarrow> Filename \<Rightarrow> pkey_result" where
  "pkey_from_commands get_commands s =
    (case get_commands s of
       None \<Rightarrow> Pkey_missing
     | Some comp_cmds \<Rightarrow>
         (case List.find (\<lambda>i. has_pkey_define (comp_cmds ! i)) [0..<length comp_cmds] of
            None \<Rightarrow> Pkey_missing
          | Some i \<Rightarrow>
              if length (take 1 comp_cmds) \<le> i then Dangling_command
              else
                let cc_cmd = comp_cmds ! i in
                (case List.find is_pkey_define (CommandLine cc_cmd) of
                   None \<Rightarrow> Pkey_missing
                 | Some pkey_define \<Rightarrow>
                     if s \<noteq> cc_Filename cc_cmd then Pkey_abort
                     else (case stoi (drop (length PKEY_DEFINE) pkey_define) of None \<Rightarrow> Pkey_abort | Some n \<Rightarrow> Pkey_found n))))"

text \<open>The keys in use must be 0 to N - 1 or 1 to N; the result is the number of compartments.\<close>
definition pkey_config :: "int set \<Rightarrow> nat option" where
  "pkey_config pkeys_used =
    (let num_pkeys = card pkeys_used; min_pkey = Min pkeys_used; max_pkey = Max pkeys_used in
     if \<not> num_pkeys < MAX_PKEYS then None
     else if min_pkey = 0 \<and> max_pkey = int num_pkeys - 1 then Some num_pkeys
     else if min_pkey = 1 \<and> max_pkey = int num_pkeys then Some (num_pkeys + 1)
     else None)"

section \<open>Declarations and calls\<close>

text \<open>
  What Clang says about a function declaration: its name, whether it is a definition,
  whether it stands in a system header, its first annotation, the file it is spelled in
  and the file it is expanded in, whether it is a builtin or variadic, its signature
  and the translation unit.
\<close>
record fn_node =
  node_name :: Function
  node_definition :: bool
  node_system_header :: bool
  node_annotation :: "string option"
  node_file :: Filename
  node_expansion_file :: Filename
  node_builtin :: bool
  node_variadic :: bool
  node_sig :: FnSignature
  node_unit :: Filename

record FnDecl =
  defined_fns :: "Pkey \<Rightarrow> Function set"
  declared_fns :: "Pkey \<Rightarrow> Function set"
  called_fns :: "Pkey \<Rightarrow> Function set"
  system_header_fns :: "Function set"
  variadic_system_fns :: "Function set"
  fn_signatures :: "Function \<Rightarrow> FnSignature option"
  fn_pkeys :: "Function \<Rightarrow> Pkey option"
  fn_definitions :: "Function \<Rightarrow> Filename option"

definition FnDecl_new :: FnDecl where
  "FnDecl_new = \<lparr>defined_fns = \<lambda>_. {}, declared_fns = \<lambda>_. {}, called_fns = \<lambda>_. {}, system_header_fns = {}, variadic_system_fns = {},
     fn_signatures = (\<lambda>_. None), fn_pkeys = (\<lambda>_. None), fn_definitions = (\<lambda>_. None)\<rparr>"

definition should_not_modify_file :: "options \<Rightarrow> Filename \<Rightarrow> bool option" where
  "should_not_modify_file opts filename =
    (if filename = [] then Some False
     else if prefix (RootDirectory opts) filename \<and> \<not> prefix (OutputDirectory opts) filename then None
     else Some (\<not> prefix (OutputDirectory opts) filename))"

definition SKIP_WRAP_ATTR :: string where "SKIP_WRAP_ATTR = ''ia2_skip_wrap''"

definition ignore_function :: "options \<Rightarrow> fn_node \<Rightarrow> bool option" where
  "ignore_function opts node =
    (if prefix ''ia2_compartment_destructor'' (node_name node) then Some False
     else if node_annotation node = Some SKIP_WRAP_ATTR then Some True
     else should_not_modify_file opts (node_file node))"

definition insert_at :: "Pkey \<Rightarrow> Function \<Rightarrow> (Pkey \<Rightarrow> Function set) \<Rightarrow> Pkey \<Rightarrow> Function set" where
  "insert_at pkey fn_name fns = fns(pkey := insert fn_name (fns pkey))"

definition fn_decl_record :: "(Filename \<Rightarrow> Pkey option) \<Rightarrow> fn_node \<Rightarrow> FnDecl \<Rightarrow> FnDecl option" where
  "fn_decl_record get_file_pkey node D =
    (let fn_name = node_name node; D1 = D\<lparr>fn_signatures := (fn_signatures D)(fn_name \<mapsto> node_sig node)\<rparr> in
     case get_file_pkey (node_unit node) of
       None \<Rightarrow> None
     | Some pkey \<Rightarrow>
         if \<not> pkey < MAX_PKEYS then None
         else if node_definition node then
           Some (D1\<lparr>defined_fns := insert_at pkey fn_name (defined_fns D1), fn_pkeys := (fn_pkeys D1)(fn_name \<mapsto> pkey),
                    fn_definitions := (fn_definitions D1)(fn_name \<mapsto> node_expansion_file node)\<rparr>)
         else
           let D2 = D1\<lparr>declared_fns := insert_at pkey fn_name (declared_fns D1)\<rparr> in
           Some (if node_system_header node then D2\<lparr>system_header_fns := insert fn_name (system_header_fns D2)\<rparr> else D2))"

text \<open>The pass over declarations, with its early returns in order.\<close>
definition fn_decl_run :: "options \<Rightarrow> (Filename \<Rightarrow> Pkey option) \<Rightarrow> fn_node \<Rightarrow> FnDecl \<Rightarrow> FnDecl option" where
  "fn_decl_run opts get_file_pkey node D =
    (if node_system_header node \<and> (Target opts \<noteq> X86 \<or> \<not> gLibcCompartmentEnabled opts) then Some D
     else do {
       ignored \<leftarrow> (if node_system_header node \<or> gLibcCompartmentEnabled opts \<and> is_ldso_function (node_name node) then Some False
                  else ignore_function opts node);
       if ignored \<or> node_builtin node then Some D
       else if node_variadic node then
         Some (if node_system_header node then D\<lparr>variadic_system_fns := insert (node_name node) (variadic_system_fns D)\<rparr> else D)
       else fn_decl_record get_file_pkey node D })"

text \<open>The pass over direct calls: the called function and the translation unit of the call.\<close>
definition call_tracker_run :: "(Filename \<Rightarrow> Pkey option) \<Rightarrow> fn_node \<Rightarrow> Filename \<Rightarrow> FnDecl \<Rightarrow> FnDecl option" where
  "call_tracker_run get_file_pkey fn unit D =
    (case get_file_pkey unit of
       None \<Rightarrow> None
     | Some pkey \<Rightarrow>
         let D1 = D\<lparr>called_fns := insert_at pkey (node_name fn) (called_fns D)\<rparr> in
         Some (if node_variadic fn \<and> node_system_header fn
               then D1\<lparr>variadic_system_fns := insert (node_name fn) (variadic_system_fns D1)\<rparr> else D1))"

datatype ast_match = Match_decl fn_node | Match_call fn_node Filename

fun run_match :: "options \<Rightarrow> (Filename \<Rightarrow> Pkey option) \<Rightarrow> ast_match \<Rightarrow> FnDecl \<Rightarrow> FnDecl option" where
  "run_match opts get_file_pkey (Match_decl node) D = fn_decl_run opts get_file_pkey node D"
| "run_match opts get_file_pkey (Match_call fn unit) D = call_tracker_run get_file_pkey fn unit D"

text \<open>A loop whose body may abort.\<close>
fun foldM :: "('a \<Rightarrow> 's \<Rightarrow> 's option) \<Rightarrow> 'a list \<Rightarrow> 's \<Rightarrow> 's option" where
  "foldM f [] s = Some s"
| "foldM f (x # xs) s = Option.bind (f x s) (foldM f xs)"

section \<open>Sorting the functions by their callers\<close>

record call_plan =
  direct_call_wrappers :: "(Function, Pkey) rbt"
  multicaller_fns :: "(Function, Pkey set) rbt"

definition call_plan_new :: call_plan where
  "call_plan_new = \<lparr>direct_call_wrappers = RBT.empty, multicaller_fns = RBT.empty\<rparr>"

text \<open>\<open>std::map::insert\<close> keeps an entry that is there.\<close>
definition map_insert :: "'k::linorder \<Rightarrow> 'v \<Rightarrow> ('k, 'v) rbt \<Rightarrow> ('k, 'v) rbt" where
  "map_insert k v m = (if RBT.lookup m k = None then RBT.insert k v m else m)"

definition insert_new :: "'k \<Rightarrow> 'v \<Rightarrow> ('k \<Rightarrow> 'v option) \<Rightarrow> 'k \<Rightarrow> 'v option" where
  "insert_new k v m = (if m k = None then m(k \<mapsto> v) else m)"

text \<open>The functions of system headers that the loop passes over.\<close>
definition skip_system_fn :: "options \<Rightarrow> FnDecl \<Rightarrow> Pkey \<Rightarrow> Function \<Rightarrow> bool" where
  "skip_system_fn opts D caller_pkey fn_name =
    (fn_name \<in> system_header_fns D \<and>
     (gLibcCompartmentEnabled opts \<and> fn_name \<in> set kSkipLibcSystemAutowrap \<or> \<not> gLibcCompartmentEnabled opts \<or>
      fn_name \<notin> called_fns D caller_pkey))"

definition assign_system_fn :: "options \<Rightarrow> Function \<Rightarrow> FnDecl \<Rightarrow> FnDecl" where
  "assign_system_fn opts fn_name D =
    (if fn_pkeys D fn_name = None \<and> gLibcCompartmentEnabled opts \<and> fn_name \<notin> variadic_system_fns D \<and> fn_name \<in> system_header_fns D
     then D\<lparr>fn_pkeys := (fn_pkeys D)(fn_name \<mapsto> 1)\<rparr> else D)"

definition record_caller :: "Pkey \<Rightarrow> Function \<Rightarrow> call_plan \<Rightarrow> call_plan option" where
  "record_caller caller_pkey fn_name P =
    (case RBT.lookup (direct_call_wrappers P) fn_name of
       Some other_caller \<Rightarrow>
         if RBT.lookup (multicaller_fns P) fn_name \<noteq> None then None
         else Some (P\<lparr>direct_call_wrappers := RBT.delete fn_name (direct_call_wrappers P),
                      multicaller_fns := map_insert fn_name {caller_pkey, other_caller} (multicaller_fns P)\<rparr>)
     | None \<Rightarrow>
         (case RBT.lookup (multicaller_fns P) fn_name of
            Some callers \<Rightarrow> Some (P\<lparr>multicaller_fns := RBT.insert fn_name (insert caller_pkey callers) (multicaller_fns P)\<rparr>)
          | None \<Rightarrow> Some (P\<lparr>direct_call_wrappers := map_insert fn_name caller_pkey (direct_call_wrappers P)\<rparr>)))"

definition visit_fn :: "options \<Rightarrow> Pkey \<Rightarrow> Function \<Rightarrow> FnDecl \<times> call_plan \<Rightarrow> (FnDecl \<times> call_plan) option" where
  "visit_fn opts caller_pkey fn_name = (\<lambda>(D, P).
    if skip_system_fn opts D caller_pkey fn_name then Some (D, P)
    else
      let D1 = assign_system_fn opts fn_name D in
      if gLibcCompartmentEnabled opts \<and> is_ldso_function fn_name then Some (D1, P)
      else map_option (Pair D1) (record_caller caller_pkey fn_name P))"

definition visit_compartment :: "options \<Rightarrow> Pkey \<Rightarrow> FnDecl \<times> call_plan \<Rightarrow> (FnDecl \<times> call_plan) option" where
  "visit_compartment opts caller_pkey = (\<lambda>(D, P).
    foldM (visit_fn opts caller_pkey) (sorted_list_of_set (declared_fns D caller_pkey - defined_fns D caller_pkey)) (D, P))"

definition visit_compartments :: "options \<Rightarrow> nat \<Rightarrow> FnDecl \<Rightarrow> (FnDecl \<times> call_plan) option" where
  "visit_compartments opts num_pkeys D = foldM (visit_compartment opts) [0..<num_pkeys] (D, call_plan_new)"

text \<open>The loader functions are entered for every compartment in use.\<close>
definition record_ldso_caller :: "Function \<Rightarrow> Pkey \<Rightarrow> call_plan \<Rightarrow> call_plan" where
  "record_ldso_caller ldso_fn caller_pkey P =
    (case RBT.lookup (direct_call_wrappers P) ldso_fn of
       Some other_caller \<Rightarrow>
         if other_caller = caller_pkey then P
         else P\<lparr>direct_call_wrappers := RBT.delete ldso_fn (direct_call_wrappers P),
                multicaller_fns := map_insert ldso_fn {caller_pkey, other_caller} (multicaller_fns P)\<rparr>
     | None \<Rightarrow>
         (case RBT.lookup (multicaller_fns P) ldso_fn of
            Some callers \<Rightarrow> P\<lparr>multicaller_fns := RBT.insert ldso_fn (insert caller_pkey callers) (multicaller_fns P)\<rparr>
          | None \<Rightarrow> P\<lparr>direct_call_wrappers := map_insert ldso_fn caller_pkey (direct_call_wrappers P)\<rparr>))"

definition add_ldso_fn :: "Pkey set \<Rightarrow> Function \<Rightarrow> FnDecl \<times> call_plan \<Rightarrow> FnDecl \<times> call_plan" where
  "add_ldso_fn pkeys_used ldso_fn = (\<lambda>(D, P).
    (D\<lparr>fn_pkeys := (fn_pkeys D)(ldso_fn \<mapsto> kLibcCompartmentPkey)\<rparr>,
     if fn_signatures D ldso_fn = None then P else fold (record_ldso_caller ldso_fn) (sorted_list_of_set pkeys_used) P))"

definition add_ldso_fns :: "options \<Rightarrow> Pkey set \<Rightarrow> FnDecl \<times> call_plan \<Rightarrow> FnDecl \<times> call_plan" where
  "add_ldso_fns opts pkeys_used S =
    (if gLibcCompartmentEnabled opts \<and> Target opts = X86 then fold (add_ldso_fn pkeys_used) get_ldso_functions S else S)"

section \<open>Generating the gates\<close>

text \<open>
  The output: the gates of the wrapper file, the gates of the header (as macros that a
  source file invokes, or as aliases of the function itself), the symbols that \<open>--wrap\<close>
  options of a compartment name, the renamings of its objects, and the invocations
  appended to source files.
\<close>
record gate_files =
  wrapper_out :: "instr list list"
  macros_defining_wrappers :: "(Function \<times> instr list) list"
  header_aliases :: "(string \<times> string) list"
  ld_args_out :: "Pkey \<Rightarrow> Function list"
  objcopy_redefine_syms_args :: "Pkey \<Rightarrow> (Function \<times> Function) list"
  invocations :: "(Filename \<times> Function) list"

definition gate_files_new :: gate_files where
  "gate_files_new = \<lparr>wrapper_out = [], macros_defining_wrappers = [], header_aliases = [], ld_args_out = \<lambda>_. [],
     objcopy_redefine_syms_args = \<lambda>_. [], invocations = []\<rparr>"

definition append_at :: "Pkey \<Rightarrow> 'a \<Rightarrow> (Pkey \<Rightarrow> 'a list) \<Rightarrow> Pkey \<Rightarrow> 'a list" where
  "append_at pkey x files = files(pkey := files pkey @ [x])"

record gen_state =
  gen_decls :: FnDecl
  gen_direct :: "(Function, Pkey) rbt"
  targets_for_multicaller_fns :: "Function \<Rightarrow> Function option"
  gen_files :: gate_files

text \<open>\<open>std::to_string\<close> in the name of the renamed symbol.\<close>
definition multicaller_name :: "Function \<Rightarrow> Pkey \<Rightarrow> Function" where
  "multicaller_name fn_name caller_pkey = fn_name @ ''_from_'' @ digits 10 caller_pkey"

definition expand_caller :: "Function \<Rightarrow> FnSignature \<Rightarrow> Pkey \<Rightarrow> Pkey \<Rightarrow> gen_state \<Rightarrow> gen_state" where
  "expand_caller fn_name fn_sig target_pkey caller_pkey G =
    (if caller_pkey = target_pkey then G
     else
       let new_fn_name = multicaller_name fn_name caller_pkey; D = gen_decls G; F = gen_files G in
       G\<lparr>gen_files := F\<lparr>objcopy_redefine_syms_args := append_at caller_pkey (fn_name, new_fn_name) (objcopy_redefine_syms_args F)\<rparr>,
         gen_direct := map_insert new_fn_name caller_pkey (gen_direct G),
         gen_decls := D\<lparr>fn_signatures := insert_new new_fn_name fn_sig (fn_signatures D),
                        fn_pkeys := insert_new new_fn_name target_pkey (fn_pkeys D)\<rparr>,
         targets_for_multicaller_fns := insert_new new_fn_name fn_name (targets_for_multicaller_fns G)\<rparr>)"

definition expand_multicaller :: "Function \<times> Pkey set \<Rightarrow> gen_state \<Rightarrow> gen_state option" where
  "expand_multicaller = (\<lambda>(fn_name, caller_pkey_set) G.
    case fn_signatures (gen_decls G) fn_name of
      None \<Rightarrow> None
    | Some fn_sig \<Rightarrow>
        (case fn_pkeys (gen_decls G) fn_name of
           None \<Rightarrow> None
         | Some target_pkey \<Rightarrow> Some (fold (expand_caller fn_name fn_sig target_pkey) (sorted_list_of_set caller_pkey_set) G)))"

definition expand_multicallers :: "(Function, Pkey set) rbt \<Rightarrow> gen_state \<Rightarrow> gen_state option" where
  "expand_multicallers multi = foldM expand_multicaller (RBT.entries multi)"

definition emit_direct_gate ::
  "options \<Rightarrow> Context \<Rightarrow> FnDecl \<Rightarrow> (Function \<Rightarrow> Function option) \<Rightarrow> Function \<times> Pkey \<Rightarrow> gate_files \<Rightarrow> gate_files option" where
  "emit_direct_gate opts ctx D targets = (\<lambda>(fn_name, caller_pkey) F.
    case fn_signatures D fn_name of
      None \<Rightarrow> None
    | Some fn_sig \<Rightarrow>
        let target_fn = (case targets fn_name of Some f \<Rightarrow> f | None \<Rightarrow> fn_name) in
        (case fn_pkeys D fn_name of
           None \<Rightarrow> Some F
         | Some target_pkey \<Rightarrow>
             if caller_pkey = target_pkey then Some F
             else do {
               asm_wrapper \<leftarrow> emit_asm_wrapper ctx fn_sig None (''__wrap_'' @ fn_name) (Some target_fn) Direct caller_pkey target_pkey
                 (Target opts);
               Some (F\<lparr>wrapper_out := wrapper_out F @ [asm_wrapper], ld_args_out := append_at caller_pkey fn_name (ld_args_out F)\<rparr>) }))"

definition emit_direct_gates :: "options \<Rightarrow> Context \<Rightarrow> gen_state \<Rightarrow> gate_files option" where
  "emit_direct_gates opts ctx G =
    foldM (emit_direct_gate opts ctx (gen_decls G) (targets_for_multicaller_fns G)) (RBT.entries (gen_direct G)) (gen_files G)"

definition destructor_name :: "Pkey \<Rightarrow> Function" where
  "destructor_name compartment_pkey = ''ia2_compartment_destructor_'' @ digits 10 compartment_pkey"

text \<open>The gate of a destructor; with the libc compartment its own one is a jump.\<close>
definition destructor_gate :: "options \<Rightarrow> Context \<Rightarrow> FnSignature \<Rightarrow> Pkey \<Rightarrow> instr list option" where
  "destructor_gate opts ctx fn_sig compartment_pkey =
    (let fn_name = destructor_name compartment_pkey; wrapper_name = ''__wrap_'' @ fn_name in
     if gLibcCompartmentEnabled opts then
       if compartment_pkey = kLibcCompartmentPkey then
         Some [Directive ''.text'', Directive (''.global '' @ wrapper_name), Directive (''.type '' @ wrapper_name @ '', @function''),
               Label wrapper_name, Jmp fn_name, Directive (''.size '' @ wrapper_name @ '', .-'' @ wrapper_name), Directive ''.previous'']
       else emit_asm_wrapper ctx fn_sig None wrapper_name (Some fn_name) Direct kLibcCompartmentPkey compartment_pkey (Target opts)
     else emit_asm_wrapper ctx fn_sig None wrapper_name (Some fn_name) Direct 0 compartment_pkey (Target opts))"

definition emit_destructor_gate :: "options \<Rightarrow> Context \<Rightarrow> FnDecl \<Rightarrow> Pkey \<Rightarrow> gate_files \<Rightarrow> gate_files option" where
  "emit_destructor_gate opts ctx D compartment_pkey F =
    (case fn_signatures D (destructor_name compartment_pkey) of
       None \<Rightarrow> None
     | Some fn_sig \<Rightarrow> do {
         code \<leftarrow> destructor_gate opts ctx fn_sig compartment_pkey;
         Some (F\<lparr>wrapper_out := wrapper_out F @ [code],
                 ld_args_out := append_at compartment_pkey (destructor_name compartment_pkey) (ld_args_out F)\<rparr>) })"

definition wrap_cxa_finalizes :: "options \<Rightarrow> nat \<Rightarrow> gate_files \<Rightarrow> gate_files" where
  "wrap_cxa_finalizes opts num_pkeys F =
    (if gLibcCompartmentEnabled opts
     then fold (\<lambda>pkey F. F\<lparr>ld_args_out := append_at pkey ''__cxa_finalize'' (ld_args_out F)\<rparr>) [1..<num_pkeys] F else F)"

section \<open>Gates of function pointers\<close>

record FnPtrInfo =
  type_str :: string
  info_sig :: FnSignature
  info_wrapper_sig :: FnSignature

definition indirect_gate_name :: "OpaqueStruct \<Rightarrow> Pkey \<Rightarrow> string" where
  "indirect_gate_name mangled_ty caller_pkey = ''__ia2_indirect_callgate_'' @ mangled_ty @ ''_pkey_'' @ digits 10 caller_pkey"

definition emit_indirect_gate :: "options \<Rightarrow> Context \<Rightarrow> Pkey \<Rightarrow> OpaqueStruct \<times> FnPtrInfo \<Rightarrow> gate_files \<Rightarrow> gate_files option" where
  "emit_indirect_gate opts ctx caller_pkey = (\<lambda>(mangled_ty, info) F. do {
     asm_wrapper \<leftarrow> emit_asm_wrapper ctx (info_sig info) (Some (info_wrapper_sig info)) (indirect_gate_name mangled_ty caller_pkey) None
       IndirectCallsite caller_pkey 0 (Target opts);
     Some (F\<lparr>wrapper_out := wrapper_out F @ [asm_wrapper]\<rparr>) })"

definition emit_indirect_gates ::
  "options \<Rightarrow> Context \<Rightarrow> nat \<Rightarrow> (OpaqueStruct, FnPtrInfo) rbt \<Rightarrow> gate_files \<Rightarrow> gate_files option" where
  "emit_indirect_gates opts ctx num_pkeys fn_ptr_info =
    foldM (\<lambda>caller_pkey. foldM (emit_indirect_gate opts ctx caller_pkey) (RBT.entries fn_ptr_info)) [1..<num_pkeys]"

text \<open>A value that \<open>operator[]\<close> of a \<open>std::map\<close> makes for a missing key.\<close>
definition FnSignature_default :: FnSignature where
  "FnSignature_default = \<lparr>abi = \<lparr>abi_args = [], abi_ret = []\<rparr>, api_args = []\<rparr>"

definition pkey_or_0 :: "FnDecl \<Rightarrow> Function \<Rightarrow> Pkey" where
  "pkey_or_0 D fn_name = (case fn_pkeys D fn_name of Some pkey \<Rightarrow> pkey | None \<Rightarrow> 0)"

definition sig_or_default :: "FnDecl \<Rightarrow> Function \<Rightarrow> FnSignature" where
  "sig_or_default D fn_name = (case fn_signatures D fn_name of Some sig \<Rightarrow> sig | None \<Rightarrow> FnSignature_default)"

definition file_or_empty :: "FnDecl \<Rightarrow> Function \<Rightarrow> Filename" where
  "file_or_empty D fn_name = (case fn_definitions D fn_name of Some f \<Rightarrow> f | None \<Rightarrow> [])"

definition emit_pointer_macro :: "options \<Rightarrow> Context \<Rightarrow> FnDecl \<Rightarrow> WrapperKind \<Rightarrow> Filename \<Rightarrow> Function \<Rightarrow> gate_files \<Rightarrow> gate_files option" where
  "emit_pointer_macro opts ctx D kind filename fn_name F = do {
     asm_wrapper \<leftarrow> emit_asm_wrapper ctx (sig_or_default D fn_name) None (''__ia2_'' @ fn_name) (Some fn_name) kind 0 (pkey_or_0 D fn_name)
       (Target opts);
     Some (F\<lparr>macros_defining_wrappers := macros_defining_wrappers F @ [(fn_name, asm_wrapper)],
             invocations := invocations F @ [(filename, fn_name)]\<rparr>) }"

definition emit_pointer_gate :: "options \<Rightarrow> Context \<Rightarrow> FnDecl \<Rightarrow> Function \<times> OpaqueStruct \<Rightarrow> gate_files \<Rightarrow> gate_files option" where
  "emit_pointer_gate opts ctx D = (\<lambda>(fn_name, opaque) F.
    if pkey_or_0 D fn_name \<noteq> 0 then emit_pointer_macro opts ctx D Pointer (file_or_empty D fn_name) fn_name F
    else Some (F\<lparr>header_aliases := header_aliases F @ [(''__ia2_'' @ fn_name, ''__real_'' @ fn_name)]\<rparr>))"

definition emit_static_gate :: "options \<Rightarrow> Context \<Rightarrow> FnDecl \<Rightarrow> Filename \<Rightarrow> Function \<times> OpaqueStruct \<Rightarrow> gate_files \<Rightarrow> gate_files option" where
  "emit_static_gate opts ctx D filename = (\<lambda>(fn_name, opaque) F.
    if pkey_or_0 D fn_name \<noteq> 0 then emit_pointer_macro opts ctx D PointerToStatic filename fn_name F else Some F)"

section \<open>The whole generation\<close>

text \<open>What the passes over function pointers collect.\<close>
record pointer_passes =
  fn_ptr_info :: "(OpaqueStruct, FnPtrInfo) rbt"
  addr_taken_fns :: "(Function, OpaqueStruct) rbt"
  internal_addr_taken_fns :: "(Filename, (Function \<times> OpaqueStruct) list) rbt"

definition emit_pointer_gates :: "options \<Rightarrow> Context \<Rightarrow> pointer_passes \<Rightarrow> FnDecl \<Rightarrow> gate_files \<Rightarrow> gate_files option" where
  "emit_pointer_gates opts ctx ptrs D F = do {
     F1 \<leftarrow> foldM (emit_pointer_gate opts ctx D) (RBT.entries (addr_taken_fns ptrs)) F;
     foldM (\<lambda>(filename, fns). foldM (emit_static_gate opts ctx D filename) fns) (RBT.entries (internal_addr_taken_fns ptrs)) F1 }"

definition generate_gates ::
  "options \<Rightarrow> Context \<Rightarrow> nat \<Rightarrow> Pkey set \<Rightarrow> pointer_passes \<Rightarrow> FnDecl \<Rightarrow> gate_files option" where
  "generate_gates opts ctx num_pkeys pkeys_used ptrs D = do {
     F0 \<leftarrow> emit_indirect_gates opts ctx num_pkeys (fn_ptr_info ptrs) gate_files_new;
     visited \<leftarrow> visit_compartments opts num_pkeys D;
     (let (D1, P) = add_ldso_fns opts pkeys_used visited in do {
       G \<leftarrow> expand_multicallers (multicaller_fns P)
         \<lparr>gen_decls = D1, gen_direct = direct_call_wrappers P, targets_for_multicaller_fns = (\<lambda>_. None), gen_files = F0\<rparr>;
       F1 \<leftarrow> emit_direct_gates opts ctx G;
       F2 \<leftarrow> foldM (emit_destructor_gate opts ctx (gen_decls G)) [1..<num_pkeys] F1;
       emit_pointer_gates opts ctx ptrs (gen_decls G) (wrap_cxa_finalizes opts num_pkeys F2) }) }"

end
