(* ===== verification/Plan_Laws.thy ===== *)
theory Plan_Laws
  imports Wrapper_Plan Maps_Laws
begin

text \<open>
  The planning of call gates is correct: the two maps of the planner hold the set of
  compartments that call each function, renaming keeps the symbols apart, and every
  direct call that crosses compartments is linked to a gate between the two.
\<close>

section \<open>Loops that may abort\<close>

lemma foldM_append: "foldM f (xs @ ys) s = Option.bind (foldM f xs s) (foldM f ys)"
proof (induction xs arbitrary: s)
  case (Cons x xs)
  then show ?case by (cases "f x s") simp_all
qed simp

lemma foldM_rule:
  assumes "foldM f xs s = Some s'" "P [] s"
    and "\<And>ys y zs s1 s2. xs = ys @ y # zs \<Longrightarrow> P ys s1 \<Longrightarrow> f y s1 = Some s2 \<Longrightarrow> P (ys @ [y]) s2"
  shows "P xs s'"
  using assms
proof (induction xs arbitrary: s' rule: rev_induct)
  case (snoc x xs)
  obtain s1 where s1: "foldM f xs s = Some s1" "f x s1 = Some s'" using snoc.prems(1) by (auto simp: foldM_append bind_eq_Some_conv)
  have "P xs s1"
  proof (rule snoc.IH [OF s1(1) snoc.prems(2)])
    fix ys y zs t1 t2
    assume "xs = ys @ y # zs" "P ys t1" "f y t1 = Some t2"
    then show "P (ys @ [y]) t2" using snoc.prems(3) [of ys y "zs @ [x]"] by simp
  qed
  then show ?case using snoc.prems(3) [of xs x "[]"] s1(2) by simp
qed simp

lemma foldM_total:
  assumes "P [] s" "\<And>ys y zs s1. xs = ys @ y # zs \<Longrightarrow> P ys s1 \<Longrightarrow> \<exists>s2. f y s1 = Some s2 \<and> P (ys @ [y]) s2"
  shows "\<exists>s'. foldM f xs s = Some s' \<and> P xs s'"
  using assms
proof (induction xs rule: rev_induct)
  case (snoc x xs)
  have "\<exists>s'. foldM f xs s = Some s' \<and> P xs s'"
  proof (rule snoc.IH [OF snoc.prems(1)])
    fix ys y zs s1
    assume "xs = ys @ y # zs" "P ys s1"
    then show "\<exists>s2. f y s1 = Some s2 \<and> P (ys @ [y]) s2" using snoc.prems(2) [of ys y "zs @ [x]"] by simp
  qed
  then obtain s1 where s1: "foldM f xs s = Some s1" "P xs s1" by blast
  then show ?case using snoc.prems(2) [of xs x "[]" s1] by (auto simp: foldM_append)
qed simp

section \<open>What the passes collect\<close>

text \<open>Every known function has a signature, defined functions a compartment, and the sets are finite.\<close>
definition decls_wf :: "FnDecl \<Rightarrow> bool" where
  "decls_wf D =
    ((\<forall>c. finite (declared_fns D c) \<and> declared_fns D c \<subseteq> dom (fn_signatures D) \<and> defined_fns D c \<subseteq> dom (fn_pkeys D)) \<and>
     dom (fn_pkeys D) \<subseteq> dom (fn_signatures D))"

lemma decls_wf_new: "decls_wf FnDecl_new"
  by (simp add: decls_wf_def FnDecl_new_def)

lemma fn_decl_record_wf: "decls_wf D \<Longrightarrow> fn_decl_record pkey_of node D = Some D' \<Longrightarrow> decls_wf D'"
  by (auto simp: fn_decl_record_def decls_wf_def insert_at_def Let_def split: option.splits if_splits) blast+

lemma decls_wf_update [simp]:
  "decls_wf (D\<lparr>called_fns := x\<rparr>) = decls_wf D" "decls_wf (D\<lparr>variadic_system_fns := y\<rparr>) = decls_wf D"
  by (simp_all add: decls_wf_def)

lemma run_match_wf: "decls_wf D \<Longrightarrow> run_match opts pkey_of m D = Some D' \<Longrightarrow> decls_wf D'"
  by (cases m)
    (auto simp: fn_decl_run_def call_tracker_run_def Let_def bind_eq_Some_conv split: option.splits if_splits intro: fn_decl_record_wf)

lemma matches_wf: "foldM (run_match opts pkey_of) matches FnDecl_new = Some D \<Longrightarrow> decls_wf D"
  by (erule foldM_rule [where P = "\<lambda>_. decls_wf"]) (auto simp: decls_wf_new dest: run_match_wf)

section \<open>The two maps of the planner\<close>

text \<open>
  The planner holds a set of callers for each function: none, one in the first map, or
  at least two in the second.
\<close>
definition classified :: "call_plan \<Rightarrow> (Function \<Rightarrow> Pkey set) \<Rightarrow> bool" where
  "classified P C =
    (\<forall>f. finite (C f) \<and>
      RBT.lookup (direct_call_wrappers P) f = (if card (C f) = 1 then Some (the_elem (C f)) else None) \<and>
      RBT.lookup (multicaller_fns P) f = (if 2 \<le> card (C f) then Some (C f) else None))"

lemma classified_new: "classified call_plan_new (\<lambda>_. {})"
  by (simp add: classified_def call_plan_new_def)

lemma classifiedD:
  assumes "classified P C"
  shows "finite (C f)"
    "RBT.lookup (direct_call_wrappers P) f = (if card (C f) = 1 then Some (the_elem (C f)) else None)"
    "RBT.lookup (multicaller_fns P) f = (if 2 \<le> card (C f) then Some (C f) else None)"
  using assms by (auto simp: classified_def)

lemma callers_cases:
  assumes "finite S"
  obtains (none) "S = {}" | (one) c where "S = {c}" | (many) "2 \<le> card S"
proof -
  have "card S = 0 \<or> card S = 1 \<or> 2 \<le> card S" by linarith
  then show thesis using assms that by (auto simp: card_1_singleton_iff)
qed

text \<open>Adding a caller to the set is what both updates of the planner do.\<close>
lemma record_caller_classified:
  assumes P: "classified P C" and new: "c \<notin> C f"
  shows "\<exists>P'. record_caller c f P = Some P' \<and> classified P' (C(f := insert c (C f)))"
  using classifiedD(1) [OF P, of f]
proof (cases rule: callers_cases)
  case none
  then show ?thesis using P by (auto simp: record_caller_def map_insert_def classifiedD [OF P, of f] classified_def)
next
  case (one d)
  then have "c \<noteq> d" using new by simp
  then show ?thesis using P one by (auto simp: record_caller_def map_insert_def classifiedD [OF P, of f] classified_def)
next
  case many
  then have "card (insert c (C f)) = Suc (card (C f))" using new classifiedD(1) [OF P, of f] by simp
  then show ?thesis using P many by (auto simp: record_caller_def classifiedD [OF P, of f] classified_def)
qed

lemma record_ldso_caller_classified:
  assumes P: "classified P C"
  shows "classified (record_ldso_caller f c P) (C(f := insert c (C f)))"
  using classifiedD(1) [OF P, of f]
proof (cases rule: callers_cases)
  case none
  then show ?thesis using P by (auto simp: record_ldso_caller_def map_insert_def classifiedD [OF P, of f] classified_def)
next
  case (one d)
  show ?thesis
  proof (cases "c = d")
    case True
    then have "C(f := insert c (C f)) = C" using one by (simp add: fun_eq_iff)
    then show ?thesis using P one True by (simp add: record_ldso_caller_def classifiedD [OF P, of f])
  next
    case False
    then show ?thesis using P one by (auto simp: record_ldso_caller_def map_insert_def classifiedD [OF P, of f] classified_def)
  qed
next
  case many
  have "card (C f) \<le> card (insert c (C f))" using classifiedD(1) [OF P, of f] by (intro card_mono) auto
  then have "2 \<le> card (insert c (C f))" using many by linarith
  then show ?thesis using P many by (auto simp: record_ldso_caller_def classifiedD [OF P, of f] classified_def)
qed

section \<open>The loop over the compartments\<close>

text \<open>
  The pairs of a compartment and a function it needs from elsewhere.  The loop gives a
  compartment to system functions as it meets them; the functions below are stated over
  the declarations before the loop.
\<close>
definition needs :: "FnDecl \<Rightarrow> Pkey \<Rightarrow> Function \<Rightarrow> bool" where
  "needs D c f = (f \<in> declared_fns D c \<and> f \<notin> defined_fns D c)"

definition visited_callers :: "options \<Rightarrow> FnDecl \<Rightarrow> (Pkey \<times> Function) set \<Rightarrow> Function \<Rightarrow> Pkey set" where
  "visited_callers opts D V f =
    {c. (c, f) \<in> V \<and> \<not> skip_system_fn opts D c f \<and> \<not> (gLibcCompartmentEnabled opts \<and> is_ldso_function f)}"

definition visited_pkeys :: "options \<Rightarrow> FnDecl \<Rightarrow> (Pkey \<times> Function) set \<Rightarrow> Function \<Rightarrow> Pkey option" where
  "visited_pkeys opts D V f =
    (if fn_pkeys D f = None \<and> gLibcCompartmentEnabled opts \<and> f \<notin> variadic_system_fns D \<and> f \<in> system_header_fns D \<and>
        (\<exists>c. (c, f) \<in> V \<and> \<not> skip_system_fn opts D c f)
     then Some 1 else fn_pkeys D f)"

definition visit_inv :: "options \<Rightarrow> FnDecl \<Rightarrow> (Pkey \<times> Function) set \<Rightarrow> FnDecl \<times> call_plan \<Rightarrow> bool" where
  "visit_inv opts D V S =
    (fst S = D\<lparr>fn_pkeys := visited_pkeys opts D V\<rparr> \<and> classified (snd S) (visited_callers opts D V))"

lemma visit_inv_start: "visit_inv opts D {} (D, call_plan_new)"
  by (simp add: visit_inv_def visited_pkeys_def [abs_def] visited_callers_def [abs_def] classified_new)

lemma skip_system_fn_pkeys [simp]: "skip_system_fn opts (D\<lparr>fn_pkeys := m\<rparr>) c f = skip_system_fn opts D c f"
  by (simp add: skip_system_fn_def)

lemma visited_skip:
  "skip_system_fn opts D c f \<Longrightarrow> visited_pkeys opts D (insert (c, f) V) = visited_pkeys opts D V"
  "skip_system_fn opts D c f \<Longrightarrow> visited_callers opts D (insert (c, f) V) = visited_callers opts D V"
  by (auto simp: visited_pkeys_def visited_callers_def fun_eq_iff)

lemma assign_visited:
  "\<not> skip_system_fn opts D c f \<Longrightarrow>
   assign_system_fn opts f (D\<lparr>fn_pkeys := visited_pkeys opts D V\<rparr>) = D\<lparr>fn_pkeys := visited_pkeys opts D (insert (c, f) V)\<rparr>"
  by (auto simp: assign_system_fn_def visited_pkeys_def fun_eq_iff intro!: FnDecl.equality split: if_splits)

lemma visit_fn_inv:
  assumes inv: "visit_inv opts D V S" and new: "(c, f) \<notin> V"
  shows "\<exists>S'. visit_fn opts c f S = Some S' \<and> visit_inv opts D (insert (c, f) V) S'"
proof -
  obtain P where S: "S = (D\<lparr>fn_pkeys := visited_pkeys opts D V\<rparr>, P)" and P: "classified P (visited_callers opts D V)"
    using inv by (cases S) (auto simp: visit_inv_def)
  show ?thesis
  proof (cases "skip_system_fn opts D c f")
    case True
    then show ?thesis using P by (simp add: S visit_fn_def visit_inv_def visited_skip)
  next
    case False
    note A = assign_visited [OF False, of V]
    show ?thesis
    proof (cases "gLibcCompartmentEnabled opts \<and> is_ldso_function f")
      case True
      have "visited_callers opts D (insert (c, f) V) = visited_callers opts D V"
        using True by (auto simp: visited_callers_def fun_eq_iff)
      then show ?thesis using False True P by (simp add: S visit_fn_def visit_inv_def A Let_def)
    next
      case nld: False
      have eq: "visited_callers opts D (insert (c, f) V) = (visited_callers opts D V)(f := insert c (visited_callers opts D V f))"
        using False nld by (auto simp: visited_callers_def fun_eq_iff)
      have "c \<notin> visited_callers opts D V f" using new by (simp add: visited_callers_def)
      from record_caller_classified [OF P this] obtain P' where
        "record_caller c f P = Some P'" "classified P' (visited_callers opts D (insert (c, f) V))" using eq by auto
      then show ?thesis using False nld by (auto simp add: S visit_fn_def visit_inv_def A Let_def)
    qed
  qed
qed

lemma visit_compartment_inv:
  assumes wf: "decls_wf D" and inv: "visit_inv opts D V S" and new: "\<And>f. (c, f) \<notin> V"
  shows "\<exists>S'. visit_compartment opts c S = Some S' \<and> visit_inv opts D (V \<union> {(c, f) | f. needs D c f}) S'"
proof -
  let ?xs = "sorted_list_of_set (declared_fns D c - defined_fns D c)"
  have S: "declared_fns (fst S) c = declared_fns D c" "defined_fns (fst S) c = defined_fns D c"
    using inv by (simp_all add: visit_inv_def)
  have xs: "set ?xs = {f. needs D c f}" using wf by (auto simp: decls_wf_def needs_def)
  have "\<exists>S'. foldM (visit_fn opts c) ?xs S = Some S' \<and> visit_inv opts D (V \<union> Pair c ` set ?xs) S'"
  proof (rule foldM_total [where P = "\<lambda>ys. visit_inv opts D (V \<union> Pair c ` set ys)"])
    fix ys y zs S1
    assume eq: "?xs = ys @ y # zs" and I: "visit_inv opts D (V \<union> Pair c ` set ys) S1"
    have "distinct ?xs" by simp
    then have "y \<notin> set ys" unfolding eq by simp
    then have "(c, y) \<notin> V \<union> Pair c ` set ys" using new by auto
    from visit_fn_inv [OF I this]
    show "\<exists>S2. visit_fn opts c y S1 = Some S2 \<and> visit_inv opts D (V \<union> Pair c ` set (ys @ [y])) S2" by simp
  qed (use inv in simp)
  moreover have "Pair c ` set ?xs = {(c, f) | f. needs D c f}" unfolding xs by auto
  ultimately show ?thesis using S by (simp add: visit_compartment_def case_prod_beta)
qed

definition needed :: "FnDecl \<Rightarrow> nat \<Rightarrow> (Pkey \<times> Function) set" where
  "needed D n = {(c, f). c < n \<and> needs D c f}"

lemma visit_compartments_inv:
  assumes wf: "decls_wf D"
  shows "\<exists>S. visit_compartments opts n D = Some S \<and> visit_inv opts D (needed D n) S"
proof -
  have "\<exists>S. foldM (visit_compartment opts) [0..<n] (D, call_plan_new) = Some S \<and>
      visit_inv opts D {(c, f). c \<in> set [0..<n] \<and> needs D c f} S"
  proof (rule foldM_total [where P = "\<lambda>ys. visit_inv opts D {(c, f). c \<in> set ys \<and> needs D c f}"])
    fix ys c zs S1
    assume eq: "[0..<n] = ys @ c # zs" and I: "visit_inv opts D {(c, f). c \<in> set ys \<and> needs D c f} S1"
    have "distinct [0..<n]" by simp
    then have "c \<notin> set ys" unfolding eq by simp
    then have "\<exists>S2. visit_compartment opts c S1 = Some S2 \<and>
        visit_inv opts D ({(c, f). c \<in> set ys \<and> needs D c f} \<union> {(c, f) | f. needs D c f}) S2"
      by (intro visit_compartment_inv [OF wf I]) simp
    moreover have "{(c, f). c \<in> set ys \<and> needs D c f} \<union> {(c, f) | f. needs D c f} = {(d, f). d \<in> set (ys @ [c]) \<and> needs D d f}"
      by auto
    ultimately show "\<exists>S2. visit_compartment opts c S1 = Some S2 \<and> visit_inv opts D {(d, f). d \<in> set (ys @ [c]) \<and> needs D d f} S2"
      by simp
  qed (simp add: visit_inv_start)
  then show ?thesis by (simp add: visit_compartments_def needed_def)
qed

section \<open>The loader functions\<close>

text \<open>The compartments that call a function, and the compartment it lives in.\<close>
definition callers :: "options \<Rightarrow> FnDecl \<Rightarrow> nat \<Rightarrow> Pkey set \<Rightarrow> Function \<Rightarrow> Pkey set" where
  "callers opts D n used f =
    (if gLibcCompartmentEnabled opts \<and> is_ldso_function f
     then if Target opts = X86 \<and> fn_signatures D f \<noteq> None then used else {}
     else {c. c < n \<and> needs D c f \<and> \<not> skip_system_fn opts D c f})"

definition home :: "options \<Rightarrow> FnDecl \<Rightarrow> nat \<Rightarrow> Function \<Rightarrow> Pkey option" where
  "home opts D n f =
    (if gLibcCompartmentEnabled opts \<and> Target opts = X86 \<and> is_ldso_function f then Some kLibcCompartmentPkey
     else visited_pkeys opts D (needed D n) f)"

lemma record_ldso_callers_classified:
  "classified P C \<Longrightarrow> classified (fold (record_ldso_caller f) cs P) (C(f := set cs \<union> C f))"
proof (induction cs arbitrary: P C)
  case (Cons c cs)
  have "(C(f := insert c (C f)))(f := set cs \<union> (C(f := insert c (C f))) f) = C(f := set (c # cs) \<union> C f)"
    by (auto simp: fun_eq_iff)
  then show ?case using Cons.IH [OF record_ldso_caller_classified [OF Cons.prems, of f c]] by (simp only: fold.simps o_apply)
qed simp

lemma add_ldso_fns_fold:
  assumes "fn_signatures D = sigs" "classified P C" "finite used"
  shows "\<exists>P'. fold (add_ldso_fn used) fs (D, P) =
      (D\<lparr>fn_pkeys := \<lambda>f. if f \<in> set fs then Some kLibcCompartmentPkey else fn_pkeys D f\<rparr>, P') \<and>
    classified P' (\<lambda>f. if f \<in> set fs \<and> sigs f \<noteq> None then used \<union> C f else C f)"
  using assms
proof (induction fs arbitrary: D P C)
  case (Cons g fs)
  let ?D = "D\<lparr>fn_pkeys := (fn_pkeys D)(g \<mapsto> kLibcCompartmentPkey)\<rparr>"
  let ?C = "if sigs g = None then C else C(g := used \<union> C g)"
  obtain Q where Q: "add_ldso_fn used g (D, P) = (?D, Q)" "classified Q ?C"
    using record_ldso_callers_classified [OF Cons.prems(2), of g "sorted_list_of_set used"] Cons.prems
    by (cases "sigs g = None") (simp_all add: add_ldso_fn_def)
  from Cons.IH [OF _ Q(2) Cons.prems(3), of ?D] Cons.prems(1) obtain P' where
    P': "fold (add_ldso_fn used) fs (?D, Q) = (?D\<lparr>fn_pkeys := \<lambda>f. if f \<in> set fs then Some kLibcCompartmentPkey else fn_pkeys ?D f\<rparr>, P')"
      "classified P' (\<lambda>f. if f \<in> set fs \<and> sigs f \<noteq> None then used \<union> ?C f else ?C f)" by auto
  have "(\<lambda>f. if f \<in> set fs \<and> sigs f \<noteq> None then used \<union> ?C f else ?C f) =
      (\<lambda>f. if f \<in> set (g # fs) \<and> sigs f \<noteq> None then used \<union> C f else C f)"
    by (auto simp: fun_eq_iff)
  moreover have "?D\<lparr>fn_pkeys := \<lambda>f. if f \<in> set fs then Some kLibcCompartmentPkey else fn_pkeys ?D f\<rparr> =
      D\<lparr>fn_pkeys := \<lambda>f. if f \<in> set (g # fs) then Some kLibcCompartmentPkey else fn_pkeys D f\<rparr>"
    by (auto simp: fun_eq_iff intro!: FnDecl.equality)
  ultimately show ?case using P' by (simp add: Q(1))
qed simp

lemma plan_classified:
  assumes wf: "decls_wf D" and used: "finite used"
  shows "\<exists>S P. visit_compartments opts n D = Some S \<and>
    add_ldso_fns opts used S = (D\<lparr>fn_pkeys := home opts D n\<rparr>, P) \<and> classified P (callers opts D n used)"
proof -
  obtain S where S: "visit_compartments opts n D = Some S" "visit_inv opts D (needed D n) S"
    using visit_compartments_inv [OF wf] by blast
  let ?D = "D\<lparr>fn_pkeys := visited_pkeys opts D (needed D n)\<rparr>"
  obtain P where P: "S = (?D, P)" "classified P (visited_callers opts D (needed D n))"
    using S(2) by (cases S) (auto simp: visit_inv_def)
  show ?thesis
  proof (cases "gLibcCompartmentEnabled opts \<and> Target opts = X86")
    case True
    obtain P' where P': "fold (add_ldso_fn used) get_ldso_functions (?D, P) =
        (?D\<lparr>fn_pkeys := \<lambda>f. if f \<in> set get_ldso_functions then Some kLibcCompartmentPkey else fn_pkeys ?D f\<rparr>, P')"
      "classified P' (\<lambda>f. if f \<in> set get_ldso_functions \<and> fn_signatures D f \<noteq> None then used \<union> visited_callers opts D (needed D n) f
                          else visited_callers opts D (needed D n) f)"
      using add_ldso_fns_fold [OF _ P(2) used, of ?D "fn_signatures D"] by auto
    have "(\<lambda>f. if f \<in> set get_ldso_functions \<and> fn_signatures D f \<noteq> None then used \<union> visited_callers opts D (needed D n) f
        else visited_callers opts D (needed D n) f) = callers opts D n used"
      using True by (auto simp: fun_eq_iff callers_def visited_callers_def needed_def is_ldso_function_def)
    moreover have "(\<lambda>f. if f \<in> set get_ldso_functions then Some kLibcCompartmentPkey else fn_pkeys ?D f) = home opts D n"
      using True by (auto simp: fun_eq_iff home_def is_ldso_function_def)
    ultimately show ?thesis using S(1) P' True by (simp add: P(1) add_ldso_fns_def)
  next
    case False
    then have "visited_callers opts D (needed D n) = callers opts D n used" "visited_pkeys opts D (needed D n) = home opts D n"
      by (auto simp: fun_eq_iff callers_def visited_callers_def needed_def home_def)
    then show ?thesis using S(1) P False by (auto simp add: add_ldso_fns_def)
  qed
qed

section \<open>Compartments of the source files\<close>

lemma interval_from_card:
  assumes "finite S" "S \<noteq> {}" "Min S = a" "Max S = a + int (card S) - 1"
  shows "S = {a ..< a + int (card S)}"
proof (rule card_subset_eq)
  show "S \<subseteq> {a ..< a + int (card S)}"
  proof
    fix x assume "x \<in> S"
    then have "Min S \<le> x" "x \<le> Max S" using assms(1) by simp_all
    then show "x \<in> {a ..< a + int (card S)}" using assms(3,4) by simp
  qed
qed simp_all

text \<open>An accepted configuration is exactly a gap-free range of fewer than 16 keys that starts at 0 or 1.\<close>
lemma pkey_config_exact:
  assumes S: "finite S" "S \<noteq> {}"
  shows "pkey_config S = Some n \<longleftrightarrow> card S < 16 \<and> (S = {0 ..< int n} \<or> S = {1 ..< int n})"
proof
  assume "pkey_config S = Some n"
  then consider "card S < 16" "Min S = 0" "Max S = int (card S) - 1" "n = card S"
    | "card S < 16" "Min S = 1" "Max S = int (card S)" "n = card S + 1"
    by (auto simp: pkey_config_def Let_def MAX_PKEYS_def split: if_splits)
  then show "card S < 16 \<and> (S = {0 ..< int n} \<or> S = {1 ..< int n})"
    using interval_from_card [OF S, of 0] interval_from_card [OF S, of 1] by cases (auto simp: algebra_simps)
next
  have Min: "Min {a ..< b} = a" "Max {a ..< b} = b - 1" if "a < b" for a b :: int
    using that by (auto intro!: Min_eqI Max_eqI)
  assume R: "card S < 16 \<and> (S = {0 ..< int n} \<or> S = {1 ..< int n})"
  then consider "S = {0 ..< int n}" "0 < n" | "S = {1 ..< int n}" "1 < n" using S by fastforce
  then show "pkey_config S = Some n" using R Min by cases (auto simp: pkey_config_def Let_def MAX_PKEYS_def)
qed

text \<open>
  A file that is compiled twice, with \<open>-DPKEY\<close> only in the later command, makes the
  function use the command it has just dropped.
\<close>
lemma pkey_from_commands_dangling:
  assumes "get_commands s = Some (cmd # cmds)" "\<not> has_pkey_define cmd" "list_ex has_pkey_define cmds"
  shows "pkey_from_commands get_commands s = Dangling_command"
proof -
  let ?P = "\<lambda>i. has_pkey_define ((cmd # cmds) ! i)"
  obtain j where "j < length cmds" "has_pkey_define (cmds ! j)" using assms(3) by (auto simp: list_ex_length)
  then have "Suc j \<in> set [0..<length (cmd # cmds)]" "?P (Suc j)" by auto
  then have "List.find ?P [0..<length (cmd # cmds)] \<noteq> None" by (subst find_None_iff) blast
  then obtain i where i: "List.find ?P [0..<length (cmd # cmds)] = Some i" by blast
  then have "?P i" by (auto simp: find_Some_iff)
  then have "0 < i" using assms(2) by (cases i) auto
  then show ?thesis using i assms(1) by (simp add: pkey_from_commands_def)
qed

end
