(* ===== verification/Plan_Gates.thy ===== *)
theory Plan_Gates
  imports Plan_Laws Gate_Safety
begin

text \<open>
  From the plan to the gates: renaming keeps symbols apart, and every direct call that
  crosses compartments is linked to a gate between the two.
\<close>

section \<open>Renamed symbols\<close>

lemma digits_no_underscore: "CHR ''_'' \<notin> set (digits 10 n)"
proof
  assume "CHR ''_'' \<in> set (digits 10 n)"
  then obtain d where "digit_val (CHR ''_'') = Some d" using numeric_digits [of 10 n] by (auto simp: numeric_def)
  then show False by (simp add: digit_val_def)
qed

lemma digits_inj:
  assumes "digits 10 m = digits 10 n"
  shows "m = n"
proof -
  have "fst (scan_digits 10 (digits 10 k) 0) = k" for k by (rule scan_digits_value) simp_all
  then show ?thesis using assms by metis
qed

lemma split_last_unique:
  assumes "xs @ x # ys = xs' @ x # ys'" "x \<notin> set ys" "x \<notin> set ys'"
  shows "xs = xs' \<and> ys = ys'"
proof -
  have tw: "takeWhile (\<lambda>z. z \<noteq> x) (rev (zs @ x # us)) = rev us" if "x \<notin> set us" for zs us
    using that by (simp add: takeWhile_append)
  have "rev ys = rev ys'" using tw [OF assms(2), of xs] tw [OF assms(3), of xs'] unfolding assms(1) by simp
  then show ?thesis using assms(1) by simp
qed

lemma multicaller_name_split: "multicaller_name f c = (f @ ''_from'') @ CHR ''_'' # digits 10 c"
  by (simp add: multicaller_name_def)

lemma multicaller_name_inj: "multicaller_name f c = multicaller_name g d \<Longrightarrow> f = g \<and> c = d"
  unfolding multicaller_name_split
  by (drule split_last_unique [OF _ digits_no_underscore digits_no_underscore]) (auto dest: digits_inj)

text \<open>A decidable mark of renamed symbols; no loader function has it.\<close>
definition looks_renamed :: "Function \<Rightarrow> bool" where
  "looks_renamed s = prefix (rev ''_from'') (tl (dropWhile (\<lambda>c. c \<noteq> CHR ''_'') (rev s)))"

lemma looks_renamed: "looks_renamed (multicaller_name f c)"
  using digits_no_underscore [of c] by (subst multicaller_name_split) (simp add: looks_renamed_def dropWhile_append)

lemma ldso_not_renamed: "\<not> is_ldso_function (multicaller_name f c)"
proof
  assume "is_ldso_function (multicaller_name f c)"
  then have "multicaller_name f c \<in> set get_ldso_functions" by (simp add: is_ldso_function_def)
  moreover have "\<forall>g \<in> set get_ldso_functions. \<not> looks_renamed g" by code_simp
  ultimately show False using looks_renamed by blast
qed

section \<open>Expansion of functions with several callers\<close>

text \<open>
  The effect of the expansion of a set of pairs of a function and a caller: the maps
  gain an entry for each renamed symbol that repeats the entry of the function.
\<close>
definition renamed_map :: "(Function \<times> Pkey) set \<Rightarrow> (Function \<Rightarrow> Pkey \<Rightarrow> 'v option) \<Rightarrow> (Function \<Rightarrow> 'v option) \<Rightarrow> Function \<Rightarrow> 'v option \<Rightarrow> bool" where
  "renamed_map R new old s v =
    ((\<forall>f c. s = multicaller_name f c \<and> (f, c) \<in> R \<longrightarrow> v = new f c) \<and>
     ((\<forall>f c. s = multicaller_name f c \<longrightarrow> (f, c) \<notin> R) \<longrightarrow> v = old s))"

definition expand_inv :: "gen_state \<Rightarrow> (Function \<times> Pkey) set \<Rightarrow> gen_state \<Rightarrow> bool" where
  "expand_inv G0 R G =
    ((\<forall>s. renamed_map R (\<lambda>f c. Some c) (RBT.lookup (gen_direct G0)) s (RBT.lookup (gen_direct G) s)) \<and>
     (\<forall>s. renamed_map R (\<lambda>f c. fn_signatures (gen_decls G0) f) (fn_signatures (gen_decls G0)) s (fn_signatures (gen_decls G) s)) \<and>
     (\<forall>s. renamed_map R (\<lambda>f c. fn_pkeys (gen_decls G0) f) (fn_pkeys (gen_decls G0)) s (fn_pkeys (gen_decls G) s)) \<and>
     (\<forall>s. renamed_map R (\<lambda>f c. Some f) (targets_for_multicaller_fns G0) s (targets_for_multicaller_fns G s)) \<and>
     (\<forall>k. set (objcopy_redefine_syms_args (gen_files G) k) =
        set (objcopy_redefine_syms_args (gen_files G0) k) \<union> {(f, multicaller_name f k) | f. (f, k) \<in> R}) \<and>
     wrapper_out (gen_files G) = wrapper_out (gen_files G0) \<and> ld_args_out (gen_files G) = ld_args_out (gen_files G0))"

text \<open>No symbol of the program has the form of a renamed one.\<close>
definition names_fresh :: "gen_state \<Rightarrow> bool" where
  "names_fresh G = (\<forall>f c. RBT.lookup (gen_direct G) (multicaller_name f c) = None \<and>
     fn_signatures (gen_decls G) (multicaller_name f c) = None \<and> fn_pkeys (gen_decls G) (multicaller_name f c) = None \<and>
     targets_for_multicaller_fns G (multicaller_name f c) = None)"

lemma renamed_map_new: "renamed_map R new old (multicaller_name f c) v \<Longrightarrow> (f, c) \<in> R \<Longrightarrow> v = new f c"
  by (auto simp: renamed_map_def)

lemma renamed_map_old: "renamed_map R new old s v \<Longrightarrow> (\<And>f c. s = multicaller_name f c \<Longrightarrow> (f, c) \<notin> R) \<Longrightarrow> v = old s"
  by (auto simp: renamed_map_def)

lemma renamed_map_insert:
  assumes "\<And>s. renamed_map R new old s (m s)" "new f c = Some v" "old (multicaller_name f c) = None"
    "m' = insert_new (multicaller_name f c) v m"
  shows "renamed_map (insert (f, c) R) new old s (m' s)"
proof (cases "s = multicaller_name f c")
  case True
  have "m' s = Some v"
  proof (cases "(f, c) \<in> R")
    case True
    then show ?thesis using assms renamed_map_new [OF assms(1)] \<open>s = _\<close> by (simp add: insert_new_def)
  next
    case False
    then have "m s = None" using renamed_map_old [OF assms(1), of s] assms(3) \<open>s = _\<close> by (auto dest!: multicaller_name_inj)
    then show ?thesis using assms(4) \<open>s = _\<close> by (simp add: insert_new_def)
  qed
  then show ?thesis using True assms(2) by (auto simp: renamed_map_def dest!: multicaller_name_inj)
next
  case False
  then have "m' s = m s" using assms(4) by (simp add: insert_new_def)
  then show ?thesis using assms(1) [of s] False by (auto simp: renamed_map_def)
qed

lemma lookup_map_insert: "RBT.lookup (map_insert k v m) = insert_new k v (RBT.lookup m)"
  by (simp add: map_insert_def insert_new_def)

lemma expand_inv_refl: "expand_inv G {} G"
  by (simp add: expand_inv_def renamed_map_def)

lemma expand_caller_inv:
  assumes fresh: "names_fresh G0" and inv: "expand_inv G0 R G"
    and f: "fn_signatures (gen_decls G0) f = Some sig" "fn_pkeys (gen_decls G0) f = Some t" and c: "c \<noteq> t"
  shows "expand_inv G0 (insert (f, c) R) (expand_caller f sig t c G)"
proof -
  let ?G = "expand_caller f sig t c G"
  note defs = expand_caller_def Let_def lookup_map_insert
  note old = fresh [unfolded names_fresh_def, rule_format, of f c]
  note I = inv [unfolded expand_inv_def]
  have "renamed_map (insert (f, c) R) (\<lambda>f c. Some c) (RBT.lookup (gen_direct G0)) s (RBT.lookup (gen_direct ?G) s)" for s
    by (rule renamed_map_insert [where m = "RBT.lookup (gen_direct G)" and v = c]) (use I old c in \<open>simp_all add: defs\<close>)
  moreover have "renamed_map (insert (f, c) R) (\<lambda>f c. fn_signatures (gen_decls G0) f) (fn_signatures (gen_decls G0)) s
      (fn_signatures (gen_decls ?G) s)" for s
    by (rule renamed_map_insert [where m = "fn_signatures (gen_decls G)" and v = sig]) (use I old c f in \<open>simp_all add: defs\<close>)
  moreover have "renamed_map (insert (f, c) R) (\<lambda>f c. fn_pkeys (gen_decls G0) f) (fn_pkeys (gen_decls G0)) s (fn_pkeys (gen_decls ?G) s)" for s
    by (rule renamed_map_insert [where m = "fn_pkeys (gen_decls G)" and v = t]) (use I old c f in \<open>simp_all add: defs\<close>)
  moreover have "renamed_map (insert (f, c) R) (\<lambda>f c. Some f) (targets_for_multicaller_fns G0) s (targets_for_multicaller_fns ?G s)" for s
    by (rule renamed_map_insert [where m = "targets_for_multicaller_fns G" and v = f]) (use I old c in \<open>simp_all add: defs\<close>)
  moreover have "set (objcopy_redefine_syms_args (gen_files ?G) k) =
      set (objcopy_redefine_syms_args (gen_files G0) k) \<union> {(g, multicaller_name g k) | g. (g, k) \<in> insert (f, c) R}" for k
    using I c by (auto simp: defs append_at_def)
  moreover have "wrapper_out (gen_files ?G) = wrapper_out (gen_files G0)" "ld_args_out (gen_files ?G) = ld_args_out (gen_files G0)"
    using I c by (simp_all add: defs)
  ultimately show ?thesis by (simp add: expand_inv_def)
qed

lemma expand_callers_inv:
  assumes "names_fresh G0" "fn_signatures (gen_decls G0) f = Some sig" "fn_pkeys (gen_decls G0) f = Some t"
  shows "expand_inv G0 R G \<Longrightarrow> expand_inv G0 (R \<union> {(f, c) | c. c \<in> set cs \<and> c \<noteq> t}) (fold (expand_caller f sig t) cs G)"
proof (induction cs arbitrary: R G)
  case (Cons c cs)
  show ?case
  proof (cases "c = t")
    case True
    then have "{(f, d) | d. d \<in> set (c # cs) \<and> d \<noteq> t} = {(f, d) | d. d \<in> set cs \<and> d \<noteq> t}" by auto
    then show ?thesis using Cons True by (simp add: expand_caller_def)
  next
    case False
    have "insert (f, c) R \<union> {(f, d) | d. d \<in> set cs \<and> d \<noteq> t} = R \<union> {(f, d) | d. d \<in> set (c # cs) \<and> d \<noteq> t}" using False by auto
    then show ?thesis using Cons.IH [OF expand_caller_inv [OF assms(1) Cons.prems assms(2,3) False]] by simp
  qed
qed simp

definition renamed_pairs :: "gen_state \<Rightarrow> (Function \<times> Pkey set) list \<Rightarrow> (Function \<times> Pkey) set" where
  "renamed_pairs G0 ys = {(f, c). \<exists>S. (f, S) \<in> set ys \<and> c \<in> S \<and> fn_pkeys (gen_decls G0) f \<noteq> Some c}"

definition plain :: "Function \<Rightarrow> bool" where
  "plain s = (\<forall>f c. s \<noteq> multicaller_name f c)"

lemma expand_inv_plain:
  assumes "expand_inv G0 R G" "plain s"
  shows "fn_signatures (gen_decls G) s = fn_signatures (gen_decls G0) s" "fn_pkeys (gen_decls G) s = fn_pkeys (gen_decls G0) s"
    "RBT.lookup (gen_direct G) s = RBT.lookup (gen_direct G0) s" "targets_for_multicaller_fns G s = targets_for_multicaller_fns G0 s"
  using assms by (auto simp: expand_inv_def plain_def intro!: renamed_map_old)

lemma expand_multicallers_inv:
  assumes fresh: "names_fresh G0" and run: "expand_multicallers multi G0 = Some G"
    and keys: "\<And>f S. (f, S) \<in> set (RBT.entries multi) \<Longrightarrow> plain f \<and> finite S"
  shows "expand_inv G0 (renamed_pairs G0 (RBT.entries multi)) G"
  using run unfolding expand_multicallers_def
proof (rule foldM_rule [where P = "\<lambda>ys. expand_inv G0 (renamed_pairs G0 ys)"])
  show "expand_inv G0 (renamed_pairs G0 []) G0" using expand_inv_refl by (simp add: renamed_pairs_def)
next
  fix ys y zs G1 G2
  assume eq: "RBT.entries multi = ys @ y # zs" and I: "expand_inv G0 (renamed_pairs G0 ys) G1" and step: "expand_multicaller y G1 = Some G2"
  obtain f S where y: "y = (f, S)" by (cases y)
  have fS: "plain f" "finite S" using keys [of f S] eq y by auto
  note same = expand_inv_plain(1,2) [OF I fS(1)]
  obtain sig t where st: "fn_signatures (gen_decls G0) f = Some sig" "fn_pkeys (gen_decls G0) f = Some t"
    "G2 = fold (expand_caller f sig t) (sorted_list_of_set S) G1"
    using step by (auto simp: y expand_multicaller_def same split: option.splits)
  have cs: "set (sorted_list_of_set S) = S" using fS(2) by simp
  have "renamed_pairs G0 (ys @ [y]) = renamed_pairs G0 ys \<union> {(f, c) | c. c \<in> set (sorted_list_of_set S) \<and> c \<noteq> t}"
  proof (rule set_eqI)
    fix p :: "Function \<times> Pkey"
    obtain g c where p: "p = (g, c)" by (cases p)
    have "(g, c) \<in> renamed_pairs G0 (ys @ [y]) \<longleftrightarrow> (g, c) \<in> renamed_pairs G0 ys \<or> g = f \<and> c \<in> S \<and> Some t \<noteq> Some c"
      unfolding renamed_pairs_def y set_append list.set mem_Collect_eq prod.case st(2) [symmetric] by blast
    then show "p \<in> renamed_pairs G0 (ys @ [y]) \<longleftrightarrow>
        p \<in> renamed_pairs G0 ys \<union> {(f, c) | c. c \<in> set (sorted_list_of_set S) \<and> c \<noteq> t}"
      unfolding p cs by blast
  qed
  then show "expand_inv G0 (renamed_pairs G0 (ys @ [y])) G2"
    using expand_callers_inv [OF fresh st(1,2) I, of "sorted_list_of_set S"] by (simp add: st(3))
qed

lemma entries_lookup: "(k, v) \<in> set (RBT.entries m) \<longleftrightarrow> RBT.lookup m k = Some v"
  using RBT.map_of_entries [of m] RBT.distinct_entries [of m] by (metis map_of_SomeD map_of_is_SomeI)

section \<open>Generation only adds to the files\<close>

definition extends :: "gate_files \<Rightarrow> gate_files \<Rightarrow> bool" where
  "extends F F' =
    (set (wrapper_out F) \<subseteq> set (wrapper_out F') \<and> set (macros_defining_wrappers F) \<subseteq> set (macros_defining_wrappers F') \<and>
     set (invocations F) \<subseteq> set (invocations F') \<and> (\<forall>c. set (ld_args_out F c) \<subseteq> set (ld_args_out F' c)) \<and>
     objcopy_redefine_syms_args F = objcopy_redefine_syms_args F')"

lemma extends_refl [simp]: "extends F F"
  by (simp add: extends_def)

lemma extends_trans: "extends F G \<Longrightarrow> extends G H \<Longrightarrow> extends F H"
  by (fastforce simp: extends_def)

lemma foldM_extends:
  assumes "\<And>x F F'. f x F = Some F' \<Longrightarrow> extends F F'"
  shows "foldM f xs F = Some F' \<Longrightarrow> extends F F'"
  by (induction xs arbitrary: F) (auto simp: bind_eq_Some_conv intro: extends_trans assms)

lemma foldM_member:
  assumes "\<And>x F F'. f x F = Some F' \<Longrightarrow> extends F F'" "foldM f xs F = Some F'" "x \<in> set xs"
  shows "\<exists>F1 F2. f x F1 = Some F2 \<and> extends F2 F'"
proof -
  obtain ys zs where xs: "xs = ys @ x # zs" using assms(3) by (meson split_list)
  then obtain F1 F2 where "f x F1 = Some F2" and rest: "foldM f zs F2 = Some F'"
    using assms(2) by (auto simp: foldM_append bind_eq_Some_conv)
  moreover have "extends F2 F'" using rest by (rule foldM_extends [rotated]) (erule assms(1))
  ultimately show ?thesis by blast
qed

lemma emit_extends:
  "emit_indirect_gate opts ctx c p F = Some F' \<Longrightarrow> extends F F'"
  "emit_direct_gate opts ctx D targets q F = Some F' \<Longrightarrow> extends F F'"
  "emit_destructor_gate opts ctx D k F = Some F' \<Longrightarrow> extends F F'"
  "emit_pointer_gate opts ctx D r F = Some F' \<Longrightarrow> extends F F'"
  "emit_static_gate opts ctx D file r F = Some F' \<Longrightarrow> extends F F'"
  by (auto simp: emit_indirect_gate_def emit_direct_gate_def emit_destructor_gate_def emit_pointer_gate_def emit_static_gate_def
      emit_pointer_macro_def bind_eq_Some_conv extends_def append_at_def Let_def split: prod.splits option.splits if_splits)

lemma emit_indirect_gates_extends: "emit_indirect_gates opts ctx n info F = Some F' \<Longrightarrow> extends F F'"
  unfolding emit_indirect_gates_def by (erule foldM_extends [rotated]) (erule foldM_extends [rotated], erule emit_extends)

lemma emit_indirect_gate_ld: "emit_indirect_gate opts ctx c p F = Some F' \<Longrightarrow> ld_args_out F' = ld_args_out F"
  by (auto simp: emit_indirect_gate_def bind_eq_Some_conv split: prod.splits)

lemma emit_destructors_extends: "foldM (emit_destructor_gate opts ctx D) ks F = Some F' \<Longrightarrow> extends F F'"
  by (erule foldM_extends [rotated]) (erule emit_extends)

lemma emit_pointer_gates_extends:
  assumes "emit_pointer_gates opts ctx ptrs D F = Some F'"
  shows "extends F F'"
proof -
  obtain F1 where F1: "foldM (emit_pointer_gate opts ctx D) (RBT.entries (addr_taken_fns ptrs)) F = Some F1"
    "foldM (\<lambda>(filename, fns). foldM (emit_static_gate opts ctx D filename) fns) (RBT.entries (internal_addr_taken_fns ptrs)) F1 = Some F'"
    using assms by (auto simp: emit_pointer_gates_def bind_eq_Some_conv)
  have "extends F F1" using F1(1) by (rule foldM_extends [rotated]) (erule emit_extends)
  moreover have "extends F1 F'"
    using F1(2) by (rule foldM_extends [rotated]) (auto split: prod.splits elim!: foldM_extends [rotated] dest: emit_extends)
  ultimately show ?thesis by (rule extends_trans)
qed

lemma wrap_cxa_finalizes_extends: "extends F (wrap_cxa_finalizes opts n F)"
proof -
  have "extends F (fold (\<lambda>pkey F. F\<lparr>ld_args_out := append_at pkey ''__cxa_finalize'' (ld_args_out F)\<rparr>) ks F)" for ks
  proof (induction ks arbitrary: F)
    case (Cons k ks)
    have "extends F (F\<lparr>ld_args_out := append_at k ''__cxa_finalize'' (ld_args_out F)\<rparr>)" by (auto simp: extends_def append_at_def)
    then show ?case using Cons.IH extends_trans by simp
  qed simp
  then show ?thesis by (simp add: wrap_cxa_finalizes_def)
qed

lemma direct_gate_emitted:
  assumes run: "emit_direct_gates opts ctx G = Some F" and s: "RBT.lookup (gen_direct G) s = Some c"
    and t: "fn_pkeys (gen_decls G) s = Some t" "t \<noteq> c"
  shows "\<exists>sig code. fn_signatures (gen_decls G) s = Some sig \<and>
    emit_asm_wrapper ctx sig None (''__wrap_'' @ s) (Some (case targets_for_multicaller_fns G s of Some f \<Rightarrow> f | None \<Rightarrow> s)) Direct c t
      (Target opts) = Some code \<and>
    code \<in> set (wrapper_out F) \<and> s \<in> set (ld_args_out F c)"
proof -
  have "(s, c) \<in> set (RBT.entries (gen_direct G))" using s by (simp add: entries_lookup)
  with run [unfolded emit_direct_gates_def]
  have "\<exists>F1 F2. emit_direct_gate opts ctx (gen_decls G) (targets_for_multicaller_fns G) (s, c) F1 = Some F2 \<and> extends F2 F"
    by (rule foldM_member [rotated]) (erule emit_extends)
  then obtain F1 F2 where step: "emit_direct_gate opts ctx (gen_decls G) (targets_for_multicaller_fns G) (s, c) F1 = Some F2" "extends F2 F"
    by blast
  obtain sig code where r: "fn_signatures (gen_decls G) s = Some sig"
    "emit_asm_wrapper ctx sig None (''__wrap_'' @ s) (Some (case targets_for_multicaller_fns G s of Some f \<Rightarrow> f | None \<Rightarrow> s)) Direct c t
      (Target opts) = Some code"
    "F2 = F1\<lparr>wrapper_out := wrapper_out F1 @ [code], ld_args_out := append_at c s (ld_args_out F1)\<rparr>"
    using step(1) t by (auto simp: emit_direct_gate_def Let_def bind_eq_Some_conv split: option.splits if_splits)
  then have "s \<in> set (ld_args_out F2 c)" "code \<in> set (wrapper_out F2)" by (simp_all add: append_at_def)
  then have "s \<in> set (ld_args_out F c)" "code \<in> set (wrapper_out F)" using step(2) by (auto simp: extends_def)
  then show ?thesis using r(1,2) by blast
qed

section \<open>Every direct call that crosses compartments is gated\<close>

text \<open>
  The symbol that a reference from an object of a compartment is linked to: \<open>objcopy\<close>
  renames it by the lines of the compartment, then \<open>ld\<close> redirects it if it is named in
  a \<open>--wrap\<close> option.
\<close>
definition linked_symbol :: "gate_files \<Rightarrow> Pkey \<Rightarrow> Function \<Rightarrow> string" where
  "linked_symbol F c f =
    (let s = (case map_of (objcopy_redefine_syms_args F c) f of Some s \<Rightarrow> s | None \<Rightarrow> f) in
     if s \<in> set (ld_args_out F c) then ''__wrap_'' @ s else s)"

text \<open>No function of the program is named like a renamed symbol.\<close>
definition no_renamed_names :: "FnDecl \<Rightarrow> bool" where
  "no_renamed_names D = (\<forall>f c. fn_signatures D (multicaller_name f c) = None)"

definition plan_start :: "options \<Rightarrow> FnDecl \<Rightarrow> nat \<Rightarrow> call_plan \<Rightarrow> gate_files \<Rightarrow> gen_state" where
  "plan_start opts D n P F0 =
    \<lparr>gen_decls = D\<lparr>fn_pkeys := home opts D n\<rparr>, gen_direct = direct_call_wrappers P, targets_for_multicaller_fns = (\<lambda>_. None), gen_files = F0\<rparr>"

lemma plan_start_simps [simp]:
  "fn_signatures (gen_decls (plan_start opts D n P F0)) = fn_signatures D"
  "fn_pkeys (gen_decls (plan_start opts D n P F0)) = home opts D n"
  "gen_direct (plan_start opts D n P F0) = direct_call_wrappers P"
  "targets_for_multicaller_fns (plan_start opts D n P F0) = (\<lambda>_. None)"
  "gen_files (plan_start opts D n P F0) = F0"
  by (simp_all add: plan_start_def)

lemma callers_known:
  assumes "decls_wf D" "callers opts D n used f \<noteq> {}"
  shows "fn_signatures D f \<noteq> None"
  using assms by (auto simp: callers_def needs_def decls_wf_def split: if_splits)

lemma home_known:
  assumes wf: "decls_wf D" and h: "home opts D n f \<noteq> None"
  shows "is_ldso_function f \<or> fn_signatures D f \<noteq> None"
proof (rule ccontr)
  assume "\<not> ?thesis"
  then have f: "\<not> is_ldso_function f" "fn_signatures D f = None" by auto
  then have "fn_pkeys D f = None" "\<And>c. (c, f) \<notin> needed D n" using wf by (auto simp: decls_wf_def needed_def needs_def)
  then show False using h f by (simp add: home_def visited_pkeys_def)
qed

lemma emit_direct_gates_extends: "emit_direct_gates opts ctx G = Some F \<Longrightarrow> extends (gen_files G) F"
  unfolding emit_direct_gates_def by (erule foldM_extends [rotated]) (erule emit_extends)

lemma expand_files:
  assumes "expand_multicallers multi G0 = Some G"
  shows "wrapper_out (gen_files G) = wrapper_out (gen_files G0) \<and> ld_args_out (gen_files G) = ld_args_out (gen_files G0) \<and>
    fn_definitions (gen_decls G) = fn_definitions (gen_decls G0)"
    (is "?same G")
proof -
  have f: "wrapper_out (gen_files (fold (expand_caller f sig t) cs G)) = wrapper_out (gen_files G)"
      "ld_args_out (gen_files (fold (expand_caller f sig t) cs G)) = ld_args_out (gen_files G)"
      "fn_definitions (gen_decls (fold (expand_caller f sig t) cs G)) = fn_definitions (gen_decls G)" for f sig t cs G
    by (induction cs arbitrary: G; simp add: expand_caller_def Let_def)+
  show ?thesis
    using assms unfolding expand_multicallers_def
    by (rule foldM_rule [where P = "\<lambda>_. ?same"]) (auto simp: expand_multicaller_def f split: prod.splits option.splits)
qed

lemma generate_gates_split:
  assumes wf: "decls_wf D" and used: "finite used" and run: "generate_gates opts ctx n used ptrs D = Some F"
  obtains F0 P G F1 where "classified P (callers opts D n used)" "objcopy_redefine_syms_args F0 = (\<lambda>_. [])"
    "expand_multicallers (multicaller_fns P) (plan_start opts D n P F0) = Some G"
    "emit_direct_gates opts ctx G = Some F1" "extends F1 F"
    "emit_indirect_gates opts ctx n (fn_ptr_info ptrs) gate_files_new = Some F0" "set (wrapper_out F0) \<subseteq> set (wrapper_out F)"
    "\<exists>F3. emit_pointer_gates opts ctx ptrs (gen_decls G) F3 = Some F"
proof -
  obtain S P where S: "visit_compartments opts n D = Some S" "add_ldso_fns opts used S = (D\<lparr>fn_pkeys := home opts D n\<rparr>, P)"
    "classified P (callers opts D n used)"
    using plan_classified [OF wf used] by blast
  obtain F0 G F1 F2 where steps: "emit_indirect_gates opts ctx n (fn_ptr_info ptrs) gate_files_new = Some F0"
    "expand_multicallers (multicaller_fns P) (plan_start opts D n P F0) = Some G" "emit_direct_gates opts ctx G = Some F1"
    "foldM (emit_destructor_gate opts ctx (gen_decls G)) [1..<n] F1 = Some F2"
    "emit_pointer_gates opts ctx ptrs (gen_decls G) (wrap_cxa_finalizes opts n F2) = Some F"
    using run by (auto simp: generate_gates_def bind_eq_Some_conv S(1,2) plan_start_def)
  have "objcopy_redefine_syms_args F0 = (\<lambda>_. [])"
    using emit_indirect_gates_extends [OF steps(1)] by (simp add: extends_def gate_files_new_def)
  moreover have ext: "extends F1 F"
    by (rule extends_trans [OF emit_destructors_extends [OF steps(4)]
          extends_trans [OF wrap_cxa_finalizes_extends emit_pointer_gates_extends [OF steps(5)]]])
  moreover have "set (wrapper_out F0) \<subseteq> set (wrapper_out F)"
    using expand_files [OF steps(2)] emit_direct_gates_extends [OF steps(3)] ext by (auto simp: extends_def)
  ultimately show thesis using that [of P F0 G F1] S(3) steps by (intro that) auto
qed

lemma plan_names_fresh:
  assumes wf: "decls_wf D" and names: "no_renamed_names D" and P: "classified P (callers opts D n used)"
  shows "names_fresh (plan_start opts D n P F0)"
proof -
  have "home opts D n (multicaller_name f c) = None" for f c
    using home_known [OF wf] ldso_not_renamed names by (metis no_renamed_names_def)
  moreover have "callers opts D n used (multicaller_name f c) = {}" for f c
    using callers_known [OF wf] names by (metis no_renamed_names_def)
  ultimately show ?thesis using names by (simp add: names_fresh_def no_renamed_names_def classifiedD(2) [OF P])
qed

lemma callers_plain:
  assumes "decls_wf D" "no_renamed_names D" "callers opts D n used f \<noteq> {}"
  shows "plain f"
  using callers_known [OF assms(1,3)] assms(2) by (auto simp: plain_def no_renamed_names_def)

lemma map_of_const:
  assumes "\<And>k v. (k, v) \<in> set xs \<Longrightarrow> v = g k" "k \<in> fst ` set xs"
  shows "map_of xs k = Some (g k)"
proof -
  obtain v where "map_of xs k = Some v" using assms(2) by (metis map_of_eq_None_iff not_Some_eq)
  then show ?thesis using assms(1) map_of_SomeD by metis
qed

lemma renamed_map_at: "\<forall>s. renamed_map R new old s (m s) \<Longrightarrow> (f, c) \<in> R \<Longrightarrow> m (multicaller_name f c) = new f c"
  by (blast dest: renamed_map_new)

lemma expand_inv_renamed:
  assumes "expand_inv G0 R G" "(f, c) \<in> R"
  shows "fn_signatures (gen_decls G) (multicaller_name f c) = fn_signatures (gen_decls G0) f"
    "fn_pkeys (gen_decls G) (multicaller_name f c) = fn_pkeys (gen_decls G0) f"
    "RBT.lookup (gen_direct G) (multicaller_name f c) = Some c"
    "targets_for_multicaller_fns G (multicaller_name f c) = Some f"
  using assms(1)
    renamed_map_at [where m = "fn_signatures (gen_decls G)" and new = "\<lambda>f c. fn_signatures (gen_decls G0) f", OF _ assms(2)]
    renamed_map_at [where m = "fn_pkeys (gen_decls G)" and new = "\<lambda>f c. fn_pkeys (gen_decls G0) f", OF _ assms(2)]
    renamed_map_at [where m = "RBT.lookup (gen_direct G)" and new = "\<lambda>f c. Some c", OF _ assms(2)]
    renamed_map_at [where m = "targets_for_multicaller_fns G" and new = "\<lambda>f c. Some f", OF _ assms(2)]
  unfolding expand_inv_def by auto

text \<open>The state after the expansion, in terms of the callers and the home of each function.\<close>
definition planned :: "options \<Rightarrow> FnDecl \<Rightarrow> nat \<Rightarrow> Pkey set \<Rightarrow> gen_state \<Rightarrow> bool" where
  "planned opts D n used G =
    (\<forall>f c t. c \<in> callers opts D n used f \<longrightarrow> home opts D n f = Some t \<longrightarrow> t \<noteq> c \<longrightarrow>
      (\<exists>s. RBT.lookup (gen_direct G) s = Some c \<and> fn_pkeys (gen_decls G) s = Some t \<and>
        fn_signatures (gen_decls G) s = fn_signatures D f \<and> (case targets_for_multicaller_fns G s of Some g \<Rightarrow> g | None \<Rightarrow> s) = f \<and>
        (case map_of (objcopy_redefine_syms_args (gen_files G) c) f of Some s \<Rightarrow> s | None \<Rightarrow> f) = s))"

lemma one_caller:
  assumes "finite S" "c \<in> S" "\<not> 2 \<le> card S"
  shows "card S = 1" "the_elem S = c"
  using assms(2,3) by (cases rule: callers_cases [OF assms(1)]; auto)+

lemma multicallers_entries:
  assumes "classified P C"
  shows "(g, S) \<in> set (RBT.entries (multicaller_fns P)) \<longleftrightarrow> 2 \<le> card (C g) \<and> S = C g"
  by (auto simp: entries_lookup classifiedD(3) [OF assms])

lemma expanded_inv:
  assumes wf: "decls_wf D" and names: "no_renamed_names D" and P: "classified P (callers opts D n used)"
    and exp: "expand_multicallers (multicaller_fns P) (plan_start opts D n P F0) = Some G"
  shows "expand_inv (plan_start opts D n P F0) (renamed_pairs (plan_start opts D n P F0) (RBT.entries (multicaller_fns P))) G"
proof (rule expand_multicallers_inv [OF plan_names_fresh [OF wf names P] exp])
  fix g S
  assume "(g, S) \<in> set (RBT.entries (multicaller_fns P))"
  then have S: "2 \<le> card (callers opts D n used g)" "S = callers opts D n used g"
    unfolding multicallers_entries [OF P] by (elim conjE, simp)+
  have "callers opts D n used g \<noteq> {}" using S(1) by auto
  then show "plain g \<and> finite S"
    using callers_plain [OF wf names, of opts n used g] classifiedD(1) [OF P, of g] unfolding S(2) by (intro conjI)
qed

lemma expanded_planned:
  assumes wf: "decls_wf D" and names: "no_renamed_names D" and P: "classified P (callers opts D n used)"
    and F0: "objcopy_redefine_syms_args F0 = (\<lambda>_. [])"
    and exp: "expand_multicallers (multicaller_fns P) (plan_start opts D n P F0) = Some G"
  shows "planned opts D n used G"
proof -
  let ?C = "callers opts D n used"
  define R where "R = renamed_pairs (plan_start opts D n P F0) (RBT.entries (multicaller_fns P))"
  note multi = multicallers_entries [OF P]
  have I: "expand_inv (plan_start opts D n P F0) R G" unfolding R_def by (rule expanded_inv [OF wf names P exp])
  have R: "(g, d) \<in> R \<longleftrightarrow> 2 \<le> card (?C g) \<and> d \<in> ?C g \<and> home opts D n g \<noteq> Some d" for g d
    unfolding R_def renamed_pairs_def mem_Collect_eq prod.case multi plan_start_simps by auto
  have obj: "set (objcopy_redefine_syms_args (gen_files G) k) = {(g, multicaller_name g k) | g. (g, k) \<in> R}" for k
    using I by (simp add: expand_inv_def F0)
  show ?thesis unfolding planned_def
  proof (intro allI impI)
    fix f c t
    assume c: "c \<in> ?C f" and t: "home opts D n f = Some t" "t \<noteq> c"
    show "\<exists>s. RBT.lookup (gen_direct G) s = Some c \<and> fn_pkeys (gen_decls G) s = Some t \<and>
        fn_signatures (gen_decls G) s = fn_signatures D f \<and> (case targets_for_multicaller_fns G s of Some g \<Rightarrow> g | None \<Rightarrow> s) = f \<and>
        (case map_of (objcopy_redefine_syms_args (gen_files G) c) f of Some s \<Rightarrow> s | None \<Rightarrow> f) = s"
    proof (cases "2 \<le> card (?C f)")
      case True
      then have fc: "(f, c) \<in> R" using R c t by simp
      have "map_of (objcopy_redefine_syms_args (gen_files G) c) f = Some (multicaller_name f c)"
        by (rule map_of_const) (use obj fc in \<open>auto simp: image_iff\<close>)
      then show ?thesis using expand_inv_renamed [OF I fc] t(1) by (intro exI [of _ "multicaller_name f c"]) simp
    next
      case False
      have pf: "plain f" using callers_plain [OF wf names, of opts n used f] c by blast
      note one = one_caller [OF classifiedD(1) [OF P, of f] c False]
      have "RBT.lookup (direct_call_wrappers P) f = Some c" using one by (simp add: classifiedD(2) [OF P])
      moreover have "map_of (objcopy_redefine_syms_args (gen_files G) c) f = None"
        using False R [of f c] by (auto simp: map_of_eq_None_iff obj)
      ultimately show ?thesis using expand_inv_plain [OF I pf] t(1) by (intro exI [of _ f]) simp
    qed
  qed
qed

text \<open>
  C3. Every direct call from one compartment to a function of another goes through a
  call gate.  After the passes over the program and a successful generation, let a
  compartment need a function (it declares it, does not define it, and it is not a
  system function left out on purpose; loader functions are needed everywhere when libc
  has its own compartment) whose home is another compartment.  Then the reference in the
  objects of the caller is renamed and redirected to a wrapper, and the generated file
  holds the gate of that name from exactly the caller to exactly the home, with the
  signature and the name of the function.
\<close>
theorem cross_calls_gated:
  assumes decls: "foldM (run_match opts pkey_of) matches FnDecl_new = Some D"
    and gen: "generate_gates opts ctx n used ptrs D = Some F"
    and used: "finite used" and names: "no_renamed_names D"
    and c: "c \<in> callers opts D n used f" and t: "home opts D n f = Some t" "t \<noteq> c"
  shows "\<exists>s sig code. linked_symbol F c f = ''__wrap_'' @ s \<and> fn_signatures D f = Some sig \<and>
    emit_asm_wrapper ctx sig None (''__wrap_'' @ s) (Some f) Direct c t (Target opts) = Some code \<and> code \<in> set (wrapper_out F)"
proof -
  note wf = matches_wf [OF decls]
  show ?thesis
  proof (rule generate_gates_split [OF wf used gen])
    fix F0 P G F1
    assume P: "classified P (callers opts D n used)" and F0: "objcopy_redefine_syms_args F0 = (\<lambda>_. [])"
      and exp: "expand_multicallers (multicaller_fns P) (plan_start opts D n P F0) = Some G"
      and F1: "emit_direct_gates opts ctx G = Some F1" "extends F1 F"
    obtain s where s: "RBT.lookup (gen_direct G) s = Some c" "fn_pkeys (gen_decls G) s = Some t"
      "fn_signatures (gen_decls G) s = fn_signatures D f" "(case targets_for_multicaller_fns G s of Some g \<Rightarrow> g | None \<Rightarrow> s) = f"
      "(case map_of (objcopy_redefine_syms_args (gen_files G) c) f of Some s \<Rightarrow> s | None \<Rightarrow> f) = s"
      using expanded_planned [OF wf names P F0 exp, unfolded planned_def, rule_format, OF c t] by (elim exE conjE)
    from direct_gate_emitted [OF F1(1) s(1,2) t(2), unfolded s(3,4)] obtain sig code where
      e: "fn_signatures D f = Some sig" "emit_asm_wrapper ctx sig None (''__wrap_'' @ s) (Some f) Direct c t (Target opts) = Some code"
        "code \<in> set (wrapper_out F1)" "s \<in> set (ld_args_out F1 c)" by (elim exE conjE)
    have obj: "objcopy_redefine_syms_args F = objcopy_redefine_syms_args (gen_files G)"
      using F1(2) emit_direct_gates_extends [OF F1(1)] by (simp add: extends_def)
    have mem: "code \<in> set (wrapper_out F)" "s \<in> set (ld_args_out F c)" using e(3,4) F1(2) by (auto simp: extends_def)
    then have "linked_symbol F c f = ''__wrap_'' @ s" unfolding linked_symbol_def obj s(5) Let_def by (simp only: if_True)
    then show ?thesis using e(1,2) mem(1) by (intro exI conjI)
  qed
qed

text \<open>Three compartments; the first two call a function of the third.\<close>
definition sample_node :: "Function \<Rightarrow> bool \<Rightarrow> Filename \<Rightarrow> fn_node" where
  "sample_node f d u = \<lparr>node_name = f, node_definition = d, node_system_header = False, node_annotation = None, node_file = ''/out/'' @ u,
     node_expansion_file = ''/out/'' @ u, node_builtin = False, node_variadic = False, node_sig = sample_sig, node_unit = u\<rparr>"

definition sample_options :: options where
  "sample_options = \<lparr>gLibcCompartmentEnabled = False, Target = X86, RootDirectory = ''/src'', OutputDirectory = ''/out''\<rparr>"

definition sample_unit :: "Filename \<Rightarrow> Pkey option" where
  "sample_unit u = (if u = ''a.c'' then Some 0 else if u = ''b.c'' then Some 1 else Some 2)"

definition sample_matches :: "ast_match list" where
  "sample_matches = [Match_decl (sample_node ''f'' False ''a.c''), Match_decl (sample_node ''f'' False ''b.c''),
     Match_decl (sample_node (destructor_name 1) True ''b.c''), Match_decl (sample_node ''f'' True ''c.c''),
     Match_decl (sample_node (destructor_name 2) True ''c.c'')]"

text \<open>The signature of an indirect call has the hidden pointer in front.\<close>
definition sample_indirect_sig :: FnSignature where
  "sample_indirect_sig =
    \<lparr>abi = \<lparr>abi_args = [Register Integral 8, Register Integral 4], abi_ret = [Register Integral 4]\<rparr>, api_args = [1, 0]\<rparr>"

definition sample_ptrs :: pointer_passes where
  "sample_ptrs = \<lparr>fn_ptr_info = RBT.insert ''_ZTSFiiE'' \<lparr>type_str = ''int (int)'', info_sig = sample_sig, info_wrapper_sig = sample_indirect_sig\<rparr> RBT.empty,
     addr_taken_fns = RBT.insert ''f'' ''struct IA2_fnptr__ZTSFiiE'' RBT.empty, internal_addr_taken_fns = RBT.empty\<rparr>"

definition sample_decls :: "FnDecl option" where
  "sample_decls = foldM (run_match sample_options sample_unit) sample_matches FnDecl_new"

definition sample_files :: "FnDecl \<Rightarrow> gate_files option" where
  "sample_files = generate_gates sample_options sample_ctx 3 {0, 1, 2} sample_ptrs"

lemma sample_generated: "Option.bind sample_decls sample_files \<noteq> None"
  by code_simp

lemma sample_decls_facts:
  "map_option (\<lambda>D. ''f'' \<in> declared_fns D 0 \<and> ''f'' \<notin> defined_fns D 0 \<and> ''f'' \<notin> system_header_fns D \<and> fn_pkeys D ''f'' = Some 2) sample_decls
   = Some True"
  by code_simp

lemma known_names:
  assumes "foldM (run_match opts pkey_of) matches D0 = Some D"
  shows "dom (fn_signatures D) \<subseteq> dom (fn_signatures D0) \<union> node_name ` {node. Match_decl node \<in> set matches}"
  using assms
proof (rule foldM_rule [where P = "\<lambda>ms D. dom (fn_signatures D) \<subseteq> dom (fn_signatures D0) \<union> node_name ` {node. Match_decl node \<in> set ms}"])
  fix ys y zs D1 D2
  assume I: "dom (fn_signatures D1) \<subseteq> dom (fn_signatures D0) \<union> node_name ` {node. Match_decl node \<in> set ys}"
    and step: "run_match opts pkey_of y D1 = Some D2"
  have "dom (fn_signatures D2) \<subseteq> dom (fn_signatures D1) \<union> node_name ` {node. Match_decl node = y}"
    using step by (cases y) (auto simp: fn_decl_run_def fn_decl_record_def call_tracker_run_def Let_def bind_eq_Some_conv split: option.splits if_splits)
  then show "dom (fn_signatures D2) \<subseteq> dom (fn_signatures D0) \<union> node_name ` {node. Match_decl node \<in> set (ys @ [y])}" using I by auto
qed simp

lemma names_not_renamed:
  assumes "foldM (run_match opts pkey_of) matches FnDecl_new = Some D" "\<forall>node. Match_decl node \<in> set matches \<longrightarrow> \<not> looks_renamed (node_name node)"
  shows "no_renamed_names D"
  unfolding no_renamed_names_def
proof (intro allI, rule ccontr)
  fix f c
  assume "fn_signatures D (multicaller_name f c) \<noteq> None"
  then have "multicaller_name f c \<in> node_name ` {node. Match_decl node \<in> set matches}"
    using known_names [OF assms(1)] by (auto simp: FnDecl_new_def)
  then obtain node where "Match_decl node \<in> set matches" "node_name node = multicaller_name f c" by auto
  then show False using assms(2) looks_renamed [of f c] by auto
qed

lemma sample_names:
  assumes "sample_decls = Some D"
  shows "no_renamed_names D"
proof (rule names_not_renamed [OF assms [unfolded sample_decls_def]])
  have "\<forall>m \<in> set sample_matches. case m of Match_decl node \<Rightarrow> \<not> looks_renamed (node_name node) | Match_call _ _ \<Rightarrow> True" by code_simp
  then show "\<forall>node. Match_decl node \<in> set sample_matches \<longrightarrow> \<not> looks_renamed (node_name node)" by fastforce
qed

lemma sample_callers:
  assumes "sample_decls = Some D"
  shows "0 \<in> callers sample_options D 3 {0, 1, 2} ''f''" "home sample_options D 3 ''f'' = Some 2"
  using sample_decls_facts
  by (simp_all add: assms callers_def needs_def skip_system_fn_def home_def visited_pkeys_def sample_options_def)

theorem cross_calls_gated_witness:
  "\<exists>D F s sig code. foldM (run_match sample_options sample_unit) sample_matches FnDecl_new = Some D \<and>
     generate_gates sample_options sample_ctx 3 {0, 1, 2} sample_ptrs D = Some F \<and>
     linked_symbol F 0 ''f'' = ''__wrap_'' @ s \<and> fn_signatures D ''f'' = Some sig \<and>
     emit_asm_wrapper sample_ctx sig None (''__wrap_'' @ s) (Some ''f'') Direct 0 2 (Target sample_options) = Some code \<and>
     code \<in> set (wrapper_out F)"
proof -
  obtain D F where D: "sample_decls = Some D" and F: "sample_files D = Some F"
    using sample_generated by (auto simp: bind_eq_Some_conv)
  note prem = D [unfolded sample_decls_def] F [unfolded sample_files_def]
  have "\<exists>s sig code. linked_symbol F 0 ''f'' = ''__wrap_'' @ s \<and> fn_signatures D ''f'' = Some sig \<and>
      emit_asm_wrapper sample_ctx sig None (''__wrap_'' @ s) (Some ''f'') Direct 0 2 (Target sample_options) = Some code \<and>
      code \<in> set (wrapper_out F)"
    by (rule cross_calls_gated [OF prem _ sample_names [OF D] sample_callers [OF D]]) simp_all
  then show ?thesis using prem by (elim exE conjE) (intro exI conjI)
qed

section \<open>Calls through function pointers\<close>

lemma pointer_gate_emitted:
  assumes "emit_pointer_gates opts ctx ptrs D F0 = Some F" and f: "RBT.lookup (addr_taken_fns ptrs) f = Some opaque"
    and t: "fn_pkeys D f = Some t" "t \<noteq> 0" and sig: "fn_signatures D f = Some sig"
  shows "\<exists>code. emit_asm_wrapper ctx sig None (''__ia2_'' @ f) (Some f) Pointer 0 t (Target opts) = Some code \<and>
    (f, code) \<in> set (macros_defining_wrappers F) \<and> (file_or_empty D f, f) \<in> set (invocations F)"
proof -
  obtain F1 where F1: "foldM (emit_pointer_gate opts ctx D) (RBT.entries (addr_taken_fns ptrs)) F0 = Some F1"
    "foldM (\<lambda>(filename, fns). foldM (emit_static_gate opts ctx D filename) fns) (RBT.entries (internal_addr_taken_fns ptrs)) F1 = Some F"
    using assms(1) by (auto simp: emit_pointer_gates_def bind_eq_Some_conv)
  have "extends F1 F"
    using F1(2) by (rule foldM_extends [rotated]) (auto split: prod.splits elim!: foldM_extends [rotated] dest: emit_extends)
  have "(f, opaque) \<in> set (RBT.entries (addr_taken_fns ptrs))" using f by (simp add: entries_lookup)
  with F1(1) have "\<exists>G H. emit_pointer_gate opts ctx D (f, opaque) G = Some H \<and> extends H F1"
    by (rule foldM_member [rotated]) (erule emit_extends)
  then obtain G H where H: "emit_pointer_gate opts ctx D (f, opaque) G = Some H" "extends H F"
    using extends_trans [OF _ \<open>extends F1 F\<close>] by blast
  obtain code where "emit_asm_wrapper ctx sig None (''__ia2_'' @ f) (Some f) Pointer 0 t (Target opts) = Some code"
    "(f, code) \<in> set (macros_defining_wrappers H)" "(file_or_empty D f, f) \<in> set (invocations H)"
    using H(1) t sig by (auto simp: emit_pointer_gate_def emit_pointer_macro_def bind_eq_Some_conv pkey_or_0_def sig_or_default_def)
  then show ?thesis using H(2) unfolding extends_def by blast
qed

lemma indirect_gate_emitted:
  assumes run: "emit_indirect_gates opts ctx n infos F0 = Some F" and ty: "RBT.lookup infos ty = Some info" and c: "1 \<le> c" "c < n"
  shows "\<exists>code. emit_asm_wrapper ctx (info_sig info) (Some (info_wrapper_sig info)) (indirect_gate_name ty c) None IndirectCallsite c 0
    (Target opts) = Some code \<and> code \<in> set (wrapper_out F)"
proof -
  have "c \<in> set [1..<n]" using c by simp
  with run [unfolded emit_indirect_gates_def]
  have "\<exists>G H. foldM (emit_indirect_gate opts ctx c) (RBT.entries infos) G = Some H \<and> extends H F"
    by (rule foldM_member [rotated]) (erule foldM_extends [rotated], erule emit_extends)
  then obtain G H where H: "foldM (emit_indirect_gate opts ctx c) (RBT.entries infos) G = Some H" "extends H F" by blast
  have "(ty, info) \<in> set (RBT.entries infos)" using ty by (simp add: entries_lookup)
  with H(1) have "\<exists>G' H'. emit_indirect_gate opts ctx c (ty, info) G' = Some H' \<and> extends H' H"
    by (rule foldM_member [rotated]) (erule emit_extends)
  then obtain G' H' where "emit_indirect_gate opts ctx c (ty, info) G' = Some H'" "extends H' F"
    using extends_trans [OF _ H(2)] by blast
  then show ?thesis by (auto simp: emit_indirect_gate_def bind_eq_Some_conv extends_def)
qed



section \<open>No dangling wrapper\<close>

definition wraps_defined :: "options \<Rightarrow> gate_files \<Rightarrow> bool" where
  "wraps_defined opts F =
    (\<forall>c. \<forall>s \<in> set (ld_args_out F c). gLibcCompartmentEnabled opts \<and> s = ''__cxa_finalize'' \<or>
      (\<exists>code \<in> set (wrapper_out F). Label (''__wrap_'' @ s) \<in> set code))"

lemma emit_asm_wrapper_label: "emit_asm_wrapper ctx sig ws w f k c t arch = Some code \<Longrightarrow> Label w \<in> set code"
  by (auto simp: emit_asm_wrapper_def bind_eq_Some_conv split: if_splits)

lemma destructor_gate_label: "destructor_gate opts ctx sig k = Some code \<Longrightarrow> Label (''__wrap_'' @ destructor_name k) \<in> set code"
  by (auto simp: destructor_gate_def Let_def dest!: emit_asm_wrapper_label split: if_splits)

lemma wraps_defined_add:
  assumes "wraps_defined opts F" "Label (''__wrap_'' @ s) \<in> set code"
  shows "wraps_defined opts (F\<lparr>wrapper_out := wrapper_out F @ [code], ld_args_out := append_at c s (ld_args_out F)\<rparr>)"
  using assms by (auto simp: wraps_defined_def append_at_def)

lemma wraps_defined_mono:
  assumes "wraps_defined opts F" "ld_args_out F' = ld_args_out F" "set (wrapper_out F) \<subseteq> set (wrapper_out F')"
  shows "wraps_defined opts F'"
  using assms(1,3) unfolding wraps_defined_def assms(2) by blast

lemma emit_wraps_defined:
  "emit_indirect_gate opts ctx c p F = Some F' \<Longrightarrow> wraps_defined opts F \<Longrightarrow> wraps_defined opts F'"
  "emit_direct_gate opts ctx D targets q F = Some F' \<Longrightarrow> wraps_defined opts F \<Longrightarrow> wraps_defined opts F'"
  "emit_destructor_gate opts ctx D k F = Some F' \<Longrightarrow> wraps_defined opts F \<Longrightarrow> wraps_defined opts F'"
  "emit_pointer_gate opts ctx D r F = Some F' \<Longrightarrow> wraps_defined opts F \<Longrightarrow> wraps_defined opts F'"
  "emit_static_gate opts ctx D filename r F = Some F' \<Longrightarrow> wraps_defined opts F \<Longrightarrow> wraps_defined opts F'"
  subgoal by (auto simp: emit_indirect_gate_def bind_eq_Some_conv elim!: wraps_defined_mono split: prod.splits)
  subgoal by (auto simp: emit_direct_gate_def bind_eq_Some_conv Let_def intro!: wraps_defined_add dest: emit_asm_wrapper_label
        split: prod.splits option.splits if_splits)
  subgoal by (auto simp: emit_destructor_gate_def bind_eq_Some_conv intro!: wraps_defined_add dest: destructor_gate_label split: option.splits)
  subgoal by (auto simp: emit_pointer_gate_def emit_pointer_macro_def bind_eq_Some_conv elim!: wraps_defined_mono split: prod.splits if_splits)
  subgoal by (auto simp: emit_static_gate_def emit_pointer_macro_def bind_eq_Some_conv elim!: wraps_defined_mono split: prod.splits if_splits)
  done

lemma foldM_wraps_defined:
  assumes "\<And>x F F'. f x F = Some F' \<Longrightarrow> wraps_defined opts F \<Longrightarrow> wraps_defined opts F'"
  shows "foldM f xs F = Some F' \<Longrightarrow> wraps_defined opts F \<Longrightarrow> wraps_defined opts F'"
  by (erule foldM_rule [where P = "\<lambda>_. wraps_defined opts"]) (auto intro: assms)

lemma finalize_wraps_defined: "wraps_defined opts F \<Longrightarrow> wraps_defined opts (wrap_cxa_finalizes opts n F)"
proof -
  have "wraps_defined opts (fold (\<lambda>pkey F. F\<lparr>ld_args_out := append_at pkey ''__cxa_finalize'' (ld_args_out F)\<rparr>) ks F)"
    if "gLibcCompartmentEnabled opts" "wraps_defined opts F" for ks
    using that(2)
  proof (induction ks arbitrary: F)
    case (Cons k ks)
    have "wraps_defined opts (F\<lparr>ld_args_out := append_at k ''__cxa_finalize'' (ld_args_out F)\<rparr>)"
      using Cons.prems that(1) by (auto simp: wraps_defined_def append_at_def)
    then show ?case using Cons.IH by simp
  qed simp
  then show "wraps_defined opts F \<Longrightarrow> ?thesis" by (simp add: wrap_cxa_finalizes_def)
qed

lemma pointer_gates_wraps_defined:
  assumes "emit_pointer_gates opts ctx ptrs D F = Some F'" "wraps_defined opts F"
  shows "wraps_defined opts F'"
proof -
  obtain F1 where F1: "foldM (emit_pointer_gate opts ctx D) (RBT.entries (addr_taken_fns ptrs)) F = Some F1"
    "foldM (\<lambda>(filename, fns). foldM (emit_static_gate opts ctx D filename) fns) (RBT.entries (internal_addr_taken_fns ptrs)) F1 = Some F'"
    using assms(1) by (auto simp: emit_pointer_gates_def bind_eq_Some_conv)
  have "wraps_defined opts F1" using F1(1) assms(2) by (rule foldM_wraps_defined [rotated]) (erule (1) emit_wraps_defined)
  with F1(2) show ?thesis
    by (rule foldM_wraps_defined [rotated]) (clarsimp, erule (1) foldM_wraps_defined [rotated], erule (1) emit_wraps_defined)
qed

text \<open>
  C20. The generated files link: after a successful generation every symbol that a
  \<open>--wrap\<close> option of any compartment names has its wrapper in the generated source, with
  a label of that name.  The only exception is \<open>__cxa_finalize\<close> with the libc
  compartment, whose wrapper is part of the runtime.
\<close>
theorem wrapped_symbols_defined:
  assumes gen: "generate_gates opts ctx n used ptrs D = Some F" and s: "s \<in> set (ld_args_out F c)"
  shows "gLibcCompartmentEnabled opts \<and> s = ''__cxa_finalize'' \<or> (\<exists>code \<in> set (wrapper_out F). Label (''__wrap_'' @ s) \<in> set code)"
proof -
  obtain F0 V D1 P where V: "emit_indirect_gates opts ctx n (fn_ptr_info ptrs) gate_files_new = Some F0" "visit_compartments opts n D = Some V"
    "add_ldso_fns opts used V = (D1, P)"
    using gen by (cases "add_ldso_fns opts used (the (visit_compartments opts n D))") (auto simp: generate_gates_def bind_eq_Some_conv)
  obtain G F1 F2 where steps: "expand_multicallers (multicaller_fns P)
      \<lparr>gen_decls = D1, gen_direct = direct_call_wrappers P, targets_for_multicaller_fns = (\<lambda>_. None), gen_files = F0\<rparr> = Some G"
    "emit_direct_gates opts ctx G = Some F1" "foldM (emit_destructor_gate opts ctx (gen_decls G)) [1..<n] F1 = Some F2"
    "emit_pointer_gates opts ctx ptrs (gen_decls G) (wrap_cxa_finalizes opts n F2) = Some F"
    using gen by (auto simp: generate_gates_def bind_eq_Some_conv V)
  have "wraps_defined opts gate_files_new" by (simp add: wraps_defined_def gate_files_new_def)
  with V(1) have "wraps_defined opts F0" unfolding emit_indirect_gates_def
    by (rule foldM_wraps_defined [rotated]) (erule (1) foldM_wraps_defined [rotated], erule (1) emit_wraps_defined)
  then have "wraps_defined opts (gen_files G)" using expand_files [OF steps(1)] by (simp add: wraps_defined_def)
  with steps(2) have "wraps_defined opts F1" unfolding emit_direct_gates_def
    by (rule foldM_wraps_defined [rotated]) (erule (1) emit_wraps_defined)
  with steps(3) have "wraps_defined opts F2" by (rule foldM_wraps_defined [rotated]) (erule (1) emit_wraps_defined)
  with steps(4) have "wraps_defined opts F" by (rule pointer_gates_wraps_defined [OF _ finalize_wraps_defined])
  then show ?thesis using s by (auto simp: wraps_defined_def)
qed

theorem wrapped_symbols_defined_witness:
  "\<exists>D F. sample_decls = Some D \<and> sample_files D = Some F \<and> ''f_from_0'' \<in> set (ld_args_out F 0) \<and>
     (\<exists>code \<in> set (wrapper_out F). Label ''__wrap_f_from_0'' \<in> set code)"
proof -
  obtain D F where D: "sample_decls = Some D" and F: "sample_files D = Some F"
    using sample_generated by (auto simp: bind_eq_Some_conv)
  have "map_option (\<lambda>F. ''f_from_0'' \<in> set (ld_args_out F 0)) (Option.bind sample_decls sample_files) = Some True" by code_simp
  then have s: "''f_from_0'' \<in> set (ld_args_out F 0)" by (simp add: D F)
  from wrapped_symbols_defined [OF F [unfolded sample_files_def] s] show ?thesis using D F s by (auto simp: sample_options_def)
qed

end
