(* ===== verification/Tracer_Progress.thy ===== *)
theory Tracer_Progress
  imports Tracer_Safety
begin

text \<open>
  The tracing loop leaves no thread of the tracee behind: a thread that the kernel has
  stopped and reported is resumed, remembered until its parent reports it, or gone.
\<close>

section \<open>Resumption\<close>

definition resumes :: "pid_t \<Rightarrow> tracer_action \<Rightarrow> bool" where
  "resumes pid a = (case a of Ptrace_continue p _ \<Rightarrow> p = pid | Ptrace_listen p \<Rightarrow> p = pid | Ptrace_syscall _ \<Rightarrow> False | Override_syscall _ _ \<Rightarrow> False)"

text \<open>The last thing the tracer does to the thread is to let it run.\<close>
definition left_running :: "pid_t \<Rightarrow> tracer_action list \<Rightarrow> bool" where
  "left_running pid acts = (acts \<noteq> [] \<and> resumes pid (last acts))"

definition wait_exited :: "exit_wait \<Rightarrow> bool" where
  "wait_exited w = (fst (wait_for_next_trap (xw_pid w) (xw_stat w) (xw_info w)) = WAIT_EXITED)"

definition thread_exited :: "tracer_env \<Rightarrow> bool" where
  "thread_exited e =
    (fst (wait_for_next_trap (env_pid e) (env_stat e) (env_info e)) = WAIT_EXITED \<or> list_ex wait_exited (env_exit_waits e))"

lemma left_running_Cons: "left_running pid acts \<Longrightarrow> left_running pid (a # acts)"
  by (simp add: left_running_def)

lemma left_running_append: "left_running pid acts \<Longrightarrow> left_running pid (pre @ acts)"
  by (simp add: left_running_def)

lemma left_running_continue [simp]: "left_running pid (pre @ [Ptrace_continue pid s])" "left_running pid [Ptrace_continue pid s]"
  "left_running pid [a, Ptrace_continue pid s]" "left_running pid [Ptrace_listen pid]"
  by (simp_all add: left_running_def resumes_def)

lemma after_syscall_resumes:
  "after_syscall T regs pid i ev st = (acts, Next st') \<Longrightarrow> left_running pid acts \<and> pending_pids st' = pending_pids st"
  by (auto simp: after_syscall_def split: option.splits update_result.splits prod.splits bool.splits if_splits)

lemma syscall_exit_resumes:
  "syscall_exit T regs pid i ev ws st = (acts, Next st') \<Longrightarrow>
   (left_running pid acts \<or> list_ex wait_exited ws) \<and> pending_pids st' = pending_pids st"
proof (induction ws arbitrary: st acts)
  case (Cons w ws)
  obtain acts' where acts: "acts = Ptrace_syscall pid # acts'"
    using Cons.prems by (auto split: prod.splits)
  note run = Cons.prems [unfolded acts]
  note defs = wait_exited_def left_running_Cons
  show ?case
  proof (cases "fst (wait_for_next_trap (xw_pid w) (xw_stat w) (xw_info w))")
    case WAIT_EXEC
    then obtain st1 where st1: "syscall_exit T regs pid i ev ws st1 = (acts', Next st')" "pending_pids st1 = pending_pids st"
      using run by (cases "find_memory_map (maps st) pid") (auto split: prod.splits)
    then show ?thesis using Cons.IH [OF st1(1)] by (auto simp: acts defs)
  qed (use run in \<open>auto simp: acts defs split: option.splits prod.splits control_flow.splits dest!: after_syscall_resumes\<close>)
qed simp

lemma on_event_resumes:
  assumes "on_event T e i ev st = (acts, Next st')"
  shows "(left_running (env_pid e) acts \<or> thread_exited e) \<and> pending_pids st' = pending_pids st"
proof -
  note se = syscall_exit_resumes [of T "env_exit_regs e" "env_pid e" i ev "env_exit_waits e"]
  show ?thesis
    using assms
    by (auto simp: on_event_def Let_def thread_exited_def left_running_Cons split: if_splits prod.splits bool.splits option.splits
        wait_trap_result.splits dest!: se)
qed

lemma remove_pending_pid_set:
  assumes "remove_pending_pid ps pid = (b, ps')" "p \<in> set ps" "p \<notin> set ps'"
  shows "b \<and> p = pid"
proof (cases "index_of pid ps")
  case None
  then show ?thesis using assms by (simp add: remove_pending_pid_def)
next
  case (Some j)
  have j: "j < length ps" "ps ! j = pid" using index_of_Some [OF Some] by simp_all
  have "mset ps' = mset ps - {#pid#}" using assms(1) Some mset_swap_remove [OF j(1)] j(2) by (simp add: remove_pending_pid_def)
  have "p = pid"
  proof (rule ccontr)
    assume "p \<noteq> pid"
    then have "p \<in># mset ps - {#pid#}" using assms(2) by (simp add: in_diff_count count_mset_0_iff)
    then have "p \<in># mset ps'" using \<open>mset ps' = _\<close> by simp
    then show False using assms(3) by simp
  qed
  then show ?thesis using assms(1) Some by (simp add: remove_pending_pid_def)
qed

lemma adopt_child_pending:
  "adopt_child st pid = (acts, st') \<Longrightarrow> p \<in> set (pending_pids st) \<Longrightarrow> p \<notin> set (pending_pids st') \<Longrightarrow> Ptrace_continue p 19 \<in> set acts"
  by (auto simp: adopt_child_def split: prod.splits bool.splits dest!: remove_pending_pid_set)

lemma on_entry_wait_Stop:
  "on_entry_wait e wr i T st = (acts, Stop (Next st')) \<Longrightarrow>
   (left_running (env_pid e) acts \<or> wr = WAIT_EXITED) \<and> pending_pids st' = pending_pids st"
  by (auto simp: on_entry_wait_def Let_def split: wait_trap_result.splits option.splits prod.splits control_flow.splits)

lemma on_entry_wait_Proceed:
  "on_entry_wait e wr i T st = (acts, Proceed st' i' b) \<Longrightarrow> p \<in> set (pending_pids st) \<Longrightarrow> p \<notin> set (pending_pids st') \<Longrightarrow>
   Ptrace_continue p 19 \<in> set acts"
  by (auto simp: on_entry_wait_def Let_def split: wait_trap_result.splits option.splits prod.splits control_flow.splits dest: adopt_child_pending)



end
