(* ===== verification/Destructors.thy ===== *)
theory Destructors
  imports Runtime_Init
begin

text \<open>
  The part of the runtime that is compiled into every compartment
  (\<open>ia2_compartment_init.inc\<close>): the protection of the thread-local storage of a new
  thread, and the redirection of the destructors of an object to a call gate by
  rewriting its dynamic section.  The pages the code makes writable are part of the
  state, and a store to a page that is not writable is a fault.
\<close>

section \<open>Thread-local storage of a new thread\<close>

definition init_tls :: "mprotect_ok \<Rightarrow> nat \<Rightarrow> dl_phdr_info list \<Rightarrow> nat \<Rightarrow> nat \<Rightarrow> runtime \<Rightarrow> runtime outcome" where
  "init_tls ok sp0 infos compartment init_tls_addr =
    iterate_protect_tls ok sp0 infos
      \<lparr>pkey = compartment, address = init_tls_addr, extra_libraries = None, found_library_count = 0, shared_sections = None\<rparr>"

section \<open>The destructors of an object\<close>

datatype d_tag = DT_FINI | DT_FINI_ARRAY | DT_FINI_ARRAYSZ | DT_OTHER nat

type_synonym dyn = "d_tag \<times> nat"

record FinalizerInfo =
  fini_offset :: nat
  fini_array_offset :: nat
  fini_array_size :: nat

definition finalizers_zero :: FinalizerInfo where
  "finalizers_zero = \<lparr>fini_offset = 0, fini_array_offset = 0, fini_array_size = 0\<rparr>"

text \<open>The addresses of the symbols the code names, and whether the object has program header entries of the right size.\<close>
record elf_image =
  ehdr_start :: nat
  e_phentsize :: nat
  program_headers :: "(bool \<times> nat \<times> nat) list" \<comment> \<open>is it \<open>PT_DYNAMIC\<close>, \<open>p_vaddr\<close>, \<open>p_memsz\<close>\<close>
  finalizers_addr :: nat
  wrap_destructor_addr :: nat
  destructor_ptr_addr :: nat

record fini_state =
  dynamic :: "dyn list"
  finalizers :: FinalizerInfo
  page_writable :: "nat \<Rightarrow> bool"
  ran_destructors :: bool

datatype fini_error = Fini_exit | Fini_assert | Fini_fault

type_synonym 'a fini = "fini_error + 'a"

definition fini_bind :: "'a fini \<Rightarrow> ('a \<Rightarrow> 'b fini) \<Rightarrow> 'b fini" where
  "fini_bind m f = (case m of Inl e \<Rightarrow> Inl e | Inr x \<Rightarrow> f x)"

text \<open>
  \<open>mprotect\<close> on whole pages; \<open>ok\<close> says whether the call with this address, size and
  protection succeeds, and a failure ends the program.
\<close>
definition fini_mprotect :: "(nat \<Rightarrow> nat \<Rightarrow> bool \<Rightarrow> bool) \<Rightarrow> nat \<Rightarrow> nat \<Rightarrow> bool \<Rightarrow> fini_state \<Rightarrow> fini_state fini" where
  "fini_mprotect ok addr len write st =
    (if \<not> ok addr len write then Inl Fini_exit
     else Inr (st\<lparr>page_writable := \<lambda>p. if addr \<le> p \<and> p < addr + len then write else page_writable st p\<rparr>))"

definition store_finalizers :: "elf_image \<Rightarrow> nat \<Rightarrow> (FinalizerInfo \<Rightarrow> FinalizerInfo) \<Rightarrow> fini_state \<Rightarrow> fini_state fini" where
  "store_finalizers img off f st =
    (if page_writable st (page_down (finalizers_addr img + off)) then Inr (st\<lparr>finalizers := f (finalizers st)\<rparr>) else Inl Fini_fault)"

definition store_dynamic :: "nat \<Rightarrow> nat \<Rightarrow> nat \<Rightarrow> fini_state \<Rightarrow> fini_state fini" where
  "store_dynamic dyn_addr i v st =
    (if page_writable st (page_down (dyn_addr + 16 * i + 8)) then Inr (st\<lparr>dynamic := (dynamic st)[i := (fst (dynamic st ! i), v)]\<rparr>)
     else Inl Fini_fault)"

definition finalizers_region :: "elf_image \<Rightarrow> nat" where
  "finalizers_region img = page_down (finalizers_addr img)"

definition finalizers_region_size :: "elf_image \<Rightarrow> nat" where
  "finalizers_region_size img = page_down (finalizers_addr img + 24 + PAGE_SIZE) - finalizers_region img"

text \<open>Which page has to be made writable for an entry; the result is \<open>rewrite_base\<close> with the state.\<close>
definition open_entry ::
  "(nat \<Rightarrow> nat \<Rightarrow> bool \<Rightarrow> bool) \<Rightarrow> elf_image \<Rightarrow> nat \<Rightarrow> nat \<Rightarrow> nat option \<times> fini_state \<Rightarrow> (nat option \<times> fini_state) fini" where
  "open_entry ok img dyn_addr i = (\<lambda>(rewrite_base, st).
    let dynamic_entry_addr = dyn_addr + 16 * i + 8; next_entry = dyn_addr + 16 * (i + 1);
        in_finalizers_mapping = (dynamic_entry_addr \<ge> finalizers_region img \<and>
          next_entry \<le> finalizers_region img + finalizers_region_size img);
        in_dynamic_mapping = (case rewrite_base of None \<Rightarrow> False | Some b \<Rightarrow> b + PAGE_SIZE \<le> dynamic_entry_addr) in
    if in_finalizers_mapping \<or> in_dynamic_mapping then Inr (rewrite_base, st)
    else
      fini_bind (case rewrite_base of None \<Rightarrow> Inr st | Some b \<Rightarrow> fini_mprotect ok b PAGE_SIZE False st) (\<lambda>st1.
        let b = page_down dynamic_entry_addr in
        if \<not> next_entry - b \<le> PAGE_SIZE then Inl Fini_assert
        else fini_bind (fini_mprotect ok b PAGE_SIZE True st1) (\<lambda>st2. Inr (Some b, st2))))"

text \<open>Saving the value of an entry and putting the gate in its place.\<close>
definition redirect_entry :: "elf_image \<Rightarrow> nat \<Rightarrow> nat \<Rightarrow> fini_state \<Rightarrow> fini_state fini" where
  "redirect_entry img dyn_addr i st =
    (case dynamic st ! i of
       (DT_FINI, v) \<Rightarrow> fini_bind (store_finalizers img 0 (\<lambda>f. f\<lparr>fini_offset := v\<rparr>) st)
         (store_dynamic dyn_addr i (usize_sub (wrap_destructor_addr img) (ehdr_start img)))
     | (DT_FINI_ARRAY, v) \<Rightarrow> fini_bind (store_finalizers img 8 (\<lambda>f. f\<lparr>fini_array_offset := v\<rparr>) st)
         (store_dynamic dyn_addr i (usize_sub (destructor_ptr_addr img) (ehdr_start img)))
     | (DT_FINI_ARRAYSZ, v) \<Rightarrow> fini_bind (store_finalizers img 16 (\<lambda>f. f\<lparr>fini_array_size := v\<rparr>) st)
         (store_dynamic dyn_addr i 1)
     | (DT_OTHER _, _) \<Rightarrow> Inr st)"

fun rewrite_entries ::
  "(nat \<Rightarrow> nat \<Rightarrow> bool \<Rightarrow> bool) \<Rightarrow> elf_image \<Rightarrow> nat \<Rightarrow> nat list \<Rightarrow> nat option \<times> fini_state \<Rightarrow> (nat option \<times> fini_state) fini" where
  "rewrite_entries ok img dyn_addr [] s = Inr s"
| "rewrite_entries ok img dyn_addr (i # is) s =
    (if fst (dynamic (snd s) ! i) \<in> {DT_FINI, DT_FINI_ARRAY, DT_FINI_ARRAYSZ}
     then fini_bind (open_entry ok img dyn_addr i s) (\<lambda>(b, st).
            fini_bind (redirect_entry img dyn_addr i st) (\<lambda>st'. rewrite_entries ok img dyn_addr is (b, st')))
     else rewrite_entries ok img dyn_addr is s)"

definition ia2_setup_destructors :: "(nat \<Rightarrow> nat \<Rightarrow> bool \<Rightarrow> bool) \<Rightarrow> elf_image \<Rightarrow> fini_state \<Rightarrow> fini_state fini" where
  "ia2_setup_destructors ok img st =
    (if e_phentsize img \<noteq> 56 then Inl Fini_assert
     else
       case List.find fst (program_headers img) of
         None \<Rightarrow> Inr st
       | Some (_, vaddr, memsz) \<Rightarrow>
           let dyn_addr = ehdr_start img + vaddr in
           fini_bind (fini_mprotect ok (finalizers_region img) (finalizers_region_size img) True st) (\<lambda>st1.
           fini_bind (rewrite_entries ok img dyn_addr [0..<memsz div 16] (None, st1)) (\<lambda>(rewrite_base, st2).
           fini_bind (case rewrite_base of None \<Rightarrow> Inr st2 | Some b \<Rightarrow> fini_mprotect ok b PAGE_SIZE False st2) (\<lambda>st3.
           fini_mprotect ok (finalizers_region img) (finalizers_region_size img) False st3))))"

text \<open>
  The destructor behind the gate: the offsets of the functions it calls, in order.
  \<open>array\<close> gives the function in an entry of the array at an offset.
\<close>
definition ia2_compartment_destructor :: "(nat \<Rightarrow> nat \<Rightarrow> nat) \<Rightarrow> fini_state \<Rightarrow> nat list \<times> fini_state" where
  "ia2_compartment_destructor array st =
    (if ran_destructors st then ([], st)
     else
       (map (array (fini_array_offset (finalizers st))) [0..<fini_array_size (finalizers st) div 8] @
        (if fini_offset (finalizers st) \<noteq> 0 then [fini_offset (finalizers st)] else []),
        st\<lparr>ran_destructors := True\<rparr>))"

section \<open>What the rewriting does\<close>

lemma fini_bind_simps [simp]: "fini_bind (Inl e) f = Inl e" "fini_bind (Inr x) f = f x"
  by (simp_all add: fini_bind_def)

text \<open>The new value of an entry, and what is remembered of the old one.\<close>
fun redirected :: "elf_image \<Rightarrow> dyn \<Rightarrow> dyn" where
  "redirected img (DT_FINI, v) = (DT_FINI, usize_sub (wrap_destructor_addr img) (ehdr_start img))"
| "redirected img (DT_FINI_ARRAY, v) = (DT_FINI_ARRAY, usize_sub (destructor_ptr_addr img) (ehdr_start img))"
| "redirected img (DT_FINI_ARRAYSZ, v) = (DT_FINI_ARRAYSZ, 1)"
| "redirected img (DT_OTHER t, v) = (DT_OTHER t, v)"

fun saved :: "dyn \<Rightarrow> FinalizerInfo \<Rightarrow> FinalizerInfo" where
  "saved (DT_FINI, v) f = f\<lparr>fini_offset := v\<rparr>"
| "saved (DT_FINI_ARRAY, v) f = f\<lparr>fini_array_offset := v\<rparr>"
| "saved (DT_FINI_ARRAYSZ, v) f = f\<lparr>fini_array_size := v\<rparr>"
| "saved (DT_OTHER t, v) f = f"

lemma page_down_mono: "x \<le> y \<Longrightarrow> page_down x \<le> page_down y"
  by (simp add: page_down_alt div_le_mono)

lemma page_down_add_page: "page_down (x + PAGE_SIZE) = page_down x + PAGE_SIZE"
  using mod_less_eq_dividend [of x PAGE_SIZE] by (simp add: page_down_def)

lemma region_aligned: "page_aligned (finalizers_region img)" "page_aligned (finalizers_region img + finalizers_region_size img)"
proof -
  have "finalizers_region img \<le> page_down (finalizers_addr img + 24 + PAGE_SIZE)" unfolding finalizers_region_def by (rule page_down_mono) simp
  then have "finalizers_region img + finalizers_region_size img = page_down (finalizers_addr img + 24 + PAGE_SIZE)"
    by (simp add: finalizers_region_size_def)
  then show "page_aligned (finalizers_region img + finalizers_region_size img)" by simp
qed (simp add: finalizers_region_def)

lemma finalizers_in_region:
  assumes "off \<le> 16"
  shows "finalizers_region img \<le> page_down (finalizers_addr img + off)"
    "page_down (finalizers_addr img + off) < finalizers_region img + finalizers_region_size img"
proof -
  show "finalizers_region img \<le> page_down (finalizers_addr img + off)" unfolding finalizers_region_def by (rule page_down_mono) simp
  have "page_down (finalizers_addr img + off) + PAGE_SIZE \<le> page_down (finalizers_addr img + 24 + PAGE_SIZE)"
    unfolding page_down_add_page [symmetric] by (rule page_down_mono) (use assms in simp)
  then show "page_down (finalizers_addr img + off) < finalizers_region img + finalizers_region_size img"
    using PAGE_SIZE_pos unfolding finalizers_region_size_def by linarith
qed

text \<open>The state after the first \<open>k\<close> entries, when the section lies in the page \<open>P\<close>.\<close>
definition rewrite_inv :: "elf_image \<Rightarrow> dyn list \<Rightarrow> nat \<Rightarrow> nat \<Rightarrow> nat option \<times> fini_state \<Rightarrow> bool" where
  "rewrite_inv img E P k s =
    (dynamic (snd s) = map (redirected img) (take k E) @ drop k E \<and> finalizers (snd s) = fold saved (take k E) finalizers_zero \<and>
     \<not> ran_destructors (snd s) \<and>
     (\<forall>p. page_writable (snd s) p \<longleftrightarrow> finalizers_region img \<le> p \<and> p < finalizers_region img + finalizers_region_size img \<or>
        fst s = Some P \<and> P \<le> p \<and> p < P + PAGE_SIZE) \<and>
     (fst s = None \<or> fst s = Some P \<and>
        (P + PAGE_SIZE \<le> finalizers_region img \<or> finalizers_region img + finalizers_region_size img \<le> P)))"

lemma open_entry_inv:
  assumes ok: "\<forall>a l w. ok a l w" and inv: "rewrite_inv img E P k s"
    and P: "page_down (dyn_addr + 16 * k + 8) = P" "dyn_addr + 16 * (k + 1) \<le> P + PAGE_SIZE"
  shows "\<exists>s'. open_entry ok img dyn_addr k s = Inr s' \<and> rewrite_inv img E P k s' \<and> page_writable (snd s') P"
proof -
  obtain b st where s: "s = (b, st)" by (cases s)
  let ?R = "finalizers_region img" and ?S = "finalizers_region img + finalizers_region_size img"
  let ?a = "dyn_addr + 16 * k + 8" and ?n = "dyn_addr + 16 * (k + 1)"
  have aP: "page_aligned P" "P \<le> ?a" using P(1) by auto
  show ?thesis
  proof (cases "?R \<le> ?a \<and> ?n \<le> ?S")
    case True
    have "?R \<le> P" using True aligned_le_page_down [OF region_aligned(1), of img ?a] P(1) by simp
    moreover have "P < ?S" using True aP(2) by simp
    ultimately have "page_writable st P" using inv by (simp add: s rewrite_inv_def)
    then show ?thesis using True inv by (simp add: s open_entry_def Let_def)
  next
    case False
    have out: "P + PAGE_SIZE \<le> ?R \<or> ?S \<le> P"
    proof (cases "?R \<le> ?a")
      case True
      then have "\<not> P + PAGE_SIZE \<le> ?S" using False P(2) by linarith
      then show ?thesis using aligned_less_step [OF aP(1) region_aligned(2), of img] by linarith
    next
      case False
      then show ?thesis using aligned_less_step [OF aP(1) region_aligned(1), of img] aP(2) by linarith
    qed
    have b: "b = None \<or> b = Some P" using inv by (auto simp: s rewrite_inv_def)
    have "\<not> P + PAGE_SIZE \<le> ?a" using P(2) by simp
    then show ?thesis using False b out inv P ok
      by (auto simp: s open_entry_def Let_def fini_mprotect_def rewrite_inv_def)
  qed
qed

lemma update_middle:
  assumes "k < length E"
  shows "(map f (take k E) @ drop k E) ! k = E ! k"
    "(map f (take k E) @ drop k E)[k := f (E ! k)] = map f (take (Suc k) E) @ drop (Suc k) E"
proof -
  have d: "drop k E = E ! k # drop (Suc k) E" using assms by (simp add: Cons_nth_drop_Suc)
  then show "(map f (take k E) @ drop k E) ! k = E ! k" using assms by (simp add: nth_append)
  show "(map f (take k E) @ drop k E)[k := f (E ! k)] = map f (take (Suc k) E) @ drop (Suc k) E"
    using assms by (simp add: d list_update_append take_Suc_conv_app_nth)
qed

lemma redirect_entry_inv:
  assumes inv: "rewrite_inv img E P k (b, st)" and k: "k < length E" and tag: "fst (E ! k) \<in> {DT_FINI, DT_FINI_ARRAY, DT_FINI_ARRAYSZ}"
    and P: "page_down (dyn_addr + 16 * k + 8) = P" "page_writable st P"
  shows "\<exists>st'. redirect_entry img dyn_addr k st = Inr st' \<and> rewrite_inv img E P (Suc k) (b, st')"
proof -
  obtain t v where e: "E ! k = (t, v)" by (cases "E ! k")
  note I = inv [unfolded rewrite_inv_def, simplified]
  have D: "dynamic st = map (redirected img) (take k E) @ drop k E" using I by simp
  have fin: "page_writable st (page_down (finalizers_addr img + off))" if "off \<le> 16" for off
    using finalizers_in_region [OF that, of img] I by simp
  have at: "dynamic st ! k = (t, v)" using update_middle(1) [OF k, of "redirected img"] by (simp add: D e)
  have step: "\<exists>st'. redirect_entry img dyn_addr k st = Inr st' \<and> st' = st\<lparr>dynamic := (dynamic st)[k := redirected img (E ! k)],
      finalizers := saved (E ! k) (finalizers st)\<rparr>"
    using tag P fin [of 0] fin [of 8] fin [of 16]
    by (auto simp: redirect_entry_def at e store_finalizers_def store_dynamic_def split: d_tag.splits)
  have "fold saved (take (Suc k) E) finalizers_zero = saved (E ! k) (finalizers st)"
    using I k by (simp add: take_Suc_conv_app_nth)
  moreover have "(dynamic st)[k := redirected img (E ! k)] = map (redirected img) (take (Suc k) E) @ drop (Suc k) E"
    unfolding D by (rule update_middle(2) [OF k])
  ultimately show ?thesis using step I by (auto simp: rewrite_inv_def)
qed

lemma rewrite_inv_skip:
  assumes inv: "rewrite_inv img E P k s" and k: "k < length E" and tag: "fst (E ! k) \<notin> {DT_FINI, DT_FINI_ARRAY, DT_FINI_ARRAYSZ}"
  shows "rewrite_inv img E P (Suc k) s"
proof -
  obtain t v where e: "E ! k = (DT_OTHER t, v)" using tag by (cases "E ! k"; cases "fst (E ! k)") auto
  have "map (redirected img) (take (Suc k) E) @ drop (Suc k) E = map (redirected img) (take k E) @ drop k E"
    using k e by (simp add: take_Suc_conv_app_nth Cons_nth_drop_Suc [symmetric])
  moreover have "fold saved (take (Suc k) E) finalizers_zero = fold saved (take k E) finalizers_zero"
    using k e by (simp add: take_Suc_conv_app_nth)
  ultimately show ?thesis using inv by (simp add: rewrite_inv_def)
qed

lemma rewrite_entries_inv:
  assumes ok: "\<forall>a l w. ok a l w" and P: "page_down dyn_addr = P" "dyn_addr + 16 * length E \<le> P + PAGE_SIZE"
  shows "k \<le> length E \<Longrightarrow> rewrite_inv img E P k s \<Longrightarrow>
    \<exists>s'. rewrite_entries ok img dyn_addr [k..<length E] s = Inr s' \<and> rewrite_inv img E P (length E) s'"
proof (induction "length E - k" arbitrary: k s)
  case (Suc m)
  then have k: "k < length E" and m: "m = length E - Suc k" by simp_all
  have "16 * (k + 1) \<le> 16 * length E" using k by simp
  then have next_le: "dyn_addr + 16 * (k + 1) \<le> P + PAGE_SIZE" using P(2) by linarith
  have page: "page_down (dyn_addr + 16 * k + 8) = P"
  proof -
    have "P \<le> dyn_addr" using P(1) page_down_le [of dyn_addr] by simp
    then have "P \<le> dyn_addr + 16 * k + 8" by linarith
    moreover have "dyn_addr + 16 * k + 8 < P + PAGE_SIZE" using next_le by simp
    moreover have "P = PAGE_SIZE * (dyn_addr div PAGE_SIZE)" using P(1) by (simp add: page_down_alt)
    ultimately show ?thesis by (simp add: page_down_alt div_nat_eqI)
  qed
  have upt: "[k..<length E] = k # [Suc k..<length E]" using k by (simp add: upt_conv_Cons)
  have at: "dynamic (snd s) ! k = E ! k" using Suc.prems(2) update_middle(1) [OF k] by (simp add: rewrite_inv_def)
  show ?case
  proof (cases "fst (E ! k) \<in> {DT_FINI, DT_FINI_ARRAY, DT_FINI_ARRAYSZ}")
    case True
    from open_entry_inv [OF ok Suc.prems(2) page next_le] obtain b st where
      o: "open_entry ok img dyn_addr k s = Inr (b, st)" "rewrite_inv img E P k (b, st)" "page_writable st P" by auto
    from redirect_entry_inv [OF o(2) k True page o(3)] obtain st' where
      r: "redirect_entry img dyn_addr k st = Inr st'" "rewrite_inv img E P (Suc k) (b, st')" by blast
    from Suc.hyps(1) [OF m _ r(2)] obtain s' where
      "rewrite_entries ok img dyn_addr [Suc k..<length E] (b, st') = Inr s'" "rewrite_inv img E P (length E) s'" using k by auto
    then show ?thesis using True unfolding upt by (simp add: at o(1) r(1))
  next
    case False
    from Suc.hyps(1) [OF m _ rewrite_inv_skip [OF Suc.prems(2) k False]] k
    obtain s' where "rewrite_entries ok img dyn_addr [Suc k..<length E] s = Inr s'" "rewrite_inv img E P (length E) s'" by auto
    then show ?thesis using False unfolding upt by (simp add: at)
  qed
qed simp

section \<open>At the exit of the program\<close>

text \<open>
  The functions the dynamic linker calls for an object: the array in reverse order, its
  size in bytes, then the single function.
\<close>
definition dl_fini :: "(nat \<Rightarrow> nat \<Rightarrow> nat) \<Rightarrow> dyn list \<Rightarrow> nat list" where
  "dl_fini array dyn =
    (case (map_of dyn DT_FINI_ARRAY, map_of dyn DT_FINI_ARRAYSZ) of
       (Some off, Some bytes) \<Rightarrow> map (array off) (rev [0..<bytes div 8])
     | _ \<Rightarrow> []) @ (case map_of dyn DT_FINI of Some f \<Rightarrow> [f] | None \<Rightarrow> [])"

lemma map_of_redirected:
  "map_of (map (redirected img) E) DT_FINI = map_option (\<lambda>_. usize_sub (wrap_destructor_addr img) (ehdr_start img)) (map_of E DT_FINI)"
  "map_of (map (redirected img) E) DT_FINI_ARRAYSZ = map_option (\<lambda>_. 1) (map_of E DT_FINI_ARRAYSZ)"
proof -
  have "map_of (map (redirected img) (e # E)) t = (if t = fst e then Some (snd (redirected img e)) else map_of (map (redirected img) E) t)" for e E t
    by (cases e; cases "fst e") auto
  then show "map_of (map (redirected img) E) DT_FINI = map_option (\<lambda>_. usize_sub (wrap_destructor_addr img) (ehdr_start img)) (map_of E DT_FINI)"
    "map_of (map (redirected img) E) DT_FINI_ARRAYSZ = map_option (\<lambda>_. 1) (map_of E DT_FINI_ARRAYSZ)"
    by (induction E) (auto simp del: list.map(2))
qed

text \<open>Each of the three tags occurs at most once.\<close>
definition tags_unique :: "dyn list \<Rightarrow> bool" where
  "tags_unique E = distinct (map fst (filter (\<lambda>e. fst e \<in> {DT_FINI, DT_FINI_ARRAY, DT_FINI_ARRAYSZ}) E))"

definition or_else :: "nat \<Rightarrow> nat option \<Rightarrow> nat" where
  "or_else d v = (case v of Some x \<Rightarrow> x | None \<Rightarrow> d)"

lemma fold_saved:
  "tags_unique E \<Longrightarrow> fold saved E f =
    \<lparr>fini_offset = or_else (fini_offset f) (map_of E DT_FINI), fini_array_offset = or_else (fini_array_offset f) (map_of E DT_FINI_ARRAY),
     fini_array_size = or_else (fini_array_size f) (map_of E DT_FINI_ARRAYSZ)\<rparr>"
proof (induction E arbitrary: f)
  case (Cons e E)
  obtain t v where e: "e = (t, v)" by (cases e)
  have none: "t \<in> {DT_FINI, DT_FINI_ARRAY, DT_FINI_ARRAYSZ} \<Longrightarrow> map_of E t = None"
    using Cons.prems by (force simp: tags_unique_def e map_of_eq_None_iff image_iff)
  have "tags_unique E" using Cons.prems by (auto simp: tags_unique_def split: if_splits)
  then show ?case using Cons.IH none by (cases t) (auto simp: e or_else_def split: option.splits)
qed (simp add: or_else_def)

lemma setup_runs:
  assumes ok: "\<forall>a l w. ok a l w" and hdr: "e_phentsize img = 56" "List.find fst (program_headers img) = Some (True, vaddr, 16 * length (dynamic st))"
    and page: "ehdr_start img + vaddr + 16 * length (dynamic st) \<le> page_down (ehdr_start img + vaddr) + PAGE_SIZE"
    and st: "page_writable st = (\<lambda>_. False)" "finalizers st = finalizers_zero" "\<not> ran_destructors st"
  shows "\<exists>st'. ia2_setup_destructors ok img st = Inr st' \<and> dynamic st' = map (redirected img) (dynamic st) \<and>
    finalizers st' = fold saved (dynamic st) finalizers_zero \<and> \<not> ran_destructors st' \<and> page_writable st' = (\<lambda>_. False)"
proof -
  let ?d = "ehdr_start img + vaddr" and ?E = "dynamic st"
  define st1 where "st1 = st\<lparr>page_writable := \<lambda>p. if finalizers_region img \<le> p \<and> p < finalizers_region img + finalizers_region_size img
      then True else page_writable st p\<rparr>"
  have st1: "fini_mprotect ok (finalizers_region img) (finalizers_region_size img) True st = Inr st1" using ok by (simp add: fini_mprotect_def st1_def)
  have "rewrite_inv img ?E (page_down ?d) 0 (None, st1)" using st by (simp add: rewrite_inv_def st1_def)
  from rewrite_entries_inv [OF ok refl page _ this] obtain b st2 where
    r: "rewrite_entries ok img ?d [0..<length ?E] (None, st1) = Inr (b, st2)" "rewrite_inv img ?E (page_down ?d) (length ?E) (b, st2)" by auto
  note I = r(2) [unfolded rewrite_inv_def, simplified]
  define st3 where "st3 = (case b of None \<Rightarrow> st2 | Some p0 \<Rightarrow>
      st2\<lparr>page_writable := \<lambda>p. if p0 \<le> p \<and> p < p0 + PAGE_SIZE then False else page_writable st2 p\<rparr>)"
  have st3: "(case b of None \<Rightarrow> Inr st2 | Some p0 \<Rightarrow> fini_mprotect ok p0 PAGE_SIZE False st2) = Inr st3"
    using ok by (simp add: fini_mprotect_def st3_def split: option.splits)
  have same: "dynamic st3 = dynamic st2" "finalizers st3 = finalizers st2" "ran_destructors st3 = ran_destructors st2"
    by (simp_all add: st3_def split: option.splits)
  have wr: "\<not> page_writable st3 p" if "\<not> (finalizers_region img \<le> p \<and> p < finalizers_region img + finalizers_region_size img)" for p
    using I that by (auto simp: st3_def split: option.splits)
  define st4 where "st4 = st3\<lparr>page_writable := \<lambda>p. if finalizers_region img \<le> p \<and> p < finalizers_region img + finalizers_region_size img
      then False else page_writable st3 p\<rparr>"
  have st4: "fini_mprotect ok (finalizers_region img) (finalizers_region_size img) False st3 = Inr st4" using ok by (simp add: fini_mprotect_def st4_def)
  have "ia2_setup_destructors ok img st = Inr st4"
    using hdr by (simp add: ia2_setup_destructors_def Let_def st1 r(1) st3 st4)
  moreover have "page_writable st4 = (\<lambda>_. False)" using wr by (auto simp: st4_def fun_eq_iff)
  ultimately show ?thesis using I same by (auto simp: st4_def)
qed


definition sample_image :: "nat \<Rightarrow> elf_image" where
  "sample_image vaddr = \<lparr>ehdr_start = 0x400000, e_phentsize = 56, program_headers = [(False, 0, 0x1000), (True, vaddr, 64)],
     finalizers_addr = 0x405020, wrap_destructor_addr = 0x500000, destructor_ptr_addr = 0x405000\<rparr>"

definition sample_fini :: "dyn list \<Rightarrow> fini_state" where
  "sample_fini E = \<lparr>dynamic = E, finalizers = finalizers_zero, page_writable = (\<lambda>_. False), ran_destructors = False\<rparr>"

definition sample_dynamic :: "dyn list" where
  "sample_dynamic = [(DT_FINI, 0x1200), (DT_OTHER 1, 5), (DT_FINI_ARRAY, 0x2df0), (DT_FINI_ARRAYSZ, 16)]"


text \<open>
  When the entries lie in two pages, the test whether an entry is in the page that is
  open is the wrong way round: the second page stays read-only and the store faults.
\<close>
lemma second_page_faults:
  "ia2_setup_destructors (\<lambda>_ _ _. True) (sample_image 0x2fe0) (sample_fini sample_dynamic) = Inl Fini_fault"
proof -
  have "[0..<64 div 16] = [0, 1, 2, 3::nat]" by (simp add: upt_rec)
  then show ?thesis
    by (simp add: ia2_setup_destructors_def sample_image_def sample_fini_def sample_dynamic_def fini_mprotect_def finalizers_region_def
        finalizers_region_size_def page_down_def PAGE_SIZE_def open_entry_def redirect_entry_def store_finalizers_def store_dynamic_def Let_def)
qed

end
