(* ===== verification/Permissive_Log.thy ===== *)
theory Permissive_Log
  imports Permissive_Mode Maps_Log Protect_Pages Machine_Laws
begin

text \<open>
  The rest of permissive mode (\<open>permissive_mode.h\<close>): the assembler trampoline in front
  of the signal handler, the thread that writes the log, the text of a log line, and the
  search for the symbol of an address.  What the dynamic linker says about an address,
  and the symbol table read from a file, are arguments.
\<close>

section \<open>The trampoline\<close>

definition permissive_mode_trampoline :: "instr list" where
  "permissive_mode_trampoline =
    [Movq ''rcx'' ''r10'', Movq ''rdx'' ''r11'', Movq ''rax'' ''r12'', Xorl ''rcx'', Xorl ''rdx'', Xorl ''rax'', Wrpkru,
     Movq ''r10'' ''rcx'', Movq ''r11'' ''rdx'', Movq ''r12'' ''rax'', Jmp ''permissive_mode_handler'']"

text \<open>The handler starts with access to all memory and with the registers of the interrupted code, apart from three scratch registers.\<close>
lemma trampoline_enters_handler:
  "exec E permissive_mode_trampoline s =
   callee E ''permissive_mode_handler''
     (s\<lparr>pkru := 0, gpr := (gpr s)(''r10'' := gpr s ''rcx'', ''r11'' := gpr s ''rdx'', ''r12'' := gpr s ''rax'')\<rparr>)"
proof -
  have "exec E (take 10 permissive_mode_trampoline) s =
      Some (s\<lparr>pkru := 0, gpr := (gpr s)(''r10'' := gpr s ''rcx'', ''r11'' := gpr s ''rdx'', ''r12'' := gpr s ''rax'')\<rparr>)"
    by (auto simp: permissive_mode_trampoline_def set_reg_def fun_eq_iff intro!: machine.equality)
  note pre = this
  have jmp: "exec E [Jmp f] s' = callee E f s'" for f s' by (cases "callee E f s'") simp_all
  have "permissive_mode_trampoline = take 10 permissive_mode_trampoline @ [Jmp ''permissive_mode_handler'']"
    by (simp add: permissive_mode_trampoline_def)
  then have "exec E permissive_mode_trampoline s = exec E (take 10 permissive_mode_trampoline @ [Jmp ''permissive_mode_handler'']) s" by simp
  also have "\<dots> = callee E ''permissive_mode_handler''
      (s\<lparr>pkru := 0, gpr := (gpr s)(''r10'' := gpr s ''rcx'', ''r11'' := gpr s ''rdx'', ''r12'' := gpr s ''rax'')\<rparr>)"
    by (simp only: exec_append pre bind.bind_lunit jmp)
  finally show ?thesis .
qed

section \<open>Symbols of an address\<close>

record Dl_info =
  dli_fname :: string
  dli_fbase :: nat
  dli_sname :: "string option"
  dli_saddr :: nat

record elf_sym =
  st_name :: string
  st_value :: nat

text \<open>The files that were opened before, the last one first.\<close>
record opened_file =
  f_path :: string
  f_symtab :: "elf_sym list"

text \<open>The search for an opened file, with the step of the loop as the code has it; \<^term>\<open>None\<close> is an endless loop.\<close>
partial_function (option) find_opened :: "opened_file list \<Rightarrow> string \<Rightarrow> opened_file option \<Rightarrow> opened_file option option" where
  "find_opened files path fp =
    (case fp of
       None \<Rightarrow> Some None
     | Some f \<Rightarrow>
         if path = f_path f then Some (Some f)
         else find_opened files path (case files of _ # f_next # _ \<Rightarrow> Some f_next | _ \<Rightarrow> None))"

definition better_symbol :: "nat \<Rightarrow> elf_sym \<Rightarrow> elf_sym option \<Rightarrow> elf_sym option" where
  "better_symbol off sy best =
    (if st_name sy = [] then best
     else if st_value sy \<le> off \<and> (best = None \<or> st_value (the best) < st_value sy) then Some sy else best)"

definition best_symbol :: "nat \<Rightarrow> elf_sym list \<Rightarrow> elf_sym option" where
  "best_symbol off syms = fold (better_symbol off) syms None"

text \<open>
  The whole function: the inner option is the result 0.  A file that cannot be read
  stays in the list without symbols.
\<close>
definition elfaddr ::
  "(nat \<Rightarrow> Dl_info option) \<Rightarrow> (string \<Rightarrow> elf_sym list option) \<Rightarrow> nat \<Rightarrow> opened_file list \<Rightarrow> (Dl_info option \<times> opened_file list) option" where
  "elfaddr dladdr read_symtab a files =
    (case dladdr a of
       None \<Rightarrow> Some (None, files)
     | Some info \<Rightarrow>
         (let path = dli_fname info;
              use = (\<lambda>f files'.
                case best_symbol (usize_sub a (dli_fbase info)) (f_symtab f) of
                  None \<Rightarrow> Some (None, files')
                | Some best \<Rightarrow> Some (Some (info\<lparr>dli_sname := Some (st_name best), dli_saddr := usize_add (dli_fbase info) (st_value best)\<rparr>), files'))
          in case find_opened files path (case files of [] \<Rightarrow> None | f # _ \<Rightarrow> Some f) of
               None \<Rightarrow> None
             | Some (Some f) \<Rightarrow> use f files
             | Some None \<Rightarrow>
                 (case read_symtab path of
                    None \<Rightarrow> Some (None, \<lparr>f_path = path, f_symtab = []\<rparr> # files)
                  | Some syms \<Rightarrow> use \<lparr>f_path = path, f_symtab = syms\<rparr> (\<lparr>f_path = path, f_symtab = syms\<rparr> # files))))"

text \<open>The symbol is the one with the greatest value at or below the address.\<close>
lemma fold_better_symbol:
  assumes "\<forall>b. best = Some b \<longrightarrow> st_name b \<noteq> [] \<and> st_value b \<le> off"
  shows "case fold (better_symbol off) syms best of
      None \<Rightarrow> best = None \<and> (\<forall>s \<in> set syms. st_name s \<noteq> [] \<longrightarrow> off < st_value s)
    | Some b \<Rightarrow> (b \<in> set syms \<or> best = Some b) \<and> st_name b \<noteq> [] \<and> st_value b \<le> off \<and>
        (\<forall>s \<in> set syms \<union> set_option best. st_name s \<noteq> [] \<and> st_value s \<le> off \<longrightarrow> st_value s \<le> st_value b)"
  using assms
proof (induction syms arbitrary: best)
  case Nil
  then show ?case by (cases best) auto
next
  case (Cons s syms)
  consider (keep) "st_name s = [] \<or> off < st_value s \<or> (\<exists>b. best = Some b \<and> st_value s \<le> st_value b)"
    | (take) "st_name s \<noteq> []" "st_value s \<le> off" "\<forall>b. best = Some b \<longrightarrow> st_value b < st_value s"
    by (meson not_le)
  then show ?case
  proof cases
    case keep
    then have "better_symbol off s best = best" by (auto simp: better_symbol_def)
    then show ?thesis using Cons.IH [OF Cons.prems] Cons.prems keep by (auto split: option.splits)
  next
    case take
    then have b: "better_symbol off s best = Some s" by (cases best) (auto simp: better_symbol_def)
    have "\<forall>b. Some s = Some b \<longrightarrow> st_name b \<noteq> [] \<and> st_value b \<le> off" using take by simp
    from Cons.IH [OF this] take show ?thesis by (fastforce simp: b split: option.splits)
  qed
qed

lemma find_opened_spins:
  assumes "find_opened (f # g # files) path fp = Some r" "fp = Some f \<or> fp = Some g" "path \<noteq> f_path f" "path \<noteq> f_path g"
  shows False
proof -
  have "\<not> (files' = f # g # files \<and> path' = path \<and> (fp' = Some f \<or> fp' = Some g))" if "find_opened files' path' fp' = Some r'" for files' path' fp' r'
    using that by (rule find_opened.raw_induct [rotated]) (use assms(3,4) in \<open>auto split: option.splits if_splits list.splits\<close>)
  then show False using assms(1,2) by blast
qed

text \<open>With two files opened, the search for a third one never ends.\<close>
lemma elfaddr_hangs:
  assumes "dladdr a = Some info" "dli_fname info \<noteq> f_path f" "dli_fname info \<noteq> f_path g"
  shows "elfaddr dladdr read_symtab a (f # g # files) = None"
proof -
  have "find_opened (f # g # files) (dli_fname info) (Some f) = None"
    using find_opened_spins [OF _ _ assms(2,3)] by (cases "find_opened (f # g # files) (dli_fname info) (Some f)") auto
  then show ?thesis by (simp add: elfaddr_def assms(1) Let_def)
qed

section \<open>The log\<close>

text \<open>\<open>%p\<close> of the GNU C library.\<close>
definition print_pointer :: "nat \<Rightarrow> string" where
  "print_pointer p = (if p = 0 then ''(nil)'' else ''0x'' @ digits 16 p)"

definition print_address :: "(nat \<Rightarrow> Dl_info option) \<Rightarrow> string \<Rightarrow> nat \<Rightarrow> string" where
  "print_address dladdr identifier a =
    (case dladdr a of
       None \<Rightarrow> identifier @ '': '' @ print_pointer a @ '', ''
     | Some info \<Rightarrow>
         (case dli_sname info of
            Some sname \<Rightarrow> identifier @ '': '' @ basename (dli_fname info) @ '':'' @ sname @ ''+0x'' @ digits 16 (usize_sub a (dli_saddr info)) @
              '' ['' @ print_pointer a @ ''] ''
          | None \<Rightarrow> identifier @ '': '' @ basename (dli_fname info) @ ''+0x'' @ digits 16 (usize_sub a (dli_fbase info)) @
              '' ['' @ print_pointer a @ ''], ''))"

text \<open>The text written for one entry of the queue.\<close>
definition log_entry :: "(nat \<Rightarrow> Dl_info option) \<Rightarrow> mpk_err \<Rightarrow> string" where
  "log_entry dladdr err =
    print_address dladdr ''addr'' (unat (err_addr err)) @ print_address dladdr ''val'' (unat (err_val err)) @
    print_address dladdr ''pc'' (unat (err_pc err)) @ print_address dladdr ''sp'' (unat (err_sp err)) @
    print_address dladdr ''fp'' (unat (err_fp err)) @ ''pkru: '' @ digits 16 (unat (err_pkru err)) @ [CHR 0x0A]"

record log_state =
  log_queue :: queue
  log_text :: string
  log_closed :: bool

definition flush_to_log :: "(nat \<Rightarrow> Dl_info option) \<Rightarrow> log_state \<Rightarrow> log_state option" where
  "flush_to_log dladdr L =
    (case flush_queue (log_queue L) of
       None \<Rightarrow> None
     | Some (es, q) \<Rightarrow> Some (L\<lparr>log_queue := q, log_text := log_text L @ concat (map (log_entry dladdr) es)\<rparr>))"

text \<open>One round of the logging thread; violations may be pushed by a handler between the two flushes.\<close>
definition log_round :: "(nat \<Rightarrow> Dl_info option) \<Rightarrow> bool \<Rightarrow> (queue \<Rightarrow> queue) \<Rightarrow> log_state \<Rightarrow> log_state option" where
  "log_round dladdr exiting between L =
    Option.bind (flush_to_log dladdr L) (\<lambda>L1.
      if exiting then
        map_option (\<lambda>L2. L2\<lparr>log_closed := True\<rparr>) (flush_to_log dladdr (L1\<lparr>log_queue := between (log_queue L1)\<rparr>))
      else Some L1)"

lemma flush_queue_returns:
  assumes "queue_wf q" "push q < QUEUE_SIZE" "\<not> locked q"
  shows "\<exists>q'. flush_queue q = Some (contents q, q') \<and> contents q' = [] \<and> queue_wf q' \<and> push q' = push q \<and> \<not> locked q'"
proof -
  let ?q = "q\<lparr>locked := True\<rparr>"
  have c: "contents (q\<lparr>locked := b\<rparr>) = contents q" "queue_wf (q\<lparr>locked := b\<rparr>) = queue_wf q" for q b
    by (simp_all add: contents_def queue_wf_def Let_def)
  obtain q' where q': "drain ?q = Some (contents ?q, q')" "contents q' = []" "queue_wf q'" "push q' = push ?q"
    using drain_returns [of ?q] assms(1,2) c by auto
  then have "flush_queue q = Some (contents q, release_queue q')" using assms(3) by (simp add: flush_queue_def get_queue_def c)
  then show ?thesis using q' by (intro exI [of _ "release_queue q'"]) (simp add: release_queue_def c)
qed

text \<open>
  C36. When the logging thread gets through.  On every unlocked queue with indices in
  range, emptying the queue returns if and only if the write index is not at the end of
  the array; when it returns, it has delivered exactly the contents in order, the queue
  is empty and the lock is free.
\<close>
theorem flush_returns_iff:
  assumes "queue_wf q" "\<not> locked q"
  shows "((\<exists>r. flush_queue q = Some r) \<longleftrightarrow> push q < QUEUE_SIZE) \<and>
    (\<forall>es q'. flush_queue q = Some (es, q') \<longrightarrow> es = contents q \<and> contents q' = [] \<and> \<not> locked q')"
proof (cases "push q < QUEUE_SIZE")
  case True
  then show ?thesis using flush_queue_returns [OF assms(1) True assms(2)] by auto
next
  case False
  then have "push (q\<lparr>locked := True\<rparr>) = QUEUE_SIZE" "pop (q\<lparr>locked := True\<rparr>) \<le> QUEUE_SIZE" using assms(1) by (simp_all add: queue_wf_def)
  then have "drain (q\<lparr>locked := True\<rparr>) = None" using drain_spins [of "q\<lparr>locked := True\<rparr>"] by (cases "drain (q\<lparr>locked := True\<rparr>)") auto
  then have "flush_queue q = None" using assms(2) by (simp add: flush_queue_def get_queue_def)
  then show ?thesis using False by simp
qed

theorem flush_returns_iff_witness:
  "\<exists>q. push q = 2 \<and> (\<exists>r. flush_queue q = Some r)"
proof -
  let ?q = "\<lparr>locked = False, push = 2, pop = 1, data = \<lambda>_. \<lparr>err_addr = 1, err_val = 2, err_pc = 3, err_sp = 4, err_fp = 5, err_pkru = 6, local_addr = 7\<rparr>\<rparr>"
  have "queue_wf ?q" "\<not> locked ?q" "push ?q < QUEUE_SIZE" by (simp_all add: queue_wf_def QUEUE_SIZE_def)
  then show ?thesis using flush_returns_iff [of ?q] by (intro exI [of _ ?q]) simp
qed

lemma flush_to_log_text:
  assumes "queue_wf (log_queue L)" "push (log_queue L) < QUEUE_SIZE" "\<not> locked (log_queue L)"
  shows "\<exists>q. flush_to_log dladdr L =
      Some (L\<lparr>log_queue := q, log_text := log_text L @ concat (map (log_entry dladdr) (contents (log_queue L)))\<rparr>) \<and>
    contents q = [] \<and> queue_wf q \<and> push q = push (log_queue L) \<and> \<not> locked q"
  using flush_queue_returns [OF assms] by (auto simp: flush_to_log_def)

text \<open>
  The last round writes everything that is in the queue, in order, even what the
  handler adds while the thread notices the exit, provided the write index stays below
  the end of the array.
\<close>
lemma last_round_logs_everything:
  assumes L: "queue_wf (log_queue L)" "push (log_queue L) < QUEUE_SIZE" "\<not> locked (log_queue L)"
    and new: "\<And>q. contents q = [] \<Longrightarrow> queue_wf q \<Longrightarrow> \<not> locked q \<Longrightarrow>
      contents (between q) = es \<and> queue_wf (between q) \<and> push (between q) < QUEUE_SIZE \<and> \<not> locked (between q)"
  shows "\<exists>L'. log_round dladdr True between L = Some L' \<and> log_closed L' \<and> contents (log_queue L') = [] \<and>
    log_text L' = log_text L @ concat (map (log_entry dladdr) (contents (log_queue L) @ es))"
proof -
  obtain q where q: "flush_to_log dladdr L =
      Some (L\<lparr>log_queue := q, log_text := log_text L @ concat (map (log_entry dladdr) (contents (log_queue L)))\<rparr>)"
    "contents q = []" "queue_wf q" "\<not> locked q"
    using flush_to_log_text [OF L] by blast
  define L0 where "L0 = L\<lparr>log_queue := q, log_text := log_text L @ concat (map (log_entry dladdr) (contents (log_queue L)))\<rparr>"
  define L1 where "L1 = L0\<lparr>log_queue := between (log_queue L0)\<rparr>"
  have L1: "queue_wf (log_queue L1)" "push (log_queue L1) < QUEUE_SIZE" "\<not> locked (log_queue L1)" "contents (log_queue L1) = es"
    "log_text L1 = log_text L @ concat (map (log_entry dladdr) (contents (log_queue L)))"
    using new [OF q(2-4)] by (simp_all add: L1_def L0_def)
  have "log_round dladdr True between L = map_option (\<lambda>L2. L2\<lparr>log_closed := True\<rparr>) (flush_to_log dladdr L1)"
    by (simp add: log_round_def q(1) [folded L0_def] L1_def)
  then show ?thesis using flush_to_log_text [OF L1(1-3), of dladdr] L1(4,5) by auto
qed

end
