(* ===== verification/Thread_Start.thy ===== *)
theory Thread_Start
  imports Runtime_Gates Maps_Log
begin

text \<open>
  The start of a thread and the entry of a signal handler: the assembler that gives a
  new thread its stack in each compartment (\<open>ia2_internal.h\<close>), the wrapper of
  \<open>pthread_create\<close> and the function a new thread begins with (\<open>threads.c\<close>), and the
  stub in front of a signal handler.
\<close>

section \<open>The stack of a compartment\<close>

text \<open>The two assembler blocks around the call of \<open>allocate_stack\<close>, which leaves its result in \<open>rax\<close>.\<close>
definition setup_tls_enter :: "nat \<Rightarrow> instr list" where
  "setup_tls_enter i = [Xorl ''rcx'', Xorl ''rdx'', Movl_imm (PKRU i) ''rax'', Wrpkru]"

definition init_tls_name :: "nat \<Rightarrow> string" where
  "init_tls_name i = ''init_tls_'' @ digits 10 i"

definition setup_tls_switch :: "nat \<Rightarrow> instr list" where
  "setup_tls_switch i =
    [Movq ''rax'' ''r10'', Store 8 ''rsp'' 0 ''r10'', Movq ''r10'' ''rsp'', Subq 8 ''rsp'', Call (init_tls_name i), Addq 8 ''rsp'',
     Movq ''rsp'' ''r10'', Load 8 0 ''r10'' ''rsp'', Mov_gottpoff i ''r11'', Cmpq_fs_zero ''r11'', Movq_to_fs ''r10'' ''r11'']"

definition setup_stack_and_tls :: "(nat \<Rightarrow> machine \<Rightarrow> machine option) \<Rightarrow> machine_env \<Rightarrow> nat \<Rightarrow> machine \<Rightarrow> machine option" where
  "setup_stack_and_tls alloc E i s =
    do { s1 \<leftarrow> exec E (setup_tls_enter i) s; s2 \<leftarrow> alloc i s1; exec E (setup_tls_switch i) s2 }"

section \<open>Signal handlers\<close>

definition ia2_sighandler :: "string \<Rightarrow> nat \<Rightarrow> instr list" where
  "ia2_sighandler f pk =
    [Label (''ia2_sighandler_'' @ f), Movq ''rcx'' ''r10'', Movq ''rdx'' ''r11'', Movq ''rax'' ''r12'', Xorl ''rcx'', Xorl ''rdx'',
     Movl_imm (PKRU pk) ''rax'', Wrpkru, Movq ''r12'' ''rax'', Movq ''r11'' ''rdx'', Movq ''r10'' ''rcx'', Jmp f]"

section \<open>Creating a thread\<close>

record thread_thunk =
  thunk_fn :: u64
  thunk_data :: u64

text \<open>What creating and starting a thread does to memory and to the thread, in order.\<close>
datatype thread_event =
    Mmap_thunk nat thread_thunk
  | Real_pthread_create string nat
  | Munmap_thunk nat nat
  | Record_start_fn u64
  | Init_stacks
  | Switch_and_call nat u64 u64 \<comment> \<open>the compartment whose stack is used, the function and its argument\<close>

text \<open>\<open>mmap\<close> gives the address of the thunk or fails, \<open>real\<close> is the result of the wrapped function.\<close>
definition wrap_pthread_create :: "nat option \<Rightarrow> int \<Rightarrow> u64 \<Rightarrow> u64 \<Rightarrow> int \<times> thread_event list" where
  "wrap_pthread_create mmap_res real fn data =
    (case mmap_res of
       None \<Rightarrow> (-1, [])
     | Some a \<Rightarrow> (real, [Mmap_thunk a \<lparr>thunk_fn = fn, thunk_data = data\<rparr>, Real_pthread_create ''ia2_thread_begin'' a]))"

definition ia2_thread_begin :: "bool \<Rightarrow> (nat \<Rightarrow> thread_thunk) \<Rightarrow> nat \<Rightarrow> nat \<Rightarrow> thread_event list" where
  "ia2_thread_begin debug_memory thunks tag arg =
    (let thunk = thunks arg in
     [Munmap_thunk arg 16] @ (if debug_memory then [Record_start_fn (thunk_fn thunk)] else []) @
     [Init_stacks, Switch_and_call tag (thunk_fn thunk) (thunk_data thunk)])"

section \<open>Laws\<close>

lemma setup_tls_enter_runs:
  "exec E (setup_tls_enter i) s =
   Some (s\<lparr>gpr := (gpr s)(''rcx'' := 0, ''rdx'' := 0, ''rax'' := ucast (PKRU i)), pkru := PKRU i\<rparr>)"
  by (simp add: setup_tls_enter_def set_reg_def)

lemma init_tls_not_scrub: "init_tls_name i \<noteq> ''__libia2_scrub_registers''"
  by (simp add: init_tls_name_def)

text \<open>What the runtime relies on about \<open>init_tls\<close>: it returns, with its stack pointer, the rights, the word above its frame and the slot unchanged.\<close>
definition init_tls_returns :: "machine_env \<Rightarrow> nat \<Rightarrow> u64 \<Rightarrow> bool" where
  "init_tls_returns E i T =
    (\<forall>u. pkru u = PKRU i \<longrightarrow> (\<exists>u'. callee E (init_tls_name i) u = Some u' \<and> gpr u' ''rsp'' = gpr u ''rsp'' + 8 \<and> pkru u' = PKRU i \<and>
      (\<forall>a. uint T \<le> a \<and> a < uint T + 8 \<or> slot E i \<le> a \<and> a < slot E i + 8 \<longrightarrow> mem u' a = mem u a)))"

lemma setup_tls_switch_runs:
  assumes pk: "pkru s = PKRU i" and rax: "gpr s ''rax'' = T" and stack: "accessible E (PKRU i) (uint T - 16) (uint T + 8)" "16 \<le> uint T"
    and tls: "accessible E (PKRU i) (slot E i) (slot E i + 8)" and apart: "slot E i + 8 \<le> uint T - 16 \<or> uint T + 8 \<le> slot E i"
    and init: "init_tls_returns E i T"
  shows "if read_bytes (mem s) (slot E i) 8 = 0
    then \<exists>t. exec E (setup_tls_switch i) s = Some t \<and> gpr t ''rsp'' = gpr s ''rsp'' \<and> pkru t = PKRU i \<and>
      read_bytes (mem t) (slot E i) 8 = unat T
    else exec E (setup_tls_switch i) s = None"
proof -
  let ?sp = "gpr s ''rsp''"
  have u: "uint (T - 8) = uint T - 8" "uint (T - 16) = uint T - 16" using stack(2) by (simp_all add: uint_minus_8 uint_minus_16)
  define m1 where "m1 = write_bytes (mem s) (uint T) 8 (unat ?sp)"
  define a1 where "a1 = s\<lparr>gpr := (gpr s)(''r10'' := T, ''rsp'' := T - 8), mem := m1\<rparr>"
  have "unat ?sp < 2 ^ LENGTH(64)" by (rule unsigned_less)
  then have sp: "unat ?sp mod 18446744073709551616 = unat ?sp" by simp
  have st: "store E (uint T) 8 (unat ?sp mod 18446744073709551616) v = Some (v\<lparr>mem := write_bytes (mem v) (uint T) 8 (unat ?sp)\<rparr>)" if "pkru v = PKRU i" for v
    using store_accessible [of E v "uint T - 16" "uint T + 8" "uint T" 8 "unat ?sp"] stack(1) that unfolding sp by simp
  have p1: "exec E [Movq ''rax'' ''r10'', Store 8 ''rsp'' 0 ''r10'', Movq ''r10'' ''rsp'', Subq 8 ''rsp''] s = Some a1"
    by (simp add: set_reg_def addr_def rax pk st a1_def m1_def)
  define c where "c = a1\<lparr>gpr := (gpr a1)(''rsp'' := T - 16), mem := write_bytes m1 (uint T - 16) 8 (unat (ret_addr E))\<rparr>"
  have p2: "exec E [Call (init_tls_name i)] a1 = callee E (init_tls_name i) c"
    using exec_push64 [of E a1 "uint T - 16" "uint T + 8" "ret_addr E"] stack pk init_tls_not_scrub [of i] unfolding exec_single
    by (simp add: a1_def c_def u)
  have cp: "pkru c = PKRU i" "gpr c ''rsp'' = T - 16" using pk by (simp_all add: c_def a1_def)
  obtain d where d: "callee E (init_tls_name i) c = Some d" "gpr d ''rsp'' = T - 8" "pkru d = PKRU i"
    and keep: "\<forall>a. uint T \<le> a \<and> a < uint T + 8 \<or> slot E i \<le> a \<and> a < slot E i + 8 \<longrightarrow> mem d a = mem c a"
    using init [unfolded init_tls_returns_def, rule_format, OF cp(1)] by (auto simp: cp(2))
  have rd: "read_bytes (mem d) (uint T) 8 = unat ?sp"
    using keep by (subst read_bytes_cong [of _ 8 "mem d" "mem c"]) (simp_all add: c_def m1_def read_write_outside)
  have rs: "read_bytes (mem d) (slot E i) 8 = read_bytes (mem s) (slot E i) 8"
    using keep apart by (subst read_bytes_cong [of _ 8 "mem d" "mem c"]) (auto simp: c_def m1_def read_write_outside)
  define e where "e = d\<lparr>gpr := (gpr d)(''r10'' := T, ''rsp'' := ?sp, ''r11'' := tpoff E i)\<rparr>"
  have ld: "load E v (uint T) 8 = Some (unat ?sp)" if "pkru v = PKRU i" "mem v = mem d" for v
    using load_accessible [of E v "uint T - 16" "uint T + 8" "uint T" 8] stack(1) that rd by simp
  have p3: "exec E [Addq 8 ''rsp'', Movq ''rsp'' ''r10'', Load 8 0 ''r10'' ''rsp'', Mov_gottpoff i ''r11''] d = Some e"
    by (simp add: set_reg_def addr_def d ld e_def fun_eq_iff)
  have lz: "load E e (uint (fs_base E + tpoff E i)) 8 = Some (read_bytes (mem s) (slot E i) 8)"
    using load_accessible [of E e "slot E i" "slot E i + 8" "slot E i" 8] tls d(3) rs by (simp add: e_def slot_def)
  have se: "store E (uint (fs_base E + tpoff E i)) 8 (unat T) e = Some (e\<lparr>mem := write_bytes (mem d) (slot E i) 8 (unat T)\<rparr>)"
    using store_accessible [of E e "slot E i" "slot E i + 8" "slot E i" 8 "unat T"] tls d(3) by (simp add: e_def slot_def)
  have code: "setup_tls_switch i = [Movq ''rax'' ''r10'', Store 8 ''rsp'' 0 ''r10'', Movq ''r10'' ''rsp'', Subq 8 ''rsp''] @
      [Call (init_tls_name i)] @ [Addq 8 ''rsp'', Movq ''rsp'' ''r10'', Load 8 0 ''r10'' ''rsp'', Mov_gottpoff i ''r11''] @
      [Cmpq_fs_zero ''r11'', Movq_to_fs ''r10'' ''r11'']"
    by (simp add: setup_tls_switch_def)
  have run: "exec E (setup_tls_switch i) s = exec E [Cmpq_fs_zero ''r11'', Movq_to_fs ''r10'' ''r11''] e"
    by (simp only: code exec_append p1 p2 d(1) p3 Option.bind.simps)
  have er: "gpr e ''r11'' = tpoff E i" "gpr e ''r10'' = T" by (simp_all add: e_def)
  show ?thesis using d(3) unfolding run by (simp add: lz er se) (simp add: e_def)
qed

text \<open>
  C18. A new thread gets its stack in each compartment exactly once.  When the allocator
  returns a stack that the compartment owns, and \<open>init_tls\<close> keeps the calling
  convention, the set-up of compartment \<open>i\<close> ends with the rights of the compartment, on
  the old stack, with the address of the new stack in the stack pointer slot of the
  compartment; if the slot already holds a stack pointer, the program stops instead.
\<close>
theorem thread_stack_installed:
  assumes alloc: "alloc i (s\<lparr>gpr := (gpr s)(''rcx'' := 0, ''rdx'' := 0, ''rax'' := ucast (PKRU i)), pkru := PKRU i\<rparr>) = Some s2"
      "gpr s2 ''rax'' = T" "gpr s2 ''rsp'' = gpr s ''rsp''" "pkru s2 = PKRU i"
    and stack: "owns E i (uint T - 16) (uint T + 8)" "16 \<le> uint T" and tls: "owns E i (slot E i) (slot E i + 8)"
    and apart: "slot E i + 8 \<le> uint T - 16 \<or> uint T + 8 \<le> slot E i" and init: "init_tls_returns E i T" and i: "i < 16"
  shows "if read_bytes (mem s2) (slot E i) 8 = 0
    then \<exists>t. setup_stack_and_tls alloc E i s = Some t \<and> gpr t ''rsp'' = gpr s ''rsp'' \<and> pkru t = PKRU i \<and>
      read_bytes (mem t) (slot E i) 8 = unat T
    else setup_stack_and_tls alloc E i s = None"
  using setup_tls_switch_runs [OF alloc(4,2) owns_PKRU [OF stack(1)] stack(2) owns_PKRU [OF tls] apart init] alloc(1,3) i
  by (auto simp: setup_stack_and_tls_def setup_tls_enter_runs split: if_splits)

definition sample_init_tls :: "string \<Rightarrow> machine \<Rightarrow> machine option" where
  "sample_init_tls f u = Some (u\<lparr>gpr := (gpr u)(''rsp'' := gpr u ''rsp'' + 8)\<rparr>)"

definition sample_alloc :: "nat \<Rightarrow> machine \<Rightarrow> machine option" where
  "sample_alloc i u = Some (u\<lparr>gpr := (gpr u)(''rax'' := 0x18ff8)\<rparr>)"

theorem thread_stack_installed_witness:
  "\<exists>t. setup_stack_and_tls sample_alloc (sample_env sample_init_tls) 1 sample_state = Some t \<and> gpr t ''rsp'' = gpr sample_state ''rsp'' \<and>
     pkru t = PKRU 1 \<and> read_bytes (mem t) (slot (sample_env sample_init_tls) 1) 8 = 0x18ff8"
proof -
  let ?E = "sample_env sample_init_tls"
  define s2 where "s2 = sample_state\<lparr>gpr := (gpr sample_state)(''rcx'' := 0, ''rdx'' := 0, ''rax'' := 0x18ff8), pkru := PKRU 1\<rparr>"
  have al: "sample_alloc 1 (sample_state\<lparr>gpr := (gpr sample_state)(''rcx'' := 0, ''rdx'' := 0, ''rax'' := ucast (PKRU 1)), pkru := PKRU 1\<rparr>) = Some s2"
    "gpr s2 ''rax'' = 0x18ff8" "gpr s2 ''rsp'' = gpr sample_state ''rsp''" "pkru s2 = PKRU 1"
    by (simp_all add: sample_alloc_def s2_def fun_eq_iff)
  have sl: "slot ?E 1 = 0x10000" by (simp add: slot_def sample_env_def)
  have own: "owns ?E 1 (uint (0x18ff8 :: u64) - 16) (uint (0x18ff8 :: u64) + 8)" "owns ?E 1 (slot ?E 1) (slot ?E 1 + 8)"
    unfolding sl by (simp_all add: owns_def sample_env_def)
  have "init_tls_returns ?E 1 0x18ff8" by (simp add: init_tls_returns_def sample_env_def sample_init_tls_def)
  moreover have "read_bytes (mem s2) (slot ?E 1) 8 = 0" unfolding sl
    by (simp add: s2_def sample_state_def read_write_outside) (simp add: numeral_eq_Suc)
  ultimately show ?thesis
    using thread_stack_installed [of sample_alloc 1 sample_state s2 "0x18ff8" ?E, OF al own(1) _ own(2)] by (simp add: sl del: One_nat_def)
qed

text \<open>A signal handler starts with the rights of its compartment and the arguments the kernel passed.\<close>
lemma sighandler_enters:
  "exec E (ia2_sighandler f pk) s =
   callee E f (s\<lparr>pkru := PKRU pk, gpr := (gpr s)(''r10'' := gpr s ''rcx'', ''r11'' := gpr s ''rdx'', ''r12'' := gpr s ''rax'')\<rparr>)"
proof -
  let ?s = "s\<lparr>pkru := PKRU pk, gpr := (gpr s)(''r10'' := gpr s ''rcx'', ''r11'' := gpr s ''rdx'', ''r12'' := gpr s ''rax'')\<rparr>"
  have pre: "exec E (butlast (ia2_sighandler f pk)) s = Some ?s"
    by (auto simp: ia2_sighandler_def set_reg_def fun_eq_iff intro!: machine.equality)
  have "ia2_sighandler f pk = butlast (ia2_sighandler f pk) @ [Jmp f]" by (simp add: ia2_sighandler_def)
  then have "exec E (ia2_sighandler f pk) s = exec E (butlast (ia2_sighandler f pk) @ [Jmp f]) s" by simp
  also have "\<dots> = exec E [Jmp f] ?s" by (simp only: exec_append pre Option.bind.simps)
  finally show ?thesis unfolding exec_single exec1.simps .
qed

text \<open>A thread created through the wrapper calls the given function with the given argument, on the stack of its compartment, and frees its thunk.\<close>
lemma created_thread_runs:
  assumes "wrap_pthread_create (Some a) real fn data = (real, [Mmap_thunk a th, Real_pthread_create entry arg])" "thunks arg = th"
  shows "entry = ''ia2_thread_begin'' \<and> last (ia2_thread_begin dbg thunks tag arg) = Switch_and_call tag fn data \<and>
    hd (ia2_thread_begin dbg thunks tag arg) = Munmap_thunk a 16"
proof -
  have "th = \<lparr>thunk_fn = fn, thunk_data = data\<rparr>" "arg = a" "entry = ''ia2_thread_begin''"
    using assms(1) by (simp_all add: wrap_pthread_create_def)
  then show ?thesis using assms(2) by (simp add: ia2_thread_begin_def)
qed

end
