(* ===== verification/Heap_Shim.thy ===== *)
theory Heap_Shim
  imports Pkru
begin

text \<open>
  The heap of a compartment (\<open>partition-alloc/src\<close>): the choice of a partition by the
  current PKRU value, its creation on first use, the functions behind \<open>malloc\<close> and its
  relatives, and the heap that all compartments share.  PartitionAlloc itself is a
  record of functions; what the shim relies on is stated as laws of that record.
\<close>

section \<open>The interface of PartitionAlloc\<close>

text \<open>The blocks that are in use, with the key of their partition and their usable size, the bytes, and state of the allocator that is not visible.\<close>
record 'x heap =
  live :: "nat \<Rightarrow> (nat \<times> nat) option"
  heap_bytes :: "nat \<Rightarrow> u8"
  hidden :: 'x

text \<open>
  The functions of a partition, which is named by the key it was created with, 0 for a
  partition without a key.  An address is \<^term>\<open>None\<close> when there is no memory; the null
  pointer that is passed in is 0.
\<close>
record 'x partition_api =
  AllocInline :: "nat \<Rightarrow> bool \<Rightarrow> nat \<Rightarrow> 'x heap \<Rightarrow> nat option \<times> 'x heap"
  AlignedAllocInline :: "nat \<Rightarrow> nat \<Rightarrow> nat \<Rightarrow> 'x heap \<Rightarrow> nat option \<times> 'x heap"
  Realloc :: "nat \<Rightarrow> nat \<Rightarrow> nat \<Rightarrow> 'x heap \<Rightarrow> nat option \<times> 'x heap"
  FreeInlineInUnknownRoot :: "nat \<Rightarrow> 'x heap \<Rightarrow> 'x heap"
  GetUsableSize :: "nat \<Rightarrow> 'x heap \<Rightarrow> nat"

definition kAlignment :: nat where "kAlignment = 16"

section \<open>The choice of the partition\<close>

record 'x shim =
  g_root :: "nat \<Rightarrow> nat option"
  g_shared_root :: "nat option"
  the_heap :: "'x heap"

text \<open>\<open>LeakySingleton::Get\<close>: the partition, created with the given key on the first call.\<close>
definition singleton_get :: "nat option \<Rightarrow> nat \<Rightarrow> nat" where
  "singleton_get instance key = (case instance of Some root \<Rightarrow> root | None \<Rightarrow> key)"

definition SharedAllocator :: "'x shim \<Rightarrow> nat \<times> 'x shim" where
  "SharedAllocator st = (let root = singleton_get (g_shared_root st) 0 in (root, st\<lparr>g_shared_root := Some root\<rparr>))"

definition Allocator :: "u32 \<Rightarrow> 'x shim \<Rightarrow> nat \<times> 'x shim" where
  "Allocator pkru st =
    (let pkey = ia2_get_pkey pkru in
     if pkey = 0 then SharedAllocator st
     else let root = singleton_get (g_root st (pkey - 1)) (ia2_get_pkey pkru) in
       (root, st\<lparr>g_root := (g_root st)(pkey - 1 := Some root)\<rparr>))"

text \<open>A result is an address or the null pointer with the new state; the outer \<^term>\<open>None\<close> is a crash of the program.\<close>
type_synonym 'x heap_result = "(nat option \<times> 'x shim) option"

definition alloc_in :: "'x partition_api \<Rightarrow> bool \<Rightarrow> bool \<Rightarrow> nat \<Rightarrow> nat \<times> 'x shim \<Rightarrow> 'x heap_result" where
  "alloc_in api zero_fill return_null len = (\<lambda>(root, st).
    case AllocInline api root zero_fill len (the_heap st) of
      (None, h) \<Rightarrow> if return_null then Some (None, st\<lparr>the_heap := h\<rparr>) else None
    | (Some a, h) \<Rightarrow> Some (Some a, st\<lparr>the_heap := h\<rparr>))"

definition is_power_of_two :: "nat \<Rightarrow> bool" where
  "is_power_of_two n = (0 < n \<and> n AND (n - 1) = 0)"

text \<open>\<open>AlignedAllocator\<close> has the body of \<open>Allocator\<close>, so one partition serves both branches.\<close>
definition aligned_in :: "'x partition_api \<Rightarrow> nat \<Rightarrow> nat \<Rightarrow> nat \<times> 'x shim \<Rightarrow> 'x heap_result" where
  "aligned_in api alignment len = (\<lambda>(root, st).
    if alignment \<le> kAlignment then
      if \<not> is_power_of_two alignment then None else alloc_in api False False len (root, st)
    else
      case AlignedAllocInline api root alignment len (the_heap st) of
        (None, h) \<Rightarrow> None
      | (Some a, h) \<Rightarrow> Some (Some a, st\<lparr>the_heap := h\<rparr>))"

definition realloc_in :: "'x partition_api \<Rightarrow> nat \<Rightarrow> nat \<Rightarrow> nat \<times> 'x shim \<Rightarrow> 'x heap_result" where
  "realloc_in api p len = (\<lambda>(root, st).
    case Realloc api root p len (the_heap st) of
      (None, h) \<Rightarrow> if p \<noteq> 0 \<and> len = 0 then Some (None, st\<lparr>the_heap := h\<rparr>) else None
    | (Some a, h) \<Rightarrow> Some (Some a, st\<lparr>the_heap := h\<rparr>))"

section \<open>The functions behind \<open>malloc\<close>\<close>

definition PartitionMalloc :: "'x partition_api \<Rightarrow> u32 \<Rightarrow> nat \<Rightarrow> 'x shim \<Rightarrow> 'x heap_result" where
  "PartitionMalloc api pkru len st = alloc_in api False False len (Allocator pkru st)"

definition PartitionMallocUnchecked :: "'x partition_api \<Rightarrow> u32 \<Rightarrow> nat \<Rightarrow> 'x shim \<Rightarrow> 'x heap_result" where
  "PartitionMallocUnchecked api pkru len st = alloc_in api False True len (Allocator pkru st)"

text \<open>\<open>CheckMul\<close> crashes on overflow.\<close>
definition PartitionCalloc :: "'x partition_api \<Rightarrow> u32 \<Rightarrow> nat \<Rightarrow> nat \<Rightarrow> 'x shim \<Rightarrow> 'x heap_result" where
  "PartitionCalloc api pkru n len st =
    (if usize_bound \<le> n * len then None else alloc_in api True False (n * len) (Allocator pkru st))"

definition PartitionMemalign :: "'x partition_api \<Rightarrow> u32 \<Rightarrow> nat \<Rightarrow> nat \<Rightarrow> 'x shim \<Rightarrow> 'x heap_result" where
  "PartitionMemalign api pkru alignment len st = aligned_in api alignment len (Allocator pkru st)"

definition PartitionRealloc :: "'x partition_api \<Rightarrow> u32 \<Rightarrow> nat \<Rightarrow> nat \<Rightarrow> 'x shim \<Rightarrow> 'x heap_result" where
  "PartitionRealloc api pkru p len st = realloc_in api p len (Allocator pkru st)"

definition PartitionFree :: "'x partition_api \<Rightarrow> nat \<Rightarrow> 'x shim \<Rightarrow> 'x heap_result" where
  "PartitionFree api p st = Some (None, st\<lparr>the_heap := FreeInlineInUnknownRoot api p (the_heap st)\<rparr>)"

definition copy_bytes :: "nat \<Rightarrow> nat \<Rightarrow> nat \<Rightarrow> 'x heap \<Rightarrow> 'x heap" where
  "copy_bytes dst src len h = h\<lparr>heap_bytes := \<lambda>a. if dst \<le> a \<and> a < dst + len then heap_bytes h (src + (a - dst)) else heap_bytes h a\<rparr>"

definition PartitionAlignedRealloc :: "'x partition_api \<Rightarrow> u32 \<Rightarrow> nat \<Rightarrow> nat \<Rightarrow> nat \<Rightarrow> 'x shim \<Rightarrow> 'x heap_result" where
  "PartitionAlignedRealloc api pkru p len alignment st =
    (if len = 0 then (if p \<noteq> 0 then PartitionFree api p st else Some (None, st))
     else
       case PartitionMemalign api pkru alignment len st of
         None \<Rightarrow> None
       | Some (None, st1) \<Rightarrow> Some (None, st1)
       | Some (Some a, st1) \<Rightarrow>
           if p = 0 then Some (Some a, st1)
           else
             let usage = GetUsableSize api p (the_heap st1); copy_size = (if usage > len then len else usage) in
             Some (Some a, st1\<lparr>the_heap := FreeInlineInUnknownRoot api p (copy_bytes a p copy_size (the_heap st1))\<rparr>))"

definition PartitionGetSizeEstimate :: "'x partition_api \<Rightarrow> nat \<Rightarrow> 'x shim \<Rightarrow> nat" where
  "PartitionGetSizeEstimate api p st = (if p = 0 then 0 else GetUsableSize api p (the_heap st))"

fun PartitionBatchMalloc :: "'x partition_api \<Rightarrow> u32 \<Rightarrow> nat \<Rightarrow> nat \<Rightarrow> 'x shim \<Rightarrow> (nat option list \<times> 'x shim) option" where
  "PartitionBatchMalloc api pkru len 0 st = Some ([], st)"
| "PartitionBatchMalloc api pkru len (Suc n) st =
    (case PartitionMalloc api pkru len st of
       None \<Rightarrow> None
     | Some (r, st1) \<Rightarrow> map_option (\<lambda>(rs, st2). (r # rs, st2)) (PartitionBatchMalloc api pkru len n st1))"

fun PartitionBatchFree :: "'x partition_api \<Rightarrow> nat list \<Rightarrow> 'x shim \<Rightarrow> 'x heap_result" where
  "PartitionBatchFree api [] st = Some (None, st)"
| "PartitionBatchFree api (p # ps) st = (case PartitionFree api p st of None \<Rightarrow> None | Some (_, st1) \<Rightarrow> PartitionBatchFree api ps st1)"

section \<open>The shared heap\<close>

definition shared_malloc :: "'x partition_api \<Rightarrow> nat \<Rightarrow> 'x shim \<Rightarrow> 'x heap_result" where
  "shared_malloc api len st = alloc_in api False False len (SharedAllocator st)"

definition shared_calloc :: "'x partition_api \<Rightarrow> nat \<Rightarrow> nat \<Rightarrow> 'x shim \<Rightarrow> 'x heap_result" where
  "shared_calloc api n len st = (if usize_bound \<le> n * len then None else alloc_in api True False (n * len) (SharedAllocator st))"

definition shared_memalign :: "'x partition_api \<Rightarrow> nat \<Rightarrow> nat \<Rightarrow> 'x shim \<Rightarrow> 'x heap_result" where
  "shared_memalign api alignment len st = aligned_in api alignment len (SharedAllocator st)"

definition shared_realloc :: "'x partition_api \<Rightarrow> nat \<Rightarrow> nat \<Rightarrow> 'x shim \<Rightarrow> 'x heap_result" where
  "shared_realloc api p len st = realloc_in api p len (SharedAllocator st)"

definition shared_free :: "'x partition_api \<Rightarrow> nat \<Rightarrow> 'x shim \<Rightarrow> 'x heap_result" where
  "shared_free api p st = PartitionFree api p st"

text \<open>The return code with the address stored.\<close>
definition shared_posix_memalign :: "'x partition_api \<Rightarrow> nat \<Rightarrow> nat \<Rightarrow> 'x shim \<Rightarrow> (int \<times> nat option \<times> 'x shim) option" where
  "shared_posix_memalign api alignment len st =
    (if alignment mod 8 \<noteq> 0 \<or> \<not> is_power_of_two alignment then Some (22, None, st)
     else map_option (\<lambda>(p, st1). (if p = None then 12 else 0, p, st1)) (shared_memalign api alignment len st))"

definition shared_strdup :: "'x partition_api \<Rightarrow> u8 list \<Rightarrow> 'x shim \<Rightarrow> 'x heap_result" where
  "shared_strdup api str st =
    (case shared_malloc api (length str + 1) st of
       None \<Rightarrow> None
     | Some (None, st1) \<Rightarrow> Some (None, st1)
     | Some (Some a, st1) \<Rightarrow>
         Some (Some a, st1\<lparr>the_heap := (the_heap st1)\<lparr>heap_bytes :=
           \<lambda>b. if a \<le> b \<and> b \<le> a + length str then (str @ [0]) ! (b - a) else heap_bytes (the_heap st1) b\<rparr>\<rparr>))"

section \<open>What the shim relies on\<close>

definition apart :: "nat \<Rightarrow> nat \<Rightarrow> nat \<Rightarrow> nat \<Rightarrow> bool" where
  "apart a u b v = (a + u \<le> b \<or> b + v \<le> a)"

text \<open>The blocks other than \<open>p\<close> stay in use, with their bytes.\<close>
definition kept :: "nat \<Rightarrow> 'x heap \<Rightarrow> 'x heap \<Rightarrow> bool" where
  "kept p h h' = (\<forall>b k u. live h b = Some (k, u) \<and> b \<noteq> p \<longrightarrow>
     live h' b = Some (k, u) \<and> (\<forall>x. b \<le> x \<and> x < b + u \<longrightarrow> heap_bytes h' x = heap_bytes h x))"

text \<open>A block of a partition is made at \<open>a\<close>, in place of the block \<open>p\<close> if there is one.\<close>
definition new_block :: "nat \<Rightarrow> nat \<Rightarrow> nat \<Rightarrow> nat \<Rightarrow> 'x heap \<Rightarrow> 'x heap \<Rightarrow> bool" where
  "new_block key len p a h h' =
    (\<exists>u. a \<noteq> 0 \<and> len \<le> u \<and> live h' = (live h)(p := None, a := Some (key, u)) \<and>
      (\<forall>b k v. live h b = Some (k, v) \<and> b \<noteq> p \<longrightarrow> b \<noteq> a \<and> apart a u b v) \<and> kept p h h')"

text \<open>
  The laws hold while the allocator's own records are in order (\<open>ainv\<close>), which every
  function keeps and which the bytes of the blocks have no part in.
\<close>
definition alloc_law :: "('x heap \<Rightarrow> bool) \<Rightarrow> 'x partition_api \<Rightarrow> bool" where
  "alloc_law ainv api = (\<forall>key z len h. ainv h \<longrightarrow> (case AllocInline api key z len h of
     (None, h') \<Rightarrow> ainv h' \<and> live h' = live h \<and> kept 0 h h'
   | (Some a, h') \<Rightarrow> ainv h' \<and> new_block key len 0 a h h' \<and> (z \<longrightarrow> (\<forall>x. a \<le> x \<and> x < a + len \<longrightarrow> heap_bytes h' x = 0))))"

definition aligned_law :: "('x heap \<Rightarrow> bool) \<Rightarrow> 'x partition_api \<Rightarrow> bool" where
  "aligned_law ainv api = (\<forall>key al len h. ainv h \<longrightarrow> (case AlignedAllocInline api key al len h of
     (None, h') \<Rightarrow> ainv h' \<and> live h' = live h \<and> kept 0 h h'
   | (Some a, h') \<Rightarrow> ainv h' \<and> new_block key len 0 a h h' \<and> al dvd a))"

text \<open>
  A block that is resized in place stays in its partition, a block that moves goes to the
  given one, a block that is resized to nothing is freed.
\<close>
definition realloc_law :: "('x heap \<Rightarrow> bool) \<Rightarrow> 'x partition_api \<Rightarrow> bool" where
  "realloc_law ainv api = (\<forall>key p len h. ainv h \<and> (p = 0 \<or> live h p \<noteq> None) \<longrightarrow> (case Realloc api key p len h of
     (None, h') \<Rightarrow> ainv h' \<and> (if p \<noteq> 0 \<and> len = 0 then live h' = (live h)(p := None) \<and> kept p h h' else live h' = live h \<and> kept 0 h h')
   | (Some a, h') \<Rightarrow> ainv h' \<and> new_block (if a = p then fst (the (live h p)) else key) len p a h h' \<and>
       (p \<noteq> 0 \<longrightarrow> (\<forall>x < min len (snd (the (live h p))). heap_bytes h' (a + x) = heap_bytes h (p + x)))))"

definition free_law :: "('x heap \<Rightarrow> bool) \<Rightarrow> 'x partition_api \<Rightarrow> bool" where
  "free_law ainv api = (\<forall>p h. ainv h \<and> (p = 0 \<or> live h p \<noteq> None) \<longrightarrow> ainv (FreeInlineInUnknownRoot api p h) \<and>
     live (FreeInlineInUnknownRoot api p h) = (live h)(p := None) \<and> kept p h (FreeInlineInUnknownRoot api p h))"

definition partition_ok :: "('x heap \<Rightarrow> bool) \<Rightarrow> 'x partition_api \<Rightarrow> bool" where
  "partition_ok ainv api = (alloc_law ainv api \<and> aligned_law ainv api \<and> realloc_law ainv api \<and> free_law ainv api \<and>
     (\<forall>h f. ainv h \<longrightarrow> ainv (h\<lparr>heap_bytes := f\<rparr>)))"

section \<open>Isolation of the heaps\<close>

text \<open>Blocks in use do not overlap, the null pointer is none, and every partition has a key of the hardware.\<close>
definition heap_wf :: "'x heap \<Rightarrow> bool" where
  "heap_wf h = (live h 0 = None \<and> (\<forall>a k u. live h a = Some (k, u) \<longrightarrow> k < 16) \<and>
     (\<forall>a k u b l v. live h a = Some (k, u) \<and> live h b = Some (l, v) \<and> a \<noteq> b \<longrightarrow> apart a u b v))"

definition roots_wf :: "'x shim \<Rightarrow> bool" where
  "roots_wf st = ((\<forall>i k. g_root st i = Some k \<longrightarrow> k = Suc i) \<and> (\<forall>k. g_shared_root st = Some k \<longrightarrow> k = 0))"

lemma apart_sym: "apart a u b v = apart b v a u"
  by (auto simp: apart_def)

lemma new_block_wf:
  assumes h: "heap_wf h" and n: "new_block key len p a h h'" and k: "key < 16"
  shows "heap_wf h'"
proof -
  obtain u where a: "a \<noteq> 0" and l: "live h' = (live h)(p := None, a := Some (key, u))"
    and far: "\<And>b k v. live h b = Some (k, v) \<Longrightarrow> b \<noteq> p \<Longrightarrow> apart a u b v"
    using n by (auto simp: new_block_def)
  have far': "apart b v a u" if "live h b = Some (l, v)" "b \<noteq> p" for b l v using far [OF that] by (simp add: apart_sym)
  show ?thesis unfolding heap_wf_def l
  proof (intro conjI allI impI)
    show "((live h)(p := None, a := Some (key, u))) 0 = None" using h a by (simp add: heap_wf_def)
  next
    fix b l v
    assume "((live h)(p := None, a := Some (key, u))) b = Some (l, v)"
    then show "l < 16" using h k by (auto simp: heap_wf_def split: if_splits)
  next
    fix b l v b' l' v'
    assume "((live h)(p := None, a := Some (key, u))) b = Some (l, v) \<and> ((live h)(p := None, a := Some (key, u))) b' = Some (l', v') \<and> b \<noteq> b'"
    then show "apart b v b' v'" using h far far' by (cases "b = a"; cases "b' = a") (auto simp: heap_wf_def split: if_splits)
  qed
qed

lemma same_live_wf: "heap_wf h \<Longrightarrow> live h' = live h \<Longrightarrow> heap_wf h'"
  by (simp add: heap_wf_def)

lemma freed_wf: "heap_wf h \<Longrightarrow> live h' = (live h)(p := None) \<Longrightarrow> heap_wf h'"
  by (auto simp: heap_wf_def split: if_splits)

text \<open>What one operation of a partition with a key does to the heap.\<close>
definition step_ok :: "('x heap \<Rightarrow> bool) \<Rightarrow> nat \<Rightarrow> nat \<Rightarrow> nat \<Rightarrow> 'x heap \<Rightarrow> nat option \<Rightarrow> 'x heap \<Rightarrow> bool" where
  "step_ok ainv key len p h res h' =
    (ainv h' \<and> heap_wf h' \<and> kept p h h' \<and>
     (\<forall>a. res = Some a \<longrightarrow> (a \<noteq> p \<longrightarrow> live h a = None) \<and>
       (\<exists>k u. live h' a = Some (k, u) \<and> len \<le> u \<and> (k = key \<or> a = p \<and> (\<exists>v. live h a = Some (k, v))))))"

lemma step_result:
  "step_ok ainv key len p h (Some a) h' \<Longrightarrow> (a \<noteq> p \<longrightarrow> live h a = None) \<and>
     (\<exists>k u. live h' a = Some (k, u) \<and> len \<le> u \<and> (k = key \<or> a = p \<and> (\<exists>v. live h a = Some (k, v))))"
  by (simp add: step_ok_def)

lemma kept_all:
  assumes h: "heap_wf h" and kept: "kept 0 h h'"
  shows "kept p h h'"
  unfolding kept_def
proof (intro allI impI)
  fix b k u
  assume b: "live h b = Some (k, u) \<and> b \<noteq> p"
  then have "b \<noteq> 0" using h by (cases "b = 0") (auto simp: heap_wf_def)
  then show "live h' b = Some (k, u) \<and> (\<forall>x. b \<le> x \<and> x < b + u \<longrightarrow> heap_bytes h' x = heap_bytes h x)"
    using b kept unfolding kept_def by blast
qed

lemma step_none: "heap_wf h \<Longrightarrow> ainv h' \<Longrightarrow> live h' = live h \<Longrightarrow> kept 0 h h' \<Longrightarrow> step_ok ainv key len p h None h'"
  by (simp add: step_ok_def kept_all same_live_wf)

lemma new_block_fresh:
  assumes "new_block key len p a h h'" "a \<noteq> p"
  shows "live h a = None"
proof (cases "live h a")
  case (Some kv)
  then obtain k v where "live h a = Some (k, v)" by (cases kv) simp
  then show ?thesis using assms unfolding new_block_def by blast
qed simp

lemma step_new:
  assumes "heap_wf h" "ainv h'" "new_block key len p a h h'" "key < 16"
  shows "step_ok ainv key len p h (Some a) h'"
  using assms(2) new_block_wf [OF assms(1,3,4)] new_block_fresh [OF assms(3)] assms(3)
  by (auto simp: step_ok_def new_block_def)

lemma step_resized:
  assumes h: "heap_wf h" and i: "ainv h'" and n: "new_block (if a = p then fst (the (live h p)) else key) len p a h h'" and k: "key < 16"
    and p: "p = 0 \<or> live h p \<noteq> None"
  shows "step_ok ainv key len p h (Some a) h'"
proof (cases "a = p")
  case True
  have "a \<noteq> 0" using n by (auto simp: new_block_def)
  then obtain l v where lv: "live h a = Some (l, v)" using p True by (auto simp: not_None_eq)
  then have n': "new_block l len p a h h'" using n True by simp
  have "l < 16" using h lv by (auto simp: heap_wf_def)
  from new_block_wf [OF h n' this] show ?thesis using i n' True lv by (auto simp: step_ok_def new_block_def)
next
  case False
  then show ?thesis using step_new [where ainv = ainv, OF h i _ k] n by simp
qed

lemma alloc_in_step:
  assumes ok: "alloc_law ainv api" and i: "ainv (the_heap st)" and h: "heap_wf (the_heap st)" and k: "key < 16"
    and run: "alloc_in api z rn len (key, st) = Some (res, st')"
  shows "step_ok ainv key len 0 (the_heap st) res (the_heap st') \<and> g_root st' = g_root st \<and> g_shared_root st' = g_shared_root st"
proof -
  obtain r h' where a: "AllocInline api key z len (the_heap st) = (r, h')" by (cases "AllocInline api key z len (the_heap st)")
  note law = ok [unfolded alloc_law_def, THEN spec [of _ key], THEN spec [of _ z], THEN spec [of _ len], THEN spec [of _ "the_heap st"], THEN mp, OF i]
  show ?thesis
  proof (cases r)
    case None
    then show ?thesis using run law step_none [where ainv = ainv, OF h] by (auto simp: alloc_in_def a split: if_splits)
  next
    case (Some b)
    then show ?thesis using run law step_new [where ainv = ainv, OF h _ _ k] by (auto simp: alloc_in_def a)
  qed
qed

lemma aligned_in_step:
  assumes ok: "alloc_law ainv api" "aligned_law ainv api" and i: "ainv (the_heap st)" and h: "heap_wf (the_heap st)" and k: "key < 16"
    and run: "aligned_in api al len (key, st) = Some (res, st')"
  shows "step_ok ainv key len 0 (the_heap st) res (the_heap st') \<and> g_root st' = g_root st \<and> g_shared_root st' = g_shared_root st"
proof (cases "al \<le> kAlignment")
  case True
  then show ?thesis using alloc_in_step [OF ok(1) i h k] run by (auto simp: aligned_in_def split: if_splits)
next
  case False
  obtain r h' where a: "AlignedAllocInline api key al len (the_heap st) = (r, h')" by (cases "AlignedAllocInline api key al len (the_heap st)")
  note law = ok(2) [unfolded aligned_law_def, THEN spec [of _ key], THEN spec [of _ al], THEN spec [of _ len], THEN spec [of _ "the_heap st"], THEN mp, OF i]
  show ?thesis using run law step_new [where ainv = ainv, OF h _ _ k] False by (cases r) (auto simp: aligned_in_def a)
qed

lemma realloc_in_step:
  assumes ok: "realloc_law ainv api" and i: "ainv (the_heap st)" and h: "heap_wf (the_heap st)" and k: "key < 16"
    and p: "p = 0 \<or> live (the_heap st) p \<noteq> None" and run: "realloc_in api p len (key, st) = Some (res, st')"
  shows "step_ok ainv key len p (the_heap st) res (the_heap st') \<and> g_root st' = g_root st \<and> g_shared_root st' = g_shared_root st"
proof -
  obtain r h' where a: "Realloc api key p len (the_heap st) = (r, h')" by (cases "Realloc api key p len (the_heap st)")
  note law = ok [unfolded realloc_law_def, THEN spec [of _ key], THEN spec [of _ p], THEN spec [of _ len], THEN spec [of _ "the_heap st"], THEN mp, OF conjI [OF i p]]
  show ?thesis
  proof (cases r)
    case None
    then show ?thesis using run law freed_wf [OF h] by (auto simp: realloc_in_def a step_ok_def split: if_splits)
  next
    case (Some b)
    then show ?thesis using run law step_resized [where ainv = ainv, OF h _ _ k p] by (auto simp: realloc_in_def a)
  qed
qed

text \<open>The operations of the two heaps.\<close>
datatype heap_op =
    Malloc nat | Malloc_unchecked nat | Calloc nat nat | Memalign nat nat | Realloc_op nat nat | Aligned_realloc nat nat nat | Free_op nat
  | Shared_malloc nat | Shared_calloc nat nat | Shared_memalign nat nat | Shared_realloc nat nat | Shared_free nat

fun run_heap_op :: "'x partition_api \<Rightarrow> u32 \<Rightarrow> heap_op \<Rightarrow> 'x shim \<Rightarrow> 'x heap_result" where
  "run_heap_op api pkru (Malloc n) st = PartitionMalloc api pkru n st"
| "run_heap_op api pkru (Malloc_unchecked n) st = PartitionMallocUnchecked api pkru n st"
| "run_heap_op api pkru (Calloc m n) st = PartitionCalloc api pkru m n st"
| "run_heap_op api pkru (Memalign al n) st = PartitionMemalign api pkru al n st"
| "run_heap_op api pkru (Realloc_op p n) st = PartitionRealloc api pkru p n st"
| "run_heap_op api pkru (Aligned_realloc p n al) st = PartitionAlignedRealloc api pkru p n al st"
| "run_heap_op api pkru (Free_op p) st = PartitionFree api p st"
| "run_heap_op api pkru (Shared_malloc n) st = shared_malloc api n st"
| "run_heap_op api pkru (Shared_calloc m n) st = shared_calloc api m n st"
| "run_heap_op api pkru (Shared_memalign al n) st = shared_memalign api al n st"
| "run_heap_op api pkru (Shared_realloc p n) st = shared_realloc api p n st"
| "run_heap_op api pkru (Shared_free p) st = shared_free api p st"

text \<open>The block an operation is given, the size it asks for, and the key of its result.\<close>
fun op_arg :: "heap_op \<Rightarrow> nat" where
  "op_arg (Realloc_op p _) = p" | "op_arg (Aligned_realloc p _ _) = p" | "op_arg (Free_op p) = p"
| "op_arg (Shared_realloc p _) = p" | "op_arg (Shared_free p) = p" | "op_arg _ = 0"

fun op_len :: "heap_op \<Rightarrow> nat" where
  "op_len (Malloc n) = n" | "op_len (Malloc_unchecked n) = n" | "op_len (Calloc m n) = m * n" | "op_len (Memalign _ n) = n"
| "op_len (Realloc_op _ n) = n" | "op_len (Aligned_realloc _ n _) = n" | "op_len (Shared_malloc n) = n"
| "op_len (Shared_calloc m n) = m * n" | "op_len (Shared_memalign _ n) = n" | "op_len (Shared_realloc _ n) = n" | "op_len _ = 0"

fun op_shared :: "heap_op \<Rightarrow> bool" where
  "op_shared (Shared_malloc _) = True" | "op_shared (Shared_calloc _ _) = True" | "op_shared (Shared_memalign _ _) = True"
| "op_shared (Shared_realloc _ _) = True" | "op_shared (Shared_free _) = True" | "op_shared _ = False"

definition op_key :: "nat \<Rightarrow> heap_op \<Rightarrow> nat" where
  "op_key c op = (if op_shared op then 0 else c)"

lemma get_pkey_PKRU:
  assumes "c < 16"
  shows "ia2_get_pkey (PKRU c) = c"
proof -
  have "\<forall>k \<in> set [0..<16]. ia2_get_pkey (PKRU k) = k"
    unfolding upt_16 by (simp add: PKRU_table PKRU_table(2) [simplified] ia2_get_pkey_def)
  then show ?thesis using assms by (rule below_16_ballI)
qed

text \<open>The partition is the one of the compartment, and creating it keeps the table of partitions right.\<close>
lemma SharedAllocator_root:
  assumes "roots_wf st"
  shows "\<exists>st1. SharedAllocator st = (0, st1) \<and> roots_wf st1 \<and> the_heap st1 = the_heap st"
  using assms by (cases "g_shared_root st") (auto simp: SharedAllocator_def roots_wf_def singleton_get_def Let_def)

lemma Allocator_root:
  assumes "roots_wf st" "c < 16"
  shows "\<exists>st1. Allocator (PKRU c) st = (c, st1) \<and> roots_wf st1 \<and> the_heap st1 = the_heap st"
proof (cases "c = 0")
  case True
  then show ?thesis using SharedAllocator_root [OF assms(1)] get_pkey_PKRU [OF assms(2)] by (simp add: Allocator_def)
next
  case False
  have "k = c" if "g_root st (c - 1) = Some k" for k
  proof -
    have "k = Suc (c - 1)" using that assms(1) unfolding roots_wf_def by blast
    then show ?thesis using False by simp
  qed
  with False show ?thesis using assms
    by (cases "g_root st (c - 1)") (auto simp: Allocator_def get_pkey_PKRU [OF assms(2)] singleton_get_def Let_def roots_wf_def)
qed

lemma free_step:
  assumes ok: "free_law ainv api" and i: "ainv (the_heap st)" and h: "heap_wf (the_heap st)" and p: "p = 0 \<or> live (the_heap st) p \<noteq> None"
    and run: "PartitionFree api p st = Some (res, st')"
  shows "step_ok ainv key 0 p (the_heap st) res (the_heap st') \<and> g_root st' = g_root st \<and> g_shared_root st' = g_shared_root st"
proof -
  note law = ok [unfolded free_law_def, THEN spec [of _ p], THEN spec [of _ "the_heap st"], THEN mp, OF conjI [OF i p]]
  show ?thesis using run law freed_wf [OF h] by (auto simp: PartitionFree_def step_ok_def)
qed

text \<open>The copy to the new block stays within it, so the other blocks are kept.\<close>
lemma copy_step:
  assumes ok: "partition_ok ainv api" and s: "step_ok ainv key len 0 h (Some a) h1" and h: "heap_wf h" and p: "p \<noteq> 0" "live h p \<noteq> None" and n: "n \<le> len"
  shows "step_ok ainv key len p h (Some a) (FreeInlineInUnknownRoot api p (copy_bytes a p n h1))"
proof -
  let ?h2 = "copy_bytes a p n h1"
  let ?h3 = "FreeInlineInUnknownRoot api p ?h2"
  obtain u where a: "live h1 a = Some (key, u)" "len \<le> u" "live h a = None"
    using s h by (cases "a = 0") (auto simp: step_ok_def heap_wf_def)
  have h1: "heap_wf h1" "kept 0 h h1" "ainv h1" using s by (auto simp: step_ok_def)
  have i: "ainv ?h2" using ok h1 by (simp add: partition_ok_def copy_bytes_def)
  have l2: "live ?h2 = live h1" by (simp add: copy_bytes_def)
  obtain q where q: "live h p = Some q" using p by blast
  have lp: "live h1 p = Some q" using h1(2) q p unfolding kept_def by (cases q) blast
  have "free_law ainv api" using ok by (simp add: partition_ok_def)
  from this [unfolded free_law_def, THEN spec [of _ p], THEN spec [of _ ?h2], THEN mp, OF conjI [OF i]]
  have f: "ainv ?h3" "live ?h3 = (live h1)(p := None)" "kept p ?h2 ?h3" using lp l2 by auto
  have "kept p h ?h3" unfolding kept_def
  proof (intro allI impI)
    fix b k v
    assume b: "live h b = Some (k, v) \<and> b \<noteq> p"
    then have "b \<noteq> 0" using h by (cases "b = 0") (auto simp: heap_wf_def)
    then have b1: "live h1 b = Some (k, v)" "\<forall>x. b \<le> x \<and> x < b + v \<longrightarrow> heap_bytes h1 x = heap_bytes h x"
      using b h1(2) unfolding kept_def by blast+
    have "b \<noteq> a" using b a by auto
    then have "apart a u b v" using h1(1) a(1) b1(1) unfolding heap_wf_def by blast
    then have "\<forall>x. b \<le> x \<and> x < b + v \<longrightarrow> heap_bytes ?h2 x = heap_bytes h1 x"
      using n a(2) by (auto simp: copy_bytes_def apart_def)
    moreover have "live ?h3 b = Some (k, v)" "\<forall>x. b \<le> x \<and> x < b + v \<longrightarrow> heap_bytes ?h3 x = heap_bytes ?h2 x"
      using f(3) b b1(1) l2 unfolding kept_def by auto
    ultimately show "live ?h3 b = Some (k, v) \<and> (\<forall>x. b \<le> x \<and> x < b + v \<longrightarrow> heap_bytes ?h3 x = heap_bytes h x)"
      using b1(2) by simp
  qed
  moreover have "a \<noteq> p" using a q by auto
  ultimately show ?thesis using f a freed_wf [OF h1(1) f(2)] by (simp add: step_ok_def)
qed

lemma aligned_realloc_step:
  assumes ok: "partition_ok ainv api" and i: "ainv (the_heap st)" and h: "heap_wf (the_heap st)" and k: "c < 16"
    and p: "p = 0 \<or> live (the_heap st) p \<noteq> None" and al: "Allocator (PKRU c) st = (c, st1)" "the_heap st1 = the_heap st"
    and r: "roots_wf st" "roots_wf st1"
    and run: "PartitionAlignedRealloc api (PKRU c) p len al st = Some (res, st')"
  shows "step_ok ainv c len p (the_heap st) res (the_heap st') \<and> roots_wf st'"
proof (cases "len = 0")
  case True
  have fl: "free_law ainv api" using ok by (simp add: partition_ok_def)
  have "kept p (the_heap st) (the_heap st)" by (simp add: kept_def)
  then show ?thesis using run True free_step [OF fl i h p] r(1) i h
    by (cases "p = 0") (auto simp: PartitionAlignedRealloc_def step_ok_def roots_wf_def)
next
  case False
  have ok': "alloc_law ainv api" "aligned_law ainv api" using ok by (auto simp: partition_ok_def)
  obtain r1 s2 where m: "PartitionMemalign api (PKRU c) al len st = Some (r1, s2)"
    using run False by (auto simp: PartitionAlignedRealloc_def split: option.splits)
  have s: "step_ok ainv c len 0 (the_heap st) r1 (the_heap s2) \<and> g_root s2 = g_root st1 \<and> g_shared_root s2 = g_shared_root st1"
    using aligned_in_step [OF ok', of st1 c al len r1 s2] m i h k al by (simp add: PartitionMemalign_def)
  then have r2: "roots_wf s2" using r(2) by (simp add: roots_wf_def)
  show ?thesis
  proof (cases r1)
    case None
    then have "res = None" "st' = s2" using run False m by (auto simp: PartitionAlignedRealloc_def)
    then show ?thesis using s r2 None kept_all [OF h] by (simp add: step_ok_def)
  next
    case (Some a)
    show ?thesis
    proof (cases "p = 0")
      case True
      then have "res = Some a" "st' = s2" using run False m Some by (auto simp: PartitionAlignedRealloc_def)
      then show ?thesis using s r2 Some True by simp
    next
      case p0: False
      let ?u = "GetUsableSize api p (the_heap s2)"
      have e: "res = Some a" "st' = s2\<lparr>the_heap := FreeInlineInUnknownRoot api p (copy_bytes a p (if ?u > len then len else ?u) (the_heap s2))\<rparr>"
        using run False m Some p0 by (auto simp: PartitionAlignedRealloc_def Let_def)
      have "(if ?u > len then len else ?u) \<le> len" by simp
      moreover have "step_ok ainv c len 0 (the_heap st) (Some a) (the_heap s2)" using s Some by simp
      ultimately show ?thesis using copy_step [OF ok _ h p0] p p0 r2 e by (simp add: roots_wf_def)
    qed
  qed
qed

lemma heap_op_step:
  assumes ok: "partition_ok ainv api" and i: "ainv (the_heap st)" and h: "heap_wf (the_heap st)" and r: "roots_wf st" and c: "c < 16"
    and p: "op_arg op = 0 \<or> live (the_heap st) (op_arg op) \<noteq> None" and run: "run_heap_op api (PKRU c) op st = Some (res, st')"
  shows "step_ok ainv (op_key c op) (op_len op) (op_arg op) (the_heap st) res (the_heap st') \<and> roots_wf st'"
proof -
  have laws: "alloc_law ainv api" "aligned_law ainv api" "realloc_law ainv api" "free_law ainv api" using ok by (auto simp: partition_ok_def)
  obtain s1 where s1: "SharedAllocator st = (0, s1)" "roots_wf s1" "the_heap s1 = the_heap st" using SharedAllocator_root [OF r] by blast
  obtain s2 where s2: "Allocator (PKRU c) st = (c, s2)" "roots_wf s2" "the_heap s2 = the_heap st" using Allocator_root [OF r c] by blast
  have same: "roots_wf st'" if "roots_wf s" "g_root st' = g_root s \<and> g_shared_root st' = g_shared_root s" for s
    using that by (simp add: roots_wf_def)
  have al1: ?thesis if "alloc_in api z rn (op_len op) (0, s1) = Some (res, st')" "op_key c op = 0" "op_arg op = 0" for z rn
    using alloc_in_step [OF laws(1) _ _ _ that(1)] s1 i h same [OF s1(2)] that by simp
  have al2: ?thesis if "alloc_in api z rn (op_len op) (c, s2) = Some (res, st')" "op_key c op = c" "op_arg op = 0" for z rn
    using alloc_in_step [OF laws(1) _ _ c that(1)] s2 i h same [OF s2(2)] that by simp
  have ag1: ?thesis if "aligned_in api al (op_len op) (0, s1) = Some (res, st')" "op_key c op = 0" "op_arg op = 0" for al
    using aligned_in_step [OF laws(1,2) _ _ _ that(1)] s1 i h same [OF s1(2)] that by simp
  have ag2: ?thesis if "aligned_in api al (op_len op) (c, s2) = Some (res, st')" "op_key c op = c" "op_arg op = 0" for al
    using aligned_in_step [OF laws(1,2) _ _ c that(1)] s2 i h same [OF s2(2)] that by simp
  have re1: ?thesis if "realloc_in api (op_arg op) (op_len op) (0, s1) = Some (res, st')" "op_key c op = 0"
    using realloc_in_step [OF laws(3) _ _ _ _ that(1)] s1 i h p same [OF s1(2)] that by simp
  have re2: ?thesis if "realloc_in api (op_arg op) (op_len op) (c, s2) = Some (res, st')" "op_key c op = c"
    using realloc_in_step [OF laws(3) _ _ c _ that(1)] s2 i h p same [OF s2(2)] that by simp
  have fr: ?thesis if "PartitionFree api (op_arg op) st = Some (res, st')" "op_len op = 0"
    using free_step [OF laws(4) i h p that(1)] same [OF r] that by simp
  show ?thesis
  proof (cases op)
    case (Malloc n)
    then show ?thesis using run by (intro al2) (simp_all add: PartitionMalloc_def s2 op_key_def)
  next
    case (Malloc_unchecked n)
    then show ?thesis using run by (intro al2) (simp_all add: PartitionMallocUnchecked_def s2 op_key_def)
  next
    case (Calloc m n)
    then show ?thesis using run by (intro al2) (simp_all add: PartitionCalloc_def s2 op_key_def split: if_splits)
  next
    case (Memalign al n)
    then show ?thesis using run by (intro ag2) (simp_all add: PartitionMemalign_def s2 op_key_def)
  next
    case (Realloc_op q n)
    then show ?thesis using run by (intro re2) (simp_all add: PartitionRealloc_def s2 op_key_def)
  next
    case (Aligned_realloc q n al)
    then show ?thesis using aligned_realloc_step [OF ok i h c _ s2(1,3) r s2(2)] p run by (simp add: op_key_def)
  next
    case (Free_op q)
    then show ?thesis using run by (intro fr) simp_all
  next
    case (Shared_malloc n)
    then show ?thesis using run by (intro al1) (simp_all add: shared_malloc_def s1 op_key_def)
  next
    case (Shared_calloc m n)
    then show ?thesis using run by (intro al1) (simp_all add: shared_calloc_def s1 op_key_def split: if_splits)
  next
    case (Shared_memalign al n)
    then show ?thesis using run by (intro ag1) (simp_all add: shared_memalign_def s1 op_key_def)
  next
    case (Shared_realloc q n)
    then show ?thesis using run by (intro re1) (simp_all add: shared_realloc_def s1 op_key_def)
  next
    case (Shared_free q)
    then show ?thesis using run by (intro fr) (simp_all add: shared_free_def)
  qed
qed

text \<open>An allocator that meets the laws: it hands out addresses in order and never reuses one.\<close>
definition bump_at :: "nat \<Rightarrow> nat \<Rightarrow> (nat \<Rightarrow> u8) \<Rightarrow> nat \<Rightarrow> nat heap \<Rightarrow> nat option \<times> nat heap" where
  "bump_at key a bytes len h = (Some a, \<lparr>live = (live h)(a \<mapsto> (key, len)),
     heap_bytes = (\<lambda>x. if a \<le> x then bytes (x - a) else heap_bytes h x), hidden = a + len + 1\<rparr>)"

definition bump_free :: "nat \<Rightarrow> nat heap \<Rightarrow> nat heap" where
  "bump_free p h = h\<lparr>live := (live h)(p := None)\<rparr>"

definition bump_api :: "nat partition_api" where
  "bump_api = \<lparr>AllocInline = (\<lambda>key z len h. bump_at key (hidden h) (\<lambda>_. 0) len h),
     AlignedAllocInline = (\<lambda>key al len h. if al = 0 then (None, h) else bump_at key (al * hidden h) (\<lambda>_. 0) len h),
     Realloc = (\<lambda>key p len h. if p \<noteq> 0 \<and> len = 0 then (None, bump_free p h)
       else bump_at key (hidden h) (\<lambda>x. heap_bytes h (p + x)) len (bump_free p h)),
     FreeInlineInUnknownRoot = bump_free,
     GetUsableSize = (\<lambda>p h. case live h p of Some (_, u) \<Rightarrow> u | None \<Rightarrow> 0)\<rparr>"

definition bump_inv :: "nat heap \<Rightarrow> bool" where
  "bump_inv h = (0 < hidden h \<and> live h 0 = None \<and> (\<forall>b k v. live h b = Some (k, v) \<longrightarrow> b + v < hidden h))"

lemma bump_at_block:
  assumes i: "bump_inv h" and a: "hidden h \<le> a" and r: "bump_at key a bytes len (bump_free p h) = (Some a', h')"
  shows "a' = a \<and> bump_inv h' \<and> new_block key len p a h h' \<and> (\<forall>x. heap_bytes h' (a + x) = bytes x)"
proof -
  have e: "a' = a" "live h' = (live h)(p := None, a := Some (key, len))" "hidden h' = a + len + 1"
    "heap_bytes h' = (\<lambda>x. if a \<le> x then bytes (x - a) else heap_bytes h x)"
    using r by (auto simp: bump_at_def bump_free_def)
  have b: "b + v < a" if "live h b = Some (k, v)" for b k v using i a that by (fastforce simp: bump_inv_def)
  have "bump_inv h'" using i a b e by (fastforce simp: bump_inv_def split: if_splits)
  moreover have "new_block key len p a h h'" unfolding new_block_def kept_def apart_def
    using i a e by (intro exI [of _ len]) (auto simp: bump_inv_def dest!: b)
  ultimately show ?thesis using e by simp
qed

lemma bump_free_0: "bump_inv h \<Longrightarrow> bump_free 0 h = h"
  by (simp add: bump_free_def bump_inv_def fun_upd_idem)

lemma bump_ok: "partition_ok bump_inv bump_api"
  unfolding partition_ok_def
proof (intro conjI)
  show "alloc_law bump_inv bump_api" unfolding alloc_law_def
  proof (intro allI impI)
    fix key z len and h :: "nat heap"
    assume i: "bump_inv h"
    obtain h' where r: "bump_at key (hidden h) (\<lambda>_. 0) len h = (Some (hidden h), h')" by (simp add: bump_at_def)
    have "\<forall>x. hidden h \<le> x \<longrightarrow> heap_bytes h' x = 0" using r by (auto simp: bump_at_def)
    then show "case AllocInline bump_api key z len h of (None, h') \<Rightarrow> bump_inv h' \<and> live h' = live h \<and> kept 0 h h'
        | (Some a, h') \<Rightarrow> bump_inv h' \<and> new_block key len 0 a h h' \<and> (z \<longrightarrow> (\<forall>x. a \<le> x \<and> x < a + len \<longrightarrow> heap_bytes h' x = 0))"
      using bump_at_block [OF i order_refl, of key "\<lambda>_. 0" len 0 "hidden h" h'] r by (simp add: bump_api_def bump_free_0 [OF i])
  qed
  show "aligned_law bump_inv bump_api" unfolding aligned_law_def
  proof (intro allI impI)
    fix key al len and h :: "nat heap"
    assume i: "bump_inv h"
    show "case AlignedAllocInline bump_api key al len h of (None, h') \<Rightarrow> bump_inv h' \<and> live h' = live h \<and> kept 0 h h'
        | (Some a, h') \<Rightarrow> bump_inv h' \<and> new_block key len 0 a h h' \<and> al dvd a"
    proof (cases "al = 0")
      case True
      then show ?thesis using i by (simp add: bump_api_def kept_def)
    next
      case False
      obtain h' where r: "bump_at key (al * hidden h) (\<lambda>_. 0) len h = (Some (al * hidden h), h')" by (simp add: bump_at_def)
      show ?thesis using bump_at_block [OF i, of "al * hidden h" key "\<lambda>_. 0" len 0 "al * hidden h" h'] r False
        by (simp add: bump_api_def bump_free_0 [OF i])
    qed
  qed
  show "realloc_law bump_inv bump_api" unfolding realloc_law_def
  proof (intro allI impI)
    fix key p len and h :: "nat heap"
    assume i: "bump_inv h \<and> (p = 0 \<or> live h p \<noteq> None)"
    then have i': "bump_inv h" by simp
    have fr: "bump_inv (bump_free p h)" using i' by (auto simp: bump_inv_def bump_free_def)
    have ne: "hidden h \<noteq> p" using i by (fastforce simp: bump_inv_def)
    obtain h' where r: "bump_at key (hidden h) (\<lambda>x. heap_bytes h (p + x)) len (bump_free p h) = (Some (hidden h), h')" by (simp add: bump_at_def)
    show "case Realloc bump_api key p len h of
       (None, h') \<Rightarrow> bump_inv h' \<and> (if p \<noteq> 0 \<and> len = 0 then live h' = (live h)(p := None) \<and> kept p h h' else live h' = live h \<and> kept 0 h h')
     | (Some a, h') \<Rightarrow> bump_inv h' \<and> new_block (if a = p then fst (the (live h p)) else key) len p a h h' \<and>
         (p \<noteq> 0 \<longrightarrow> (\<forall>x < min len (snd (the (live h p))). heap_bytes h' (a + x) = heap_bytes h (p + x)))"
    proof (cases "p \<noteq> 0 \<and> len = 0")
      case True
      then show ?thesis using fr by (simp add: bump_api_def bump_free_def kept_def)
    next
      case False
      then show ?thesis using bump_at_block [OF i' order_refl r] r ne by (auto simp: bump_api_def)
    qed
  qed
  show "free_law bump_inv bump_api"
    by (auto simp: free_law_def bump_api_def bump_free_def bump_inv_def kept_def)
  show "\<forall>h f. bump_inv h \<longrightarrow> bump_inv (h\<lparr>heap_bytes := f\<rparr>)" by (simp add: bump_inv_def)
qed

text \<open>
  C7. The heaps of the compartments are separate.  Whatever function of the allocator
  compartment \<open>c\<close> calls, the blocks in use do not overlap afterwards, and every block other than
  the one passed in stays in use, in its partition and with its bytes.  A block that is
  returned has the size asked for; it lies in the partition of \<open>c\<close>, or in the shared one for
  the \<open>shared_\<close> functions, unless it is the block passed in, resized in place.  So with its
  own PKRU value compartment \<open>c\<close> may write a block that it has just allocated, and no
  other compartment may read it, unless it was asked to be shared.
\<close>
theorem heap_isolated:
  assumes "partition_ok ainv api" "ainv (the_heap st)" "heap_wf (the_heap st)" "roots_wf st" "c < 16"
    and "op_arg op = 0 \<or> live (the_heap st) (op_arg op) \<noteq> None"
    and "run_heap_op api (PKRU c) op st = Some (res, st')"
  shows "ainv (the_heap st') \<and> heap_wf (the_heap st') \<and> roots_wf st' \<and> kept (op_arg op) (the_heap st) (the_heap st') \<and>
    (\<forall>a. res = Some a \<longrightarrow> (\<exists>k u. live (the_heap st') a = Some (k, u) \<and> op_len op \<le> u \<and>
      (k = op_key c op \<or> a = op_arg op \<and> (\<exists>v. live (the_heap st) a = Some (k, v))) \<and>
      (a \<noteq> op_arg op \<longrightarrow> live (the_heap st) a = None \<and> pkru_may_write (PKRU c) k \<and>
         (\<forall>d < 16. pkru_may_read (PKRU d) k \<longleftrightarrow> d = c \<or> k = 0))))"
proof -
  note s = heap_op_step [OF assms]
  have key: "pkru_may_write (PKRU c) k \<and> (\<forall>d < 16. pkru_may_read (PKRU d) k \<longleftrightarrow> d = c \<or> k = 0)" if "k = op_key c op" for k
    using that assms(5) pkru_may_iff(1) [of k] pkru_may_iff(2) [of k c] by (auto simp: op_key_def)
  show ?thesis
  proof (intro conjI allI impI)
    fix a
    assume "res = Some a"
    then have "step_ok ainv (op_key c op) (op_len op) (op_arg op) (the_heap st) (Some a) (the_heap st')" using s by simp
    from step_result [OF this] obtain k u where k: "a \<noteq> op_arg op \<longrightarrow> live (the_heap st) a = None" "live (the_heap st') a = Some (k, u)" "op_len op \<le> u"
      "k = op_key c op \<or> a = op_arg op \<and> (\<exists>v. live (the_heap st) a = Some (k, v))"
      by (elim conjE exE)
    have "a \<noteq> op_arg op \<longrightarrow> live (the_heap st) a = None \<and> pkru_may_write (PKRU c) k \<and>
        (\<forall>d < 16. pkru_may_read (PKRU d) k \<longleftrightarrow> d = c \<or> k = 0)"
      using k(1,4) key [of k] by (cases "a = op_arg op") simp_all
    with k show "\<exists>k u. live (the_heap st') a = Some (k, u) \<and> op_len op \<le> u \<and>
      (k = op_key c op \<or> a = op_arg op \<and> (\<exists>v. live (the_heap st) a = Some (k, v))) \<and>
      (a \<noteq> op_arg op \<longrightarrow> live (the_heap st) a = None \<and> pkru_may_write (PKRU c) k \<and>
         (\<forall>d < 16. pkru_may_read (PKRU d) k \<longleftrightarrow> d = c \<or> k = 0))" by (intro exI [of _ k] exI [of _ u]) simp
  qed (use s in \<open>simp_all add: step_ok_def\<close>)
qed

definition sample_shim :: "nat shim" where
  "sample_shim = \<lparr>g_root = (\<lambda>_. None), g_shared_root = None,
     the_heap = \<lparr>live = [50 \<mapsto> (4, 10)], heap_bytes = (\<lambda>_. 7), hidden = 100\<rparr>\<rparr>"

theorem heap_isolated_witness:
  "\<exists>st'. run_heap_op bump_api (PKRU 3) (Malloc 8) sample_shim = Some (Some 100, st') \<and>
     live (the_heap st') 50 = Some (4, 10) \<and> live (the_heap st') 100 = Some (3, 8) \<and> \<not> pkru_may_read (PKRU 4) 3"
proof -
  obtain st' where r: "run_heap_op bump_api (PKRU 3) (Malloc 8) sample_shim = Some (Some 100, st')"
    "live (the_heap st') 50 = Some (4, 10)" "live (the_heap st') 100 = Some (3, 8)"
    by (simp add: PartitionMalloc_def alloc_in_def Allocator_def SharedAllocator_def get_pkey_PKRU singleton_get_def Let_def
        bump_api_def bump_at_def sample_shim_def)
  have "bump_inv (the_heap sample_shim)" "heap_wf (the_heap sample_shim)" "roots_wf sample_shim"
    by (auto simp: bump_inv_def heap_wf_def roots_wf_def sample_shim_def split: if_splits)
  from heap_isolated [OF bump_ok this _ _ r(1)] show ?thesis using r by auto
qed

end
