(* ===== verification/Spec2Isabelle.thy ===== *)
theory Spec2Isabelle
  imports Tracer_Safety Map_Refinement Gate_Returns Abi_Claims Runtime_Gates Tracer_Start Runtime_Init
    Permissive_Mode Maps_Laws Type_Registry Type_Ops Plan_Gates Tracer_Progress Destructors Permissive_Log
    Thread_Start Heap_Shim
begin

text \<open>
  Verification library of IA2, which divides a C program into compartments that run in one
  process and are kept apart by memory protection keys.

  \<^bold>\<open>The parts of the program.\<close>  The rewriter (\<open>tools/rewriter\<close>) reads the sources, decides which
  calls cross compartments and generates an assembler call gate for each.  The runtime
  (\<open>runtime/libia2\<close>) tags the memory of every compartment at start-up, gives every thread a stack
  per compartment, and holds a few gates of its own.  The allocator shim
  (\<open>runtime/partition-alloc\<close>) serves each compartment from its own partition.  The tracer
  (\<open>runtime/tracer\<close>) starts the program under system call and file filters and watches its
  memory calls, so that no compartment can undo the tagging.  The type registry
  (\<open>runtime/type-registry\<close>) checks the types of objects that cross a gate.

  \<^bold>\<open>Vocabulary.\<close>  \<open>IA2_Prelude\<close> has the machine types and the wrap-around arithmetic of \<open>usize\<close>.
  \<open>Pkru\<close> has the PKRU values (\<open>ia2.h\<close>) and the tables that invert them (\<open>ia2.c\<close>, \<open>get_pkey.cc\<close>,
  \<open>track_memory_map.c\<close>); its lemmas say which keys a value opens and that the tables agree.

  \<^bold>\<open>Tracer.\<close>  \<open>Interval_Tree\<close> states what the memory map relies on about the third-party interval
  tree, as a locale with a list implementation that meets it.  \<open>Memory_Map\<close> models every operation
  of \<open>memory-map/src/lib.rs\<close> (a panic is \<^term>\<open>None\<close>), \<open>Tracer_Policy\<close> the decoding, permission check
  and update for each traced call, and \<open>Tracer_Loop\<close> one iteration of \<open>track_memory_map\<close> with
  its table of processes and pending threads.  \<open>Memory_Map_Laws\<close> describes each operation
  pointwise on addresses; \<open>Policy_Safety\<close> shows that a permitted call never takes a page from
  another compartment; \<open>Map_Refinement\<close> that policy and update compute what an abstract machine
  on a plain map of pages computes; \<open>Tracer_Safety\<close> that the loop keeps the maps well formed and
  never lets a forbidden call run; \<open>Tracer_Progress\<close> that it leaves no thread stopped.  One
  iteration is a function of what the kernel reports, so no fuel is needed; reachable states
  are an inductive predicate.

  \<^bold>\<open>Sandbox.\<close>  \<open>Seccomp\<close> has the filter programs with an interpreter, which runs on the length of
  the program since jumps only go forward; \<open>Forbid_Paths\<close> and \<open>Sandbox_Laws\<close> the Landlock rules
  (\<open>forbid_paths.c\<close>, \<open>strv.c\<close>, \<open>landlock.c\<close>); \<open>Tracer_Start\<close> the launch (\<open>start.c\<close>,
  \<open>get_inferior_pkru.c\<close>).  Together they show that the program starts only with all of these in
  force, that a forbidden path is never granted, and that every other path is.

  \<^bold>\<open>Call gates.\<close>  \<open>Asm\<close> is a machine for the x86-64 instructions of the gates, on which an access
  that PKRU forbids has no successor; the generated code has no loops, so its execution is
  recursion on the list of instructions.  \<open>C_Abi\<close> models argument
  locations (\<open>CAbi.h\<close>, \<open>DetermineAbi.cpp\<close>, \<open>GenCallAsm.cpp\<close>) and \<open>Gen_Call_Asm\<close> every emitter of
  \<open>GenCallAsm.cpp\<close>, for x86-64 and for AArch64.  \<open>Machine_Laws\<close>, \<open>Gate_Blocks\<close>, \<open>Call_Gate\<close> and
  \<open>Abi_Laws\<close> lead to \<open>Gate_Safety\<close>: an arbitrary target gets its arguments and nothing
  else, and the caller gets its stack, registers and rights back.  \<open>Gate_Returns\<close> has the copying of
  values in memory and its weakness, \<open>Abi_Claims\<close> the comparison with the System V convention.

  \<^bold>\<open>Planning of gates.\<close>  \<open>Wrapper_Plan\<close> models how \<open>SourceRewriter.cpp\<close> gets from the matches of
  Clang to the list of gates and the linker files, with ordered maps as red-black trees, since
  the order of the output depends on them.  \<open>Plan_Laws\<close> shows that the planner classifies
  functions by their callers, \<open>Plan_Gates\<close> that every call that crosses compartments, directly or
  through a pointer, is linked to a gate between the right two, and that all wrapped
  symbols are defined.  \<open>Type_Ops\<close> (\<open>TypeOps.cpp\<close>) and \<open>Type_Registry\<close> show that type ids separate types
  and that the registry follows the life of each object.

  \<^bold>\<open>Runtime.\<close>  \<open>Protect_Pages\<close> and \<open>Protect_Laws\<close> model the tagging of segments and thread-local
  storage (\<open>ia2.c\<close>) and the tool \<open>pad-tls\<close>; \<open>Runtime_Init\<close> the start (\<open>init.c\<close>); \<open>Thread_Start\<close> the stacks
  of a new thread and the stub of a signal handler (\<open>ia2_internal.h\<close>, \<open>threads.c\<close>);
  \<open>Destructors\<close> the redirection of destructors (\<open>ia2_compartment_init.inc\<close>); \<open>Runtime_Gates\<close> the gates
  in \<open>exit_callgates.c\<close>, \<open>main.c\<close>, \<open>exit.c\<close> and \<open>threads.c\<close>; \<open>Permissive_Mode\<close> and \<open>Permissive_Log\<close> the
  handler, queue and log of \<open>permissive_mode.h\<close>, where a loop that may not end is a
  \<^term>\<open>None\<close> of \<open>partial_function\<close> and the inputs on which it ends are characterised; \<open>Maps_Log\<close>
  and \<open>Maps_Laws\<close> the log of \<open>memory_maps.c\<close>.  \<open>Heap_Shim\<close> shows that the heaps of compartments stay
  apart; PartitionAlloc is a parameter with laws, which a simple allocator is shown to meet.

  \<^bold>\<open>Conventions.\<close>  Answers of the kernel, of Clang and of third-party code are arguments or
  records of functions.  A C \<open>assert\<close>, an \<open>abort\<close>, a panic or undefined behaviour is a value
  (\<^term>\<open>None\<close>, or an error of a sum type).  Sizes and addresses are naturals below \<open>2 ^ 64\<close> with the
  wrap-around written out, or words where bits matter.

  \<^bold>\<open>Not modelled.\<close>  The execution of AArch64 code (its generation is); the lowering of types in
  Clang and the passes that edit source text (\<open>FnPtrTypes\<close>, \<open>FnPtrExpr\<close>, \<open>FnPtrCall\<close>, \<open>FnPtrNull\<close>,
  \<open>FnPtrEq\<close>), which are calls of Clang; command lines, file copying and console output; the
  installation of signal handlers and the start of the logging thread; the spin lock, the statistics and the
  memory reclaimer of the allocator shim; thread names; the demo programs, tests, examples,
  benchmarks, build scripts and the submodules under \<open>external\<close>.
\<close>

end
